theory Spec2Isabelle
  imports Complex_Main "HOL-Library.Word"
begin

unbundle bit_operations_syntax

section \<open>Data model of esp32\_code.ino\<close>

text \<open>
  The firmware keeps all of its state in global variables.  The model collects them in one
  record and passes it explicitly.  \<open>uint8_t\<close>, \<open>uint16_t\<close> and \<open>uint32_t\<close> are words of
  that width; a C \<open>int\<close> (32 bits on the ESP32) is a HOL \<open>int\<close> wherever its value provably
  stays far inside 32 bits, and the conversion to an unsigned type is \<open>word_of_int\<close>, which
  reduces modulo \<open>2 ^ w\<close> as the C conversion does.  The fixed-size global arrays are lists;
  \<open>wf_state\<close> below records their lengths.

  The calibration routines \<open>pixelToWavelength\<close> and \<open>getXUnitValue\<close> are only called
  while drawing, and drawing is an event here; they are left out.  \<open>wavelengthToWavenumber\<close>
  is modelled on its own, in the section on floating point below.  \<open>setup\<close> is left out as
  well: the state it hands to the first \<open>loop\<close> differs from \<open>initial_state\<close> in
  \<open>tx_buffer\<close> alone, which every entry into an acquisition mode rebuilds.
\<close>

type_synonym u8 = "8 word"
type_synonym u16 = "16 word"
type_synonym u32 = "32 word"

datatype ScreenState =
    STATE_MAIN_MENU
  | STATE_SETTINGS
  | STATE_SETTINGS_ACQ
  | STATE_SETTINGS_AXIS
  | STATE_ACQUISITION_CONT
  | STATE_ACQUISITION_SINGLE
  | STATE_ACQUISITION_DARK

datatype XAxisUnit = UNIT_PIXEL | UNIT_NM | UNIT_CM_1

definition PACKET_SIZE :: nat where
  "PACKET_SIZE = 7388"

definition PIXEL_COUNT :: nat where
  "PIXEL_COUNT = 3694"

definition ADC_MAX_VALUE :: int where
  "ADC_MAX_VALUE = 4095"

definition NUM_INTEGRATIONS :: u16 where
  "NUM_INTEGRATIONS = 1"

definition MAIN_MENU_MAX :: int where
  "MAIN_MENU_MAX = 3"

definition SETTINGS_MAX :: int where
  "SETTINGS_MAX = 2"

definition SETTINGS_ACQ_MAX :: int where
  "SETTINGS_ACQ_MAX = 2"

definition SETTINGS_AXIS_MAX :: int where
  "SETTINGS_AXIS_MAX = 5"

definition PACKET_START_MARKER :: "u8 list" where
  "PACKET_START_MARKER = [0xAA, 0xBB, 0xCC, 0xDD]"

text \<open>
  What the firmware does to the outside world, in program order: lines on the serial
  console, transfers on the SPI bus to the STM32, writes to the TCP client, and what it
  hands to the TFT display.  The drawing routines only read the state, so one event stands
  for each of them: \<open>DrawGraph mode d\<close> is \<open>drawGraph_GFX(mode)\<close> plotting the contents
  \<open>d\<close> of \<open>pixel_data\<close>, \<open>TftMessage\<close> is a cleared screen with one line of text, and
  \<open>DrawScreen st\<close> is the menu or settings screen of state \<open>st\<close>.  \<open>ClientWriteWords d\<close>
  is \<open>client.write((uint8_t*)pixel_data, sizeof(pixel_data))\<close>: the samples \<open>d\<close> as they
  lie in memory.  Calls of \<open>delay\<close> have no event.
\<close>

datatype event =
    SerialPrintln string
  | SpiWriteBytes "u8 list"
  | SpiTransferBytes "u8 list"
  | ClientWriteBytes "u8 list"
  | ClientWriteWords "u16 list"
  | DrawGraph ScreenState "u16 list"
  | TftMessage string
  | DrawScreen ScreenState

record state =
  currentState :: ScreenState
  redrawScreen :: bool
  SH_PERIOD :: u32
  ICG_PERIOD :: u32
  currentXUnit :: XAxisUnit
  plot_pixel_min :: int
  plot_pixel_max :: int
  plot_adc_min :: int
  plot_adc_max :: int
  tx_buffer :: "u8 list"
  rx_buffer :: "u8 list"
  pixel_data :: "u16 list"
  raw_pixel_data :: "u16 list"
  dark_spectrum_data :: "u16 list"
  darkSpectrumSaved :: bool
  dataReady :: bool
  waitingForSingleScan :: bool
  mainMenuSelection :: int
  settingsSelection :: int
  settingsAcqSelection :: int
  settingsAxisSelection :: int
  settingsEditMode :: bool
  out :: "event list"

text \<open>The globals as their initialisers leave them (arrays without one are zeroed).\<close>

definition initial_state :: state where
  "initial_state =
     \<lparr> currentState = STATE_MAIN_MENU,
       redrawScreen = True,
       SH_PERIOD = 5000000,
       ICG_PERIOD = 5000000,
       currentXUnit = UNIT_PIXEL,
       plot_pixel_min = 0,
       plot_pixel_max = int PIXEL_COUNT - 1,
       plot_adc_min = 0,
       plot_adc_max = ADC_MAX_VALUE,
       tx_buffer = replicate PACKET_SIZE 0,
       rx_buffer = replicate PACKET_SIZE 0,
       pixel_data = replicate PIXEL_COUNT 0,
       raw_pixel_data = replicate PIXEL_COUNT 0,
       dark_spectrum_data = replicate PIXEL_COUNT 0,
       darkSpectrumSaved = False,
       dataReady = False,
       waitingForSingleScan = False,
       mainMenuSelection = 0,
       settingsSelection = 0,
       settingsAcqSelection = 0,
       settingsAxisSelection = 0,
       settingsEditMode = False,
       out = [] \<rparr>"

definition wf_state :: "state \<Rightarrow> bool" where
  "wf_state s \<longleftrightarrow>
     length (tx_buffer s) = PACKET_SIZE \<and>
     length (rx_buffer s) = PACKET_SIZE \<and>
     length (pixel_data s) = PIXEL_COUNT \<and>
     length (raw_pixel_data s) = PIXEL_COUNT \<and>
     length (dark_spectrum_data s) = PIXEL_COUNT"

definition emit :: "event list \<Rightarrow> state \<Rightarrow> state" where
  "emit es s = s\<lparr>out := out s @ es\<rparr>"

section \<open>Command frame\<close>

text \<open>
  \<open>buildCommand\<close>: \<open>memset\<close> to zero, then thirteen byte stores.  Each store narrows a
  32-bit value (or the promoted 16-bit constant) to \<open>uint8_t\<close>, which is \<open>ucast\<close>.
\<close>

definition buildCommand :: "state \<Rightarrow> state" where
  "buildCommand s =
     s\<lparr>tx_buffer := (replicate PACKET_SIZE 0)
        [0 := 0x45, 1 := 0x52,
         2 := ucast (drop_bit 24 (SH_PERIOD s) AND 0xFF),
         3 := ucast (drop_bit 16 (SH_PERIOD s) AND 0xFF),
         4 := ucast (drop_bit 8 (SH_PERIOD s) AND 0xFF),
         5 := ucast (drop_bit 0 (SH_PERIOD s) AND 0xFF),
         6 := ucast (drop_bit 24 (ICG_PERIOD s) AND 0xFF),
         7 := ucast (drop_bit 16 (ICG_PERIOD s) AND 0xFF),
         8 := ucast (drop_bit 8 (ICG_PERIOD s) AND 0xFF),
         9 := ucast (drop_bit 0 (ICG_PERIOD s) AND 0xFF),
         10 := 0x01,
         11 := ucast (drop_bit 8 NUM_INTEGRATIONS AND 0xFF),
         12 := ucast (drop_bit 0 NUM_INTEGRATIONS AND 0xFF)]\<rparr>"

text \<open>
  The reading side of the frame is not part of this firmware.  The two decoders follow the
  wording of the wire format: a big-endian field has its first byte most significant.
\<close>

definition bigEndian32 :: "u8 \<Rightarrow> u8 \<Rightarrow> u8 \<Rightarrow> u8 \<Rightarrow> u32" where
  "bigEndian32 b0 b1 b2 b3 =
     push_bit 24 (ucast b0) OR push_bit 16 (ucast b1) OR push_bit 8 (ucast b2) OR ucast b3"

definition bigEndian16 :: "u8 \<Rightarrow> u8 \<Rightarrow> u16" where
  "bigEndian16 b0 b1 = push_bit 8 (ucast b0) OR ucast b1"

definition header_shPeriod :: "u8 list \<Rightarrow> u32" where
  "header_shPeriod f = bigEndian32 (f ! 2) (f ! 3) (f ! 4) (f ! 5)"

definition header_icgPeriod :: "u8 list \<Rightarrow> u32" where
  "header_icgPeriod f = bigEndian32 (f ! 6) (f ! 7) (f ! 8) (f ! 9)"

definition header_integrations :: "u8 list \<Rightarrow> u16" where
  "header_integrations f = bigEndian16 (f ! 11) (f ! 12)"

section \<open>Response frame and dark correction\<close>

text \<open>
  One pixel of \<open>processData_Raw\<close>.  \<open>(msb << 8) | lsb\<close> is computed in \<open>int\<close> after integer
  promotion and lies in \<open>0 .. 65535\<close>, so the difference lies in \<open>-61440 .. 4095\<close>; the
  store into a \<open>uint16_t\<close> reduces it modulo \<open>2 ^ 16\<close>.
\<close>

definition decode_sample :: "u8 \<Rightarrow> u8 \<Rightarrow> u16" where
  "decode_sample lsb msb = word_of_int (ADC_MAX_VALUE - (push_bit 8 (uint msb) OR uint lsb))"

function processData_Raw_loop :: "nat \<Rightarrow> u8 list \<Rightarrow> u16 list \<Rightarrow> u16 list" where
  "processData_Raw_loop i rx raw =
     (if i < PIXEL_COUNT
      then let index = i * 2; lsb = rx ! index; msb = rx ! (index + 1)
           in processData_Raw_loop (Suc i) rx (raw[i := decode_sample lsb msb])
      else raw)"
  by pat_completeness auto
termination
  by (relation "measure (\<lambda>(i, rx, raw). PIXEL_COUNT - i)") auto

declare processData_Raw_loop.simps [simp del]

definition processData_Raw :: "state \<Rightarrow> state" where
  "processData_Raw s =
     s\<lparr>raw_pixel_data := processData_Raw_loop 0 (rx_buffer s) (raw_pixel_data s)\<rparr>"

text \<open>
  \<open>applyDarkSpectrumCorrection\<close>.  The subtraction is done in \<open>int\<close> on the promoted
  operands; it is only reached when \<open>raw > dark\<close>, so the store back into \<open>uint16_t\<close>
  is the 16-bit difference.
\<close>

function applyDark_loop :: "nat \<Rightarrow> u16 list \<Rightarrow> u16 list \<Rightarrow> u16 list \<Rightarrow> u16 list" where
  "applyDark_loop i raw dark pd =
     (if i < PIXEL_COUNT
      then applyDark_loop (Suc i) raw dark
             (pd[i := (if raw ! i > dark ! i
                       then word_of_int (uint (raw ! i) - uint (dark ! i))
                       else 0)])
      else pd)"
  by pat_completeness auto
termination
  by (relation "measure (\<lambda>(i, raw, dark, pd). PIXEL_COUNT - i)") auto

declare applyDark_loop.simps [simp del]

definition applyDarkSpectrumCorrection :: "state \<Rightarrow> state" where
  "applyDarkSpectrumCorrection s =
     (if darkSpectrumSaved s
      then s\<lparr>pixel_data :=
               applyDark_loop 0 (raw_pixel_data s) (dark_spectrum_data s) (pixel_data s)\<rparr>
      else s\<lparr>pixel_data := raw_pixel_data s\<rparr>)"

definition saveDarkSpectrum :: "state \<Rightarrow> state" where
  "saveDarkSpectrum s =
     emit [SerialPrintln ''Dark Spectrum Salvo!'', TftMessage ''Dark Spectrum Salvo!'']
       (s\<lparr>dark_spectrum_data := raw_pixel_data s, darkSpectrumSaved := True\<rparr>)"

section \<open>Bus exchanges and the two sinks\<close>

text \<open>
  \<open>readDataAndRequestNext\<close> is one full-duplex transfer: the command frame goes out and
  \<open>rx_buffer\<close> is overwritten by the \<open>PACKET_SIZE\<close> bytes that came back, here the
  argument \<open>rx\<close>.  \<open>requestFirstScan\<close> only writes.
\<close>

definition readDataAndRequestNext :: "u8 list \<Rightarrow> state \<Rightarrow> state" where
  "readDataAndRequestNext rx s = emit [SpiTransferBytes (tx_buffer s)] (s\<lparr>rx_buffer := rx\<rparr>)"

definition requestFirstScan :: "state \<Rightarrow> state" where
  "requestFirstScan s =
     emit [SerialPrintln ''Enviando primeiro comando (kick-start)...'',
           SpiWriteBytes (tx_buffer s)] s"

text \<open>
  \<open>sendDataViaWiFi\<close>; \<open>client_connected\<close> is the value of
  \<open>client && client.connected()\<close> when the function tests it.
\<close>

definition sendDataViaWiFi :: "bool \<Rightarrow> state \<Rightarrow> state" where
  "sendDataViaWiFi client_connected s =
     (if client_connected
      then emit [SerialPrintln ''Enviando dados via Wi-Fi (AP)...'',
                 ClientWriteBytes PACKET_START_MARKER,
                 ClientWriteWords (pixel_data s),
                 SerialPrintln ''Envio Wi-Fi (AP) completo.''] s
      else emit [SerialPrintln ''Nenhum cliente conectado, envio ignorado.''] s)"

definition drawGraph_GFX :: "ScreenState \<Rightarrow> state \<Rightarrow> state" where
  "drawGraph_GFX mode s = emit [DrawGraph mode (pixel_data s)] s"

section \<open>The user-interface state machine\<close>

definition changeState :: "ScreenState \<Rightarrow> state \<Rightarrow> state" where
  "changeState newState s =
     (let s1 = s\<lparr>currentState := newState, redrawScreen := True\<rparr>
      in case newState of
           STATE_ACQUISITION_CONT \<Rightarrow>
             requestFirstScan (buildCommand
               (emit [SerialPrintln ''Entrando no modo de Aquisicao (Continua)...''] s1))
         | STATE_ACQUISITION_SINGLE \<Rightarrow>
             emit [TftMessage ''Aguardando 1a aquisicao...'']
               ((requestFirstScan (buildCommand
                   (emit [SerialPrintln ''Entrando no modo de Aquisicao (Unica)...''] s1)))
                \<lparr>waitingForSingleScan := True\<rparr>)
         | STATE_ACQUISITION_DARK \<Rightarrow>
             emit [TftMessage ''Aguardando aquisicao (Dark)...'']
               ((requestFirstScan (buildCommand
                   (emit [SerialPrintln ''Entrando no modo Dark Spectrum...''] s1)))
                \<lparr>waitingForSingleScan := True\<rparr>)
         | STATE_SETTINGS \<Rightarrow> s1\<lparr>settingsEditMode := False\<rparr>
         | STATE_SETTINGS_ACQ \<Rightarrow> s1\<lparr>settingsEditMode := False\<rparr>
         | STATE_SETTINGS_AXIS \<Rightarrow> s1\<lparr>settingsEditMode := False\<rparr>
         | STATE_MAIN_MENU \<Rightarrow> s1)"

text \<open>A menu cursor moved by \<open>rotation\<close> and wrapped at both ends, as all four menus do.\<close>

definition wrap_selection :: "int \<Rightarrow> int \<Rightarrow> int \<Rightarrow> int" where
  "wrap_selection sel rotation mx =
     (let a = sel + rotation;
          b = (if a > mx then 0 else a)
      in if b < 0 then mx else b)"

definition handleMainMenuInput :: "int \<Rightarrow> bool \<Rightarrow> state \<Rightarrow> state" where
  "handleMainMenuInput rotation clicked s =
     (let s1 = (if rotation \<noteq> 0
                then s\<lparr>mainMenuSelection :=
                         wrap_selection (mainMenuSelection s) rotation MAIN_MENU_MAX,
                       redrawScreen := True\<rparr>
                else s)
      in if clicked
         then (if mainMenuSelection s1 = 0 then changeState STATE_ACQUISITION_CONT s1
               else if mainMenuSelection s1 = 1 then changeState STATE_ACQUISITION_SINGLE s1
               else if mainMenuSelection s1 = 2 then changeState STATE_ACQUISITION_DARK s1
               else if mainMenuSelection s1 = 3 then changeState STATE_SETTINGS s1
               else s1)
         else s1)"

definition handleSettingsInput :: "int \<Rightarrow> bool \<Rightarrow> state \<Rightarrow> state" where
  "handleSettingsInput rotation clicked s =
     (let s1 = (if rotation \<noteq> 0
                then s\<lparr>settingsSelection :=
                         wrap_selection (settingsSelection s) rotation SETTINGS_MAX,
                       redrawScreen := True\<rparr>
                else s)
      in if clicked
         then (if settingsSelection s1 = 0 then changeState STATE_SETTINGS_ACQ s1
               else if settingsSelection s1 = 1 then changeState STATE_SETTINGS_AXIS s1
               else if settingsSelection s1 = 2 then changeState STATE_MAIN_MENU s1
               else s1)\<lparr>redrawScreen := True\<rparr>
         else s1)"

text \<open>
  The edit step of the acquisition settings.  \<open>step_time\<close> is an \<open>int\<close>; in
  \<open>SH_PERIOD += step_time\<close> it is converted to \<open>uint32_t\<close> and the sum is taken modulo
  \<open>2 ^ 32\<close>, and the comparison with the minimum that follows is unsigned.
\<close>

definition edit_SH_PERIOD :: "int \<Rightarrow> u32 \<Rightarrow> u32" where
  "edit_SH_PERIOD step_time sh =
     (let v = sh + word_of_int step_time in if v < 40 then 40 else v)"

definition edit_ICG_PERIOD :: "int \<Rightarrow> u32 \<Rightarrow> u32" where
  "edit_ICG_PERIOD step_time icg =
     (let v = icg + word_of_int (step_time * 10) in if v < 32000 then 32000 else v)"

definition handleSettingsAcqInput :: "int \<Rightarrow> bool \<Rightarrow> state \<Rightarrow> state" where
  "handleSettingsAcqInput rotation clicked s =
     (if settingsEditMode s
      then (let s1 = (if rotation \<noteq> 0
                      then (let step_time = (if rotation > 0 then 100 else - 100)
                            in (if settingsAcqSelection s = 0
                                then s\<lparr>SH_PERIOD := edit_SH_PERIOD step_time (SH_PERIOD s)\<rparr>
                                else if settingsAcqSelection s = 1
                                then s\<lparr>ICG_PERIOD := edit_ICG_PERIOD step_time (ICG_PERIOD s)\<rparr>
                                else s)\<lparr>redrawScreen := True\<rparr>)
                      else s)
            in if clicked then s1\<lparr>settingsEditMode := False, redrawScreen := True\<rparr> else s1)
      else (let s1 = (if rotation \<noteq> 0
                      then s\<lparr>settingsAcqSelection :=
                               wrap_selection (settingsAcqSelection s) rotation SETTINGS_ACQ_MAX,
                             redrawScreen := True\<rparr>
                      else s)
            in if clicked
               then (if settingsAcqSelection s1 = 0 \<or> settingsAcqSelection s1 = 1
                     then s1\<lparr>settingsEditMode := True\<rparr>
                     else if settingsAcqSelection s1 = 2 then changeState STATE_SETTINGS s1
                     else s1)\<lparr>redrawScreen := True\<rparr>
               else s1))"

text \<open>Arduino's \<open>constrain(amt, low, high)\<close> macro.\<close>

definition constrain :: "int \<Rightarrow> int \<Rightarrow> int \<Rightarrow> int" where
  "constrain amt low high = (if amt < low then low else if amt > high then high else amt)"

definition handleSettingsAxisInput :: "int \<Rightarrow> bool \<Rightarrow> state \<Rightarrow> state" where
  "handleSettingsAxisInput rotation clicked s =
     (if settingsEditMode s
      then (let s1 = (if rotation \<noteq> 0
                      then (let step_px = (if rotation > 0 then 10 else - 10);
                                step_adc = (if rotation > 0 then 50 else - 50)
                            in (if settingsAxisSelection s = 1
                                then s\<lparr>plot_pixel_min :=
                                         constrain (plot_pixel_min s + step_px) 0
                                           (plot_pixel_max s - 10)\<rparr>
                                else if settingsAxisSelection s = 2
                                then s\<lparr>plot_pixel_max :=
                                         constrain (plot_pixel_max s + step_px)
                                           (plot_pixel_min s + 10) (int PIXEL_COUNT - 1)\<rparr>
                                else if settingsAxisSelection s = 3
                                then s\<lparr>plot_adc_min :=
                                         constrain (plot_adc_min s + step_adc) 0
                                           (plot_adc_max s - 100)\<rparr>
                                else if settingsAxisSelection s = 4
                                then s\<lparr>plot_adc_max :=
                                         constrain (plot_adc_max s + step_adc)
                                           (plot_adc_min s + 100) ADC_MAX_VALUE\<rparr>
                                else s)\<lparr>redrawScreen := True\<rparr>)
                      else s)
            in if clicked then s1\<lparr>settingsEditMode := False, redrawScreen := True\<rparr> else s1)
      else (let s1 = (if rotation \<noteq> 0
                      then s\<lparr>settingsAxisSelection :=
                               wrap_selection (settingsAxisSelection s) rotation SETTINGS_AXIS_MAX,
                             redrawScreen := True\<rparr>
                      else s)
            in if clicked
               then (if settingsAxisSelection s1 \<in> {1, 2, 3, 4}
                     then s1\<lparr>settingsEditMode := True\<rparr>
                     else if settingsAxisSelection s1 = 0
                     then s1\<lparr>currentXUnit :=
                              (case currentXUnit s1 of
                                 UNIT_PIXEL \<Rightarrow> UNIT_NM
                               | UNIT_NM \<Rightarrow> UNIT_CM_1
                               | UNIT_CM_1 \<Rightarrow> UNIT_PIXEL)\<rparr>
                     else if settingsAxisSelection s1 = 5 then changeState STATE_SETTINGS s1
                     else s1)\<lparr>redrawScreen := True\<rparr>
               else s1))"

definition handleAcquisitionInput :: "bool \<Rightarrow> state \<Rightarrow> state" where
  "handleAcquisitionInput clicked s = (if clicked then changeState STATE_MAIN_MENU s else s)"

definition drawCurrentScreen :: "state \<Rightarrow> state" where
  "drawCurrentScreen s =
     (case currentState s of
        STATE_MAIN_MENU \<Rightarrow> emit [DrawScreen STATE_MAIN_MENU] s
      | STATE_SETTINGS \<Rightarrow> emit [DrawScreen STATE_SETTINGS] s
      | STATE_SETTINGS_ACQ \<Rightarrow> emit [DrawScreen STATE_SETTINGS_ACQ] s
      | STATE_SETTINGS_AXIS \<Rightarrow> emit [DrawScreen STATE_SETTINGS_AXIS] s
      | STATE_ACQUISITION_CONT \<Rightarrow>
          drawGraph_GFX STATE_ACQUISITION_CONT (applyDarkSpectrumCorrection (processData_Raw s))
      | STATE_ACQUISITION_SINGLE \<Rightarrow> s
      | STATE_ACQUISITION_DARK \<Rightarrow> s)"

section \<open>The interrupt handler and the poll loop\<close>

definition onDataReady :: "state \<Rightarrow> state" where
  "onDataReady s = s\<lparr>dataReady := True\<rparr>"

text \<open>
  What one iteration of \<open>loop\<close> takes from outside: the decoded encoder gesture
  (\<open>rotation\<close>, \<open>clicked\<close>, \<open>longPress\<close> as the first part of \<open>loop\<close> computes them from the
  encoder library and \<open>millis\<close>), whether the TCP bookkeeping at the top of \<open>loop\<close> accepted
  or dropped a client (it then sets \<open>redrawScreen\<close>), whether a client is connected when
  \<open>sendDataViaWiFi\<close> asks, and the frame the STM32 returns if the iteration makes a
  full-duplex transfer.
\<close>

record input =
  in_rotation :: int
  in_clicked :: bool
  in_longPress :: bool
  in_client_redraw :: bool
  in_client_connected :: bool
  in_spi_rx :: "u8 list"

text \<open>The \<open>switch (currentState)\<close> of \<open>loop\<close>.\<close>

definition loop_navigation :: "input \<Rightarrow> state \<Rightarrow> state" where
  "loop_navigation inp s =
     (case currentState s of
        STATE_MAIN_MENU \<Rightarrow> handleMainMenuInput (in_rotation inp) (in_clicked inp) s
      | STATE_SETTINGS \<Rightarrow> handleSettingsInput (in_rotation inp) (in_clicked inp) s
      | STATE_SETTINGS_ACQ \<Rightarrow> handleSettingsAcqInput (in_rotation inp) (in_clicked inp) s
      | STATE_SETTINGS_AXIS \<Rightarrow> handleSettingsAxisInput (in_rotation inp) (in_clicked inp) s
      | STATE_ACQUISITION_CONT \<Rightarrow> handleAcquisitionInput (in_clicked inp) s
      | STATE_ACQUISITION_SINGLE \<Rightarrow>
          (if in_rotation inp \<noteq> 0
           then changeState STATE_MAIN_MENU
                  (emit [SerialPrintln ''Saindo do modo unico (rotacao)...''] s)
           else s)
      | STATE_ACQUISITION_DARK \<Rightarrow>
          (let s1 = (if in_clicked inp \<or> in_rotation inp \<noteq> 0
                     then changeState STATE_MAIN_MENU s else s)
           in if in_longPress inp
              then changeState STATE_MAIN_MENU (saveDarkSpectrum s1)
              else s1))"

text \<open>The acquisition part of \<open>loop\<close>, which looks at \<open>currentState\<close> after the switch.\<close>

definition loop_acquisition :: "input \<Rightarrow> state \<Rightarrow> state" where
  "loop_acquisition inp s =
     (if currentState s = STATE_ACQUISITION_CONT
      then (if dataReady s
            then drawGraph_GFX STATE_ACQUISITION_CONT
                   (sendDataViaWiFi (in_client_connected inp)
                     (applyDarkSpectrumCorrection
                       (processData_Raw
                         (readDataAndRequestNext (in_spi_rx inp) (s\<lparr>dataReady := False\<rparr>)))))
            else s)
      else if currentState s = STATE_ACQUISITION_SINGLE
      then (let s1 =
                  (if dataReady s \<and> waitingForSingleScan s
                   then drawGraph_GFX STATE_ACQUISITION_SINGLE
                          (sendDataViaWiFi (in_client_connected inp)
                            (applyDarkSpectrumCorrection
                              (processData_Raw
                                (readDataAndRequestNext (in_spi_rx inp)
                                  (s\<lparr>dataReady := False, waitingForSingleScan := False\<rparr>)))))
                   else if in_clicked inp \<and> \<not> waitingForSingleScan s
                   then emit [TftMessage ''Aguardando nova aquisicao...'']
                          ((requestFirstScan
                              (emit [SerialPrintln ''Modo Unico: Pedindo novo scan...''] s))
                           \<lparr>waitingForSingleScan := True\<rparr>)
                   else s)
            in if dataReady s1 \<and> \<not> waitingForSingleScan s1
               then s1\<lparr>dataReady := False\<rparr> else s1)
      else if currentState s = STATE_ACQUISITION_DARK
      then (let s1 =
                  (if dataReady s \<and> waitingForSingleScan s
                   then drawGraph_GFX STATE_ACQUISITION_DARK
                          ((processData_Raw
                              (readDataAndRequestNext (in_spi_rx inp)
                                (s\<lparr>dataReady := False, waitingForSingleScan := False\<rparr>)))
                           \<lparr>pixel_data :=
                              raw_pixel_data
                                (processData_Raw
                                  (readDataAndRequestNext (in_spi_rx inp)
                                    (s\<lparr>dataReady := False,
                                       waitingForSingleScan := False\<rparr>)))\<rparr>)
                   else s)
            in if dataReady s1 \<and> \<not> waitingForSingleScan s1
               then s1\<lparr>dataReady := False\<rparr> else s1)
      else s)"

definition loop_redraw :: "state \<Rightarrow> state" where
  "loop_redraw s =
     (if redrawScreen s \<and>
         currentState s \<noteq> STATE_ACQUISITION_CONT \<and>
         currentState s \<noteq> STATE_ACQUISITION_SINGLE \<and>
         currentState s \<noteq> STATE_ACQUISITION_DARK
      then (drawCurrentScreen s)\<lparr>redrawScreen := False\<rparr>
      else s)"

text \<open>
  The TCP bookkeeping at the top of \<open>loop\<close>: all the rest of the program sees of it is
  \<open>redrawScreen\<close>.
\<close>

definition loop_client :: "input \<Rightarrow> state \<Rightarrow> state" where
  "loop_client inp s = (if in_client_redraw inp then s\<lparr>redrawScreen := True\<rparr> else s)"

definition loop :: "input \<Rightarrow> state \<Rightarrow> state" where
  "loop inp s =
     loop_redraw (loop_acquisition inp (loop_navigation inp (loop_client inp s)))"

text \<open>
  A run of the firmware: poll iterations, with rising edges of the data-ready line in
  between.  The handler only assigns the flag, so an edge inside an iteration that the
  iteration does not look at afterwards is the same as an edge right after it.
\<close>

datatype step = DataReadyIrq | Poll input

fun run :: "step list \<Rightarrow> state \<Rightarrow> state" where
  "run [] s = s"
| "run (DataReadyIrq # es) s = run es (onDataReady s)"
| "run (Poll inp # es) s = run es (loop inp s)"

definition is_acquisition :: "ScreenState \<Rightarrow> bool" where
  "is_acquisition st \<longleftrightarrow>
     st = STATE_ACQUISITION_CONT \<or> st = STATE_ACQUISITION_SINGLE \<or> st = STATE_ACQUISITION_DARK"




text \<open>A run none of whose poll iterations ends in an acquisition state.\<close>

fun stays_in_menus :: "step list \<Rightarrow> state \<Rightarrow> bool" where
  "stays_in_menus [] s = True"
| "stays_in_menus (DataReadyIrq # es) s = stays_in_menus es (onDataReady s)"
| "stays_in_menus (Poll inp # es) s =
     (\<not> is_acquisition (currentState (loop inp s)) \<and> stays_in_menus es (loop inp s))"


text \<open>
  The events that only \<open>sendDataViaWiFi\<close> produces: the writes to the client and its
  three console lines.
\<close>

fun transport_event :: "event \<Rightarrow> bool" where
  "transport_event (ClientWriteBytes b) = True"
| "transport_event (ClientWriteWords d) = True"
| "transport_event (SerialPrintln t) =
     (t = ''Enviando dados via Wi-Fi (AP)...'' \<or>
      t = ''Envio Wi-Fi (AP) completo.'' \<or>
      t = ''Nenhum cliente conectado, envio ignorado.'')"
| "transport_event (SpiWriteBytes b) = False"
| "transport_event (SpiTransferBytes b) = False"
| "transport_event (DrawGraph m d) = False"
| "transport_event (TftMessage t) = False"
| "transport_event (DrawScreen st) = False"

section \<open>Concrete inputs used below\<close>

text \<open>A response frame whose first byte is 1 and whose other bytes are 0.\<close>

definition frame_first_byte_one :: "u8 list" where
  "frame_first_byte_one = (replicate PACKET_SIZE 0)[0 := 1]"

text \<open>A response frame whose second byte is \<open>0x10\<close>: pixel 0 carries the count 4096.\<close>

definition frame_count_4096 :: "u8 list" where
  "frame_count_4096 = (replicate PACKET_SIZE 0)[1 := 0x10]"

text \<open>A 16-bit count read from a byte pair whose first byte is the least significant.\<close>

definition littleEndian16 :: "u8 \<Rightarrow> u8 \<Rightarrow> u16" where
  "littleEndian16 b0 b1 = push_bit 8 (ucast b1) OR ucast b0"

text \<open>A response frame of zeros: every pixel carries the count 0.\<close>

definition zero_frame :: "u8 list" where
  "zero_frame = replicate PACKET_SIZE 0"

text \<open>
  The continuous mode with a dark spectrum of 100 counts per pixel stored, and the
  dark-capture mode waiting for its frame with the data-ready flag set.
\<close>

definition cont_state_with_dark :: state where
  "cont_state_with_dark =
     initial_state\<lparr>currentState := STATE_ACQUISITION_CONT,
                    dark_spectrum_data := replicate PIXEL_COUNT 100,
                    darkSpectrumSaved := True\<rparr>"

definition dark_state_waiting :: state where
  "dark_state_waiting =
     initial_state\<lparr>currentState := STATE_ACQUISITION_DARK,
                    dark_spectrum_data := replicate PIXEL_COUNT 100,
                    darkSpectrumSaved := True,
                    dataReady := True,
                    waitingForSingleScan := True\<rparr>"

text \<open>
  One poll iteration with the given gesture; a client is connected and a transfer would
  return the zero frame.
\<close>

definition gesture_input :: "int \<Rightarrow> bool \<Rightarrow> bool \<Rightarrow> input" where
  "gesture_input rotation clicked longPress =
     \<lparr> in_rotation = rotation, in_clicked = clicked, in_longPress = longPress,
       in_client_redraw = False, in_client_connected = True, in_spi_rx = zero_frame \<rparr>"

text \<open>One poll iteration without a gesture and with no client connected.\<close>

definition no_client_input :: input where
  "no_client_input = (gesture_input 0 False False)\<lparr>in_client_connected := False\<rparr>"

text \<open>
  From power-up: turn to the second menu item, click it (single-scan mode, latch armed),
  and let the data-ready line rise.
\<close>

definition single_scan_pending :: "step list" where
  "single_scan_pending =
     [Poll (gesture_input 1 False False), Poll (gesture_input 0 True False), DataReadyIrq]"

text \<open>In the main menu: one detent forward and one back.\<close>

definition menu_wander :: "step list" where
  "menu_wander =
     [Poll (gesture_input 1 False False), Poll (gesture_input (- 1) False False)]"





section \<open>Floating point: the wavenumber conversion\<close>

text \<open>
  \<open>wavelengthToWavenumber\<close> takes and returns a \<open>float\<close> (IEEE 754 binary32, 24 significant
  bits); the literals \<open>1.0\<close> and \<open>10000000.0\<close> are \<open>double\<close> (binary64, 53 significant bits),
  so the two quotients, the difference and the product are computed in \<open>double\<close>, each
  rounded to nearest with ties to even, and the \<open>return\<close> rounds the product to \<open>float\<close>.
  A finite floating-point number is modelled by the rational it denotes.  The exponent
  range is not bounded here: for every finite \<open>float\<close> argument above 532 the quotient
  \<open>1.0 / lambda_nm\<close> is above \<open>2 ^ -129\<close>, the difference is above \<open>2 ^ -33\<close> and the product
  lies between \<open>2 ^ -9\<close> and \<open>2 ^ 15\<close>, all far inside the normal range of the format they
  are rounded to, so neither overflow nor gradual underflow occurs.  Infinities and NaN are
  not modelled.
\<close>

text \<open>The number of binary digits of a natural number.\<close>

function bit_length :: "nat \<Rightarrow> nat" where
  "bit_length n = (if n = 0 then 0 else Suc (bit_length (n div 2)))"
  by pat_completeness auto
termination
  by (relation "measure id") auto

declare bit_length.simps [simp del]

text \<open>The binary exponent \<open>e\<close> of a positive number: \<open>2 ^ e \<le> x < 2 ^ (e + 1)\<close>.\<close>

definition binade :: "rat \<Rightarrow> int" where
  "binade x = (if 1 \<le> x then int (bit_length (nat \<lfloor>x\<rfloor>)) - 1
               else - int (bit_length (nat (\<lceil>1 / x\<rceil> - 1))))"

text \<open>The nearest integer, the even one of the two when they are equally near.\<close>

definition round_half_even :: "rat \<Rightarrow> int" where
  "round_half_even x =
     (let f = \<lfloor>x\<rfloor>; r = x - of_int f
      in if r < 1 / 2 then f else if 1 / 2 < r then f + 1 else if even f then f else f + 1)"

text \<open>Rounding to \<open>p\<close> significant bits: to a multiple of the unit in the last place.\<close>

definition round_to_precision :: "nat \<Rightarrow> rat \<Rightarrow> rat" where
  "round_to_precision p x =
     (if x = 0 then 0
      else let u = 2 powi (binade \<bar>x\<bar> - int p + 1)
           in sgn x * of_int (round_half_even (\<bar>x\<bar> / u)) * u)"

definition to_double :: "rat \<Rightarrow> rat" where
  "to_double = round_to_precision 53"

definition to_float :: "rat \<Rightarrow> rat" where
  "to_float = round_to_precision 24"

definition EXC_LAMBDA :: rat where
  "EXC_LAMBDA = 532"

definition wavelengthToWavenumber :: "rat \<Rightarrow> rat" where
  "wavelengthToWavenumber lambda_nm =
     (if lambda_nm \<le> EXC_LAMBDA then 0
      else to_float (to_double (to_double (to_double (1 / EXC_LAMBDA) - to_double (1 / lambda_nm))
                                * 10000000)))"

section \<open>Facts about the loops\<close>

lemma processData_Raw_loop_length:
  "length (processData_Raw_loop i rx raw) = length raw"
proof (induction i rx raw rule: processData_Raw_loop.induct)
  case (1 i rx raw)
  show ?case
    using "1" by (subst processData_Raw_loop.simps) (simp add: Let_def)
qed

lemma processData_Raw_loop_nth:
  "j < length raw \<Longrightarrow>
   processData_Raw_loop i rx raw ! j =
     (if i \<le> j \<and> j < PIXEL_COUNT
      then decode_sample (rx ! (j * 2)) (rx ! (j * 2 + 1)) else raw ! j)"
proof (induction i rx raw rule: processData_Raw_loop.induct)
  case (1 i rx raw)
  show ?case
  proof (cases "i < PIXEL_COUNT")
    case True
    have step: "processData_Raw_loop i rx raw =
        processData_Raw_loop (Suc i) rx (raw[i := decode_sample (rx ! (i * 2)) (rx ! (i * 2 + 1))])"
      using True by (subst processData_Raw_loop.simps) (simp add: Let_def)
    show ?thesis
    proof (cases "j = i")
      case True
      with \<open>i < PIXEL_COUNT\<close> "1.IH" [OF \<open>i < PIXEL_COUNT\<close> refl refl refl] "1.prems"
      show ?thesis by (simp add: step)
    next
      case False
      then have "Suc i \<le> j \<longleftrightarrow> i \<le> j" by auto
      with False \<open>i < PIXEL_COUNT\<close> "1.IH" [OF \<open>i < PIXEL_COUNT\<close> refl refl refl] "1.prems"
      show ?thesis by (simp add: step)
    qed
  next
    case False
    then show ?thesis
      by (subst processData_Raw_loop.simps) auto
  qed
qed


lemma applyDark_loop_nth:
  "j < length pd \<Longrightarrow>
   applyDark_loop i raw dark pd ! j =
     (if i \<le> j \<and> j < PIXEL_COUNT
      then (if raw ! j > dark ! j then word_of_int (uint (raw ! j) - uint (dark ! j)) else 0)
      else pd ! j)"
proof (induction i raw dark pd rule: applyDark_loop.induct)
  case (1 i raw dark pd)
  show ?case
  proof (cases "i < PIXEL_COUNT")
    case True
    have step: "applyDark_loop i raw dark pd =
        applyDark_loop (Suc i) raw dark
          (pd[i := (if raw ! i > dark ! i
                    then word_of_int (uint (raw ! i) - uint (dark ! i)) else 0)])"
      using True by (subst applyDark_loop.simps) simp
    show ?thesis
    proof (cases "j = i")
      case True
      with \<open>i < PIXEL_COUNT\<close> "1.IH" [OF \<open>i < PIXEL_COUNT\<close>] "1.prems"
      show ?thesis by (simp add: step)
    next
      case False
      then have "Suc i \<le> j \<longleftrightarrow> i \<le> j" by auto
      with False \<open>i < PIXEL_COUNT\<close> "1.IH" [OF \<open>i < PIXEL_COUNT\<close>] "1.prems"
      show ?thesis by (simp add: step)
    qed
  next
    case False
    then show ?thesis
      by (subst applyDark_loop.simps) auto
  qed
qed

lemma processData_Raw_nth:
  assumes "length (raw_pixel_data s) = PIXEL_COUNT" and "i < PIXEL_COUNT"
  shows "raw_pixel_data (processData_Raw s) ! i =
           decode_sample (rx_buffer s ! (i * 2)) (rx_buffer s ! (i * 2 + 1))"
  using assms by (simp add: processData_Raw_def processData_Raw_loop_nth)

lemma applyDark_nth:
  assumes "length (pixel_data s) = PIXEL_COUNT" and "i < PIXEL_COUNT" and "darkSpectrumSaved s"
  shows "pixel_data (applyDarkSpectrumCorrection s) ! i =
           (if raw_pixel_data s ! i > dark_spectrum_data s ! i
            then word_of_int (uint (raw_pixel_data s ! i) - uint (dark_spectrum_data s ! i))
            else 0)"
  using assms by (simp add: applyDarkSpectrumCorrection_def applyDark_loop_nth)

section \<open>Facts about the byte arithmetic\<close>

lemma uint_sub_sample:
  fixes a b :: u16
  assumes "b < a"
  shows "uint (word_of_int (uint a - uint b) :: u16) = uint a - uint b"
proof -
  have "0 \<le> uint a - uint b" using assms by (simp add: word_less_def)
  moreover have "uint a - uint b < 65536"
  proof -
    have "uint a < 65536" using uint_lt2p [of a] by simp
    moreover have "0 \<le> uint b" by simp
    ultimately show ?thesis by linarith
  qed
  ultimately show ?thesis
    by (subst uint_word_of_int) simp
qed

lemma mask8_u32: "(0xFF :: u32) = mask 8"
  by (simp add: mask_eq_exp_minus_1)

lemma mask8_u16: "(0xFF :: u16) = mask 8"
  by (simp add: mask_eq_exp_minus_1)

lemma bigEndian32_bytes:
  "bigEndian32 (ucast (drop_bit 24 w AND 0xFF)) (ucast (drop_bit 16 w AND 0xFF))
     (ucast (drop_bit 8 w AND 0xFF)) (ucast (drop_bit 0 w AND 0xFF)) = w"
  unfolding bigEndian32_def mask8_u32
proof (rule bit_word_eqI)
  fix n :: nat
  assume "n < LENGTH(32)"
  then consider "n < 8" | "8 \<le> n" "n < 16" | "16 \<le> n" "n < 24" | "24 \<le> n" "n < 32"
    by fastforce
  then show "bit (push_bit 24 (ucast (ucast (drop_bit 24 w AND mask 8) :: u8)) OR
                  push_bit 16 (ucast (ucast (drop_bit 16 w AND mask 8) :: u8)) OR
                  push_bit 8 (ucast (ucast (drop_bit 8 w AND mask 8) :: u8)) OR
                  ucast (ucast (drop_bit 0 w AND mask 8) :: u8) :: u32) n = bit w n"
    by cases (auto simp: bit_simps)
qed

lemma bigEndian16_bytes:
  "bigEndian16 (ucast (drop_bit 8 w AND 0xFF)) (ucast (drop_bit 0 w AND 0xFF)) = w"
  unfolding bigEndian16_def mask8_u16
proof (rule bit_word_eqI)
  fix n :: nat
  assume "n < LENGTH(16)"
  then consider "n < 8" | "8 \<le> n" "n < 16"
    by fastforce
  then show "bit (push_bit 8 (ucast (ucast (drop_bit 8 w AND mask 8) :: u8)) OR
                  ucast (ucast (drop_bit 0 w AND mask 8) :: u8) :: u16) n = bit w n"
    by cases (auto simp: bit_simps)
qed

lemma ucast_low_byte_u32: "(ucast (w AND 0xFF :: u32) :: u8) = ucast w"
  unfolding mask8_u32 by (rule bit_word_eqI) (auto simp: bit_simps)

lemma byte_pair_or_add:
  "push_bit 8 (uint (msb :: u8)) OR uint (lsb :: u8) = 256 * uint msb + uint lsb"
proof -
  have "push_bit 8 (uint msb) + uint lsb = push_bit 8 (uint msb) OR uint lsb"
    by (rule disjunctive_add) (auto simp: bit_simps dest: bit_imp_le_length)
  then show ?thesis by (simp add: push_bit_eq_mult)
qed

lemma decode_sample_uint:
  "uint (decode_sample lsb msb) = (ADC_MAX_VALUE - (256 * uint msb + uint lsb)) mod 65536"
  unfolding decode_sample_def byte_pair_or_add by (subst uint_word_of_int) simp

lemma decode_sample_littleEndian16:
  "decode_sample lsb msb = word_of_int ADC_MAX_VALUE - littleEndian16 lsb msb"
proof -
  have "(word_of_int (push_bit 8 (uint msb) OR uint lsb) :: u16) =
          push_bit 8 (ucast msb) OR ucast lsb"
    by (rule bit_word_eqI) (auto simp: bit_simps)
  then show ?thesis
    by (simp add: decode_sample_def littleEndian16_def)
qed

lemma buildCommand_tx_buffer_nth:
  "tx_buffer (buildCommand s) ! 0 = 0x45"
  "tx_buffer (buildCommand s) ! 1 = 0x52"
  "tx_buffer (buildCommand s) ! 2 = ucast (drop_bit 24 (SH_PERIOD s) AND 0xFF)"
  "tx_buffer (buildCommand s) ! 3 = ucast (drop_bit 16 (SH_PERIOD s) AND 0xFF)"
  "tx_buffer (buildCommand s) ! 4 = ucast (drop_bit 8 (SH_PERIOD s) AND 0xFF)"
  "tx_buffer (buildCommand s) ! 5 = ucast (drop_bit 0 (SH_PERIOD s) AND 0xFF)"
  "tx_buffer (buildCommand s) ! 6 = ucast (drop_bit 24 (ICG_PERIOD s) AND 0xFF)"
  "tx_buffer (buildCommand s) ! 7 = ucast (drop_bit 16 (ICG_PERIOD s) AND 0xFF)"
  "tx_buffer (buildCommand s) ! 8 = ucast (drop_bit 8 (ICG_PERIOD s) AND 0xFF)"
  "tx_buffer (buildCommand s) ! 9 = ucast (drop_bit 0 (ICG_PERIOD s) AND 0xFF)"
  "tx_buffer (buildCommand s) ! 10 = 0x01"
  "tx_buffer (buildCommand s) ! 11 = ucast (drop_bit 8 NUM_INTEGRATIONS AND 0xFF)"
  "tx_buffer (buildCommand s) ! 12 = ucast (drop_bit 0 NUM_INTEGRATIONS AND 0xFF)"
  by (simp_all add: buildCommand_def PACKET_SIZE_def)

lemma buildCommand_tx_buffer_rest:
  "13 \<le> i \<Longrightarrow> i < PACKET_SIZE \<Longrightarrow> tx_buffer (buildCommand s) ! i = 0"
  by (simp add: buildCommand_def)

lemma buildCommand_tx_buffer_length:
  "length (tx_buffer (buildCommand s)) = PACKET_SIZE"
  by (simp add: buildCommand_def)

section \<open>Dark-spectrum correction\<close>

lemma applyDark_nth_uint:
  assumes "length (pixel_data s) = PIXEL_COUNT" and "i < PIXEL_COUNT" and "darkSpectrumSaved s"
  shows "uint (pixel_data (applyDarkSpectrumCorrection s) ! i) =
           (if uint (raw_pixel_data s ! i) > uint (dark_spectrum_data s ! i)
            then uint (raw_pixel_data s ! i) - uint (dark_spectrum_data s ! i)
            else 0)"
proof (cases "raw_pixel_data s ! i > dark_spectrum_data s ! i")
  case True
  then show ?thesis
    using applyDark_nth [OF assms] uint_sub_sample [OF True]
    by (simp add: word_less_def)
next
  case False
  then show ?thesis
    using applyDark_nth [OF assms]
    by (simp add: word_less_def)
qed

text \<open>
  C1.  With a dark spectrum stored, every corrected sample \<open>i < PIXEL_COUNT\<close> is the integer
  difference \<open>raw[i] - dark[i]\<close> when \<open>raw[i] > dark[i]\<close> and \<open>0\<close> otherwise, hence never
  negative; with none stored, the corrected spectrum is the raw spectrum.
\<close>

theorem applyDarkSpectrumCorrection_clamps:
  assumes "wf_state s" and "i < PIXEL_COUNT"
  shows "(darkSpectrumSaved s \<longrightarrow>
            uint (pixel_data (applyDarkSpectrumCorrection s) ! i) =
              (if uint (raw_pixel_data s ! i) > uint (dark_spectrum_data s ! i)
               then uint (raw_pixel_data s ! i) - uint (dark_spectrum_data s ! i)
               else 0)) \<and>
         0 \<le> uint (pixel_data (applyDarkSpectrumCorrection s) ! i) \<and>
         (\<not> darkSpectrumSaved s \<longrightarrow>
            pixel_data (applyDarkSpectrumCorrection s) = raw_pixel_data s)"
proof -
  have len: "length (pixel_data s) = PIXEL_COUNT"
    using assms(1) by (simp add: wf_state_def)
  have "darkSpectrumSaved s \<Longrightarrow>
      uint (pixel_data (applyDarkSpectrumCorrection s) ! i) =
        (if uint (raw_pixel_data s ! i) > uint (dark_spectrum_data s ! i)
         then uint (raw_pixel_data s ! i) - uint (dark_spectrum_data s ! i)
         else 0)"
    by (rule applyDark_nth_uint [OF len assms(2)])
  moreover have "\<not> darkSpectrumSaved s \<Longrightarrow>
      pixel_data (applyDarkSpectrumCorrection s) = raw_pixel_data s"
    by (simp add: applyDarkSpectrumCorrection_def)
  ultimately show ?thesis by simp
qed

theorem applyDarkSpectrumCorrection_clamps_witness:
  "wf_state (initial_state\<lparr>raw_pixel_data := replicate PIXEL_COUNT 300,
                            dark_spectrum_data := replicate PIXEL_COUNT 100,
                            darkSpectrumSaved := True\<rparr>) \<and>
   7 < PIXEL_COUNT \<and>
   uint (pixel_data (applyDarkSpectrumCorrection
          (initial_state\<lparr>raw_pixel_data := replicate PIXEL_COUNT 300,
                          dark_spectrum_data := replicate PIXEL_COUNT 100,
                          darkSpectrumSaved := True\<rparr>)) ! 7) = 200 \<and>
   wf_state (initial_state\<lparr>raw_pixel_data := replicate PIXEL_COUNT 300\<rparr>) \<and>
   \<not> darkSpectrumSaved (initial_state\<lparr>raw_pixel_data := replicate PIXEL_COUNT 300\<rparr>) \<and>
   pixel_data (applyDarkSpectrumCorrection
     (initial_state\<lparr>raw_pixel_data := replicate PIXEL_COUNT 300\<rparr>))
     = replicate PIXEL_COUNT 300"
proof -
  let ?s = "initial_state\<lparr>raw_pixel_data := replicate PIXEL_COUNT 300,
                          dark_spectrum_data := replicate PIXEL_COUNT 100,
                          darkSpectrumSaved := True\<rparr>"
  let ?t = "initial_state\<lparr>raw_pixel_data := replicate PIXEL_COUNT 300\<rparr>"
  have wf: "wf_state ?s" "wf_state ?t"
    by (simp_all add: wf_state_def initial_state_def)
  have i: "7 < PIXEL_COUNT"
    by (simp add: PIXEL_COUNT_def)
  have none: "\<not> darkSpectrumSaved ?t"
    by (simp add: initial_state_def)
  have "uint (pixel_data (applyDarkSpectrumCorrection ?s) ! 7) = 200"
    using applyDarkSpectrumCorrection_clamps [OF wf(1) i]
    by (simp add: PIXEL_COUNT_def)
  moreover have "pixel_data (applyDarkSpectrumCorrection ?t) = replicate PIXEL_COUNT 300"
    using applyDarkSpectrumCorrection_clamps [OF wf(2) i] none
    by simp
  ultimately show ?thesis
    using wf i none by (intro conjI)
qed

section \<open>Command-frame encoding\<close>

text \<open>
  C2.  \<open>buildCommand\<close> leaves a frame of \<open>PACKET_SIZE\<close> bytes: the magic \<open>0x45 0x52\<close>, then
  \<open>SH_PERIOD\<close> and \<open>ICG_PERIOD\<close> most significant byte first, the constant mode byte, the
  integration count most significant byte first, and zeros from byte 13 on.  Reading the
  header of the frame built from \<open>SH_PERIOD = 40\<close>, \<open>ICG_PERIOD = 32000\<close> as big-endian
  fields gives 40, 32000 and the integration count 1.
\<close>

theorem buildCommand_frame:
  "length (tx_buffer (buildCommand s)) = PACKET_SIZE \<and>
   tx_buffer (buildCommand s) ! 0 = 0x45 \<and>
   tx_buffer (buildCommand s) ! 1 = 0x52 \<and>
   tx_buffer (buildCommand s) ! 2 = ucast (drop_bit 24 (SH_PERIOD s)) \<and>
   tx_buffer (buildCommand s) ! 3 = ucast (drop_bit 16 (SH_PERIOD s)) \<and>
   tx_buffer (buildCommand s) ! 4 = ucast (drop_bit 8 (SH_PERIOD s)) \<and>
   tx_buffer (buildCommand s) ! 5 = ucast (SH_PERIOD s) \<and>
   tx_buffer (buildCommand s) ! 6 = ucast (drop_bit 24 (ICG_PERIOD s)) \<and>
   tx_buffer (buildCommand s) ! 7 = ucast (drop_bit 16 (ICG_PERIOD s)) \<and>
   tx_buffer (buildCommand s) ! 8 = ucast (drop_bit 8 (ICG_PERIOD s)) \<and>
   tx_buffer (buildCommand s) ! 9 = ucast (ICG_PERIOD s) \<and>
   tx_buffer (buildCommand s) ! 10 = 1 \<and>
   tx_buffer (buildCommand s) ! 11 = ucast (drop_bit 8 NUM_INTEGRATIONS) \<and>
   tx_buffer (buildCommand s) ! 12 = ucast NUM_INTEGRATIONS \<and>
   header_shPeriod (tx_buffer (buildCommand s)) = SH_PERIOD s \<and>
   header_icgPeriod (tx_buffer (buildCommand s)) = ICG_PERIOD s \<and>
   header_integrations (tx_buffer (buildCommand s)) = NUM_INTEGRATIONS \<and>
   (\<forall>i. 13 \<le> i \<and> i < PACKET_SIZE \<longrightarrow> tx_buffer (buildCommand s) ! i = 0) \<and>
   (SH_PERIOD s = 40 \<and> ICG_PERIOD s = 32000 \<longrightarrow>
      header_shPeriod (tx_buffer (buildCommand s)) = 40 \<and>
      header_icgPeriod (tx_buffer (buildCommand s)) = 32000 \<and>
      header_integrations (tx_buffer (buildCommand s)) = 1)"
proof -
  have sh: "header_shPeriod (tx_buffer (buildCommand s)) = SH_PERIOD s"
    by (simp only: header_shPeriod_def buildCommand_tx_buffer_nth bigEndian32_bytes)
  have icg: "header_icgPeriod (tx_buffer (buildCommand s)) = ICG_PERIOD s"
    by (simp only: header_icgPeriod_def buildCommand_tx_buffer_nth bigEndian32_bytes)
  have n: "header_integrations (tx_buffer (buildCommand s)) = NUM_INTEGRATIONS"
    by (simp only: header_integrations_def buildCommand_tx_buffer_nth bigEndian16_bytes)
  have bytes:
    "tx_buffer (buildCommand s) ! 2 = ucast (drop_bit 24 (SH_PERIOD s))"
    "tx_buffer (buildCommand s) ! 3 = ucast (drop_bit 16 (SH_PERIOD s))"
    "tx_buffer (buildCommand s) ! 4 = ucast (drop_bit 8 (SH_PERIOD s))"
    "tx_buffer (buildCommand s) ! 5 = ucast (SH_PERIOD s)"
    "tx_buffer (buildCommand s) ! 6 = ucast (drop_bit 24 (ICG_PERIOD s))"
    "tx_buffer (buildCommand s) ! 7 = ucast (drop_bit 16 (ICG_PERIOD s))"
    "tx_buffer (buildCommand s) ! 8 = ucast (drop_bit 8 (ICG_PERIOD s))"
    "tx_buffer (buildCommand s) ! 9 = ucast (ICG_PERIOD s)"
    by (simp_all only: buildCommand_tx_buffer_nth ucast_low_byte_u32 drop_bit_0 id_apply)
  have count:
    "tx_buffer (buildCommand s) ! 11 = ucast (drop_bit 8 NUM_INTEGRATIONS)"
    "tx_buffer (buildCommand s) ! 12 = ucast NUM_INTEGRATIONS"
    by (simp_all add: buildCommand_tx_buffer_nth NUM_INTEGRATIONS_def)
  have rest: "\<forall>i. 13 \<le> i \<and> i < PACKET_SIZE \<longrightarrow> tx_buffer (buildCommand s) ! i = 0"
    by (simp add: buildCommand_tx_buffer_rest)
  have one: "NUM_INTEGRATIONS = 1"
    by (simp add: NUM_INTEGRATIONS_def)
  have magic:
    "tx_buffer (buildCommand s) ! 0 = 0x45"
    "tx_buffer (buildCommand s) ! 1 = 0x52"
    "tx_buffer (buildCommand s) ! 10 = 1"
    by (simp_all only: buildCommand_tx_buffer_nth)
  have len: "length (tx_buffer (buildCommand s)) = PACKET_SIZE"
    by (rule buildCommand_tx_buffer_length)
  have round: "header_shPeriod (tx_buffer (buildCommand s)) = 40 \<and>
      header_icgPeriod (tx_buffer (buildCommand s)) = 32000 \<and>
      header_integrations (tx_buffer (buildCommand s)) = 1"
    if "SH_PERIOD s = 40 \<and> ICG_PERIOD s = 32000"
    using that sh icg n one by simp
  show ?thesis
    using len magic bytes count sh icg n rest round by blast
qed

theorem buildCommand_frame_witness:
  "header_shPeriod
     (tx_buffer (buildCommand (initial_state\<lparr>SH_PERIOD := 40, ICG_PERIOD := 32000\<rparr>))) = 40 \<and>
   header_icgPeriod
     (tx_buffer (buildCommand (initial_state\<lparr>SH_PERIOD := 40, ICG_PERIOD := 32000\<rparr>))) = 32000 \<and>
   header_integrations
     (tx_buffer (buildCommand (initial_state\<lparr>SH_PERIOD := 40, ICG_PERIOD := 32000\<rparr>))) = 1 \<and>
   tx_buffer (buildCommand (initial_state\<lparr>SH_PERIOD := 40, ICG_PERIOD := 32000\<rparr>)) ! 5 = 40 \<and>
   tx_buffer (buildCommand (initial_state\<lparr>SH_PERIOD := 40, ICG_PERIOD := 32000\<rparr>)) ! 8 = 0x7D \<and>
   (13 \<le> (7387 :: nat) \<and> 7387 < PACKET_SIZE) \<and>
   tx_buffer (buildCommand (initial_state\<lparr>SH_PERIOD := 40, ICG_PERIOD := 32000\<rparr>)) ! 7387 = 0"
proof -
  let ?s = "initial_state\<lparr>SH_PERIOD := 40, ICG_PERIOD := 32000\<rparr>"
  note frame = buildCommand_frame [of ?s]
  have par: "SH_PERIOD ?s = 40 \<and> ICG_PERIOD ?s = 32000"
    by simp
  have rng: "13 \<le> (7387 :: nat) \<and> 7387 < PACKET_SIZE"
    by (simp add: PACKET_SIZE_def)
  from frame have "\<forall>i. 13 \<le> i \<and> i < PACKET_SIZE \<longrightarrow> tx_buffer (buildCommand ?s) ! i = 0"
    by blast
  with rng have last: "tx_buffer (buildCommand ?s) ! 7387 = 0"
    by blast
  from frame par have hdr:
    "header_shPeriod (tx_buffer (buildCommand ?s)) = 40 \<and>
     header_icgPeriod (tx_buffer (buildCommand ?s)) = 32000 \<and>
     header_integrations (tx_buffer (buildCommand ?s)) = 1"
    by blast
  from frame have b5: "tx_buffer (buildCommand ?s) ! 5 = ucast (SH_PERIOD ?s)"
    by blast
  from frame have b8: "tx_buffer (buildCommand ?s) ! 8 = ucast (drop_bit 8 (ICG_PERIOD ?s))"
    by blast
  have "(ucast (SH_PERIOD ?s) :: u8) = 40" by simp
  moreover have "(ucast (drop_bit 8 (ICG_PERIOD ?s)) :: u8) = 0x7D" by simp
  ultimately show ?thesis
    using hdr last rng b5 b8 by simp
qed

section \<open>Response-frame decoding\<close>

lemma uint_byte_pair_bounds:
  "0 \<le> 256 * uint (msb :: u8) + uint (lsb :: u8) \<and> 256 * uint msb + uint lsb < 65536"
proof -
  have "uint msb < 256" "uint lsb < 256"
    using uint_lt2p [of msb] uint_lt2p [of lsb] by simp_all
  moreover have "0 \<le> uint msb" "0 \<le> uint lsb"
    by simp_all
  ultimately show ?thesis by linarith
qed

lemma uint_littleEndian16:
  "uint (littleEndian16 lsb msb) = 256 * uint msb + uint lsb"
proof -
  have "littleEndian16 lsb msb = (word_of_int (push_bit 8 (uint msb) OR uint lsb) :: u16)"
    unfolding littleEndian16_def by (rule bit_word_eqI) (auto simp: bit_simps)
  then have "uint (littleEndian16 lsb msb) = (256 * uint msb + uint lsb) mod 65536"
    unfolding byte_pair_or_add by (simp only: uint_word_of_int) simp
  then show ?thesis
    using uint_byte_pair_bounds [of msb lsb] by simp
qed

lemma uint_bigEndian16:
  "uint (bigEndian16 b0 b1) = 256 * uint b0 + uint b1"
proof -
  have "bigEndian16 b0 b1 = littleEndian16 b1 b0"
    by (simp add: bigEndian16_def littleEndian16_def)
  then show ?thesis by (simp add: uint_littleEndian16)
qed

text \<open>
  C3, as the code has it.  The claim takes the byte at offset \<open>2 * i\<close> as the high byte of
  the count.  \<open>processData_Raw\<close> names it \<open>lsb\<close> and shifts the byte at offset
  \<open>2 * i + 1\<close>: for every pixel \<open>i < PIXEL_COUNT\<close> the decoded sample is
  \<open>ADC_MAX_VALUE\<close> minus the count whose low byte comes first, in 16-bit arithmetic, and
  it is the integer difference whenever the count does not exceed \<open>ADC_MAX_VALUE\<close>.
\<close>

theorem processData_Raw_low_byte_first:
  assumes "wf_state s" and "i < PIXEL_COUNT"
  shows "raw_pixel_data (processData_Raw s) ! i =
           word_of_int ADC_MAX_VALUE -
             littleEndian16 (rx_buffer s ! (2 * i)) (rx_buffer s ! (2 * i + 1)) \<and>
         (uint (littleEndian16 (rx_buffer s ! (2 * i)) (rx_buffer s ! (2 * i + 1)))
            \<le> ADC_MAX_VALUE \<longrightarrow>
          uint (raw_pixel_data (processData_Raw s) ! i) =
            ADC_MAX_VALUE -
              uint (littleEndian16 (rx_buffer s ! (2 * i)) (rx_buffer s ! (2 * i + 1))))"
proof -
  let ?lsb = "rx_buffer s ! (2 * i)" and ?msb = "rx_buffer s ! (2 * i + 1)"
  have len: "length (raw_pixel_data s) = PIXEL_COUNT"
    using assms(1) by (simp add: wf_state_def)
  have dec: "raw_pixel_data (processData_Raw s) ! i = decode_sample ?lsb ?msb"
    using processData_Raw_nth [OF len assms(2)] by (simp add: mult.commute)
  have in_range: "uint (decode_sample ?lsb ?msb) = ADC_MAX_VALUE - uint (littleEndian16 ?lsb ?msb)"
    if "uint (littleEndian16 ?lsb ?msb) \<le> ADC_MAX_VALUE"
  proof -
    have "0 \<le> ADC_MAX_VALUE - (256 * uint ?msb + uint ?lsb)"
      using that by (simp add: uint_littleEndian16)
    moreover have "ADC_MAX_VALUE - (256 * uint ?msb + uint ?lsb) < 65536"
      using uint_byte_pair_bounds [of ?msb ?lsb] unfolding ADC_MAX_VALUE_def by linarith
    ultimately show ?thesis
      by (simp add: decode_sample_uint uint_littleEndian16)
  qed
  show ?thesis
    using in_range by (simp only: dec decode_sample_littleEndian16) simp
qed

theorem processData_Raw_low_byte_first_witness:
  "wf_state (initial_state\<lparr>rx_buffer := frame_first_byte_one\<rparr>) \<and>
   0 < PIXEL_COUNT \<and>
   uint (littleEndian16 (frame_first_byte_one ! (2 * 0)) (frame_first_byte_one ! (2 * 0 + 1)))
     \<le> ADC_MAX_VALUE \<and>
   uint (raw_pixel_data (processData_Raw (initial_state\<lparr>rx_buffer := frame_first_byte_one\<rparr>)) ! 0)
     = 4094"
proof -
  let ?s = "initial_state\<lparr>rx_buffer := frame_first_byte_one\<rparr>"
  have wf: "wf_state ?s"
    by (simp add: wf_state_def initial_state_def frame_first_byte_one_def)
  have i: "0 < PIXEL_COUNT"
    by (simp add: PIXEL_COUNT_def)
  have bytes: "frame_first_byte_one ! 0 = 1" "frame_first_byte_one ! Suc 0 = 0"
    by (simp_all add: frame_first_byte_one_def PACKET_SIZE_def)
  have v: "uint (littleEndian16 (frame_first_byte_one ! (2 * 0)) (frame_first_byte_one ! (2 * 0 + 1))) = 1"
    by (simp add: bytes uint_littleEndian16)
  have le: "uint (littleEndian16 (frame_first_byte_one ! (2 * 0)) (frame_first_byte_one ! (2 * 0 + 1)))
      \<le> ADC_MAX_VALUE"
    by (simp only: v) (simp add: ADC_MAX_VALUE_def)
  from processData_Raw_low_byte_first [OF wf i]
  have "uint (littleEndian16 (rx_buffer ?s ! (2 * 0)) (rx_buffer ?s ! (2 * 0 + 1)))
          \<le> ADC_MAX_VALUE \<longrightarrow>
        uint (raw_pixel_data (processData_Raw ?s) ! 0) =
          ADC_MAX_VALUE -
            uint (littleEndian16 (rx_buffer ?s ! (2 * 0)) (rx_buffer ?s ! (2 * 0 + 1)))"
    by (rule conjunct2)
  with le v have "uint (raw_pixel_data (processData_Raw ?s) ! 0) = 4094"
    by (simp add: ADC_MAX_VALUE_def)
  with wf i le show ?thesis
    by (intro conjI)
qed

text \<open>
  The claim C3 as stated fails on the frame whose first byte is 1 and second byte is 0:
  read high byte first the count is 256 and the sample would be 3839; the code stores 4094.
\<close>

theorem processData_Raw_high_byte_first_counterexample:
  "rx_buffer (initial_state\<lparr>rx_buffer := frame_first_byte_one\<rparr>) ! (2 * 0) = 1 \<and>
   rx_buffer (initial_state\<lparr>rx_buffer := frame_first_byte_one\<rparr>) ! (2 * 0 + 1) = 0 \<and>
   ADC_MAX_VALUE - uint (bigEndian16 1 0) = 3839 \<and>
   uint (raw_pixel_data (processData_Raw (initial_state\<lparr>rx_buffer := frame_first_byte_one\<rparr>)) ! 0)
     = 4094 \<and>
   uint (raw_pixel_data (processData_Raw (initial_state\<lparr>rx_buffer := frame_first_byte_one\<rparr>)) ! 0)
     \<noteq> ADC_MAX_VALUE -
         uint (bigEndian16
                (rx_buffer (initial_state\<lparr>rx_buffer := frame_first_byte_one\<rparr>) ! (2 * 0))
                (rx_buffer (initial_state\<lparr>rx_buffer := frame_first_byte_one\<rparr>) ! (2 * 0 + 1)))"
proof -
  let ?s = "initial_state\<lparr>rx_buffer := frame_first_byte_one\<rparr>"
  have len: "length (raw_pixel_data ?s) = PIXEL_COUNT"
    by (simp add: initial_state_def)
  have i: "0 < PIXEL_COUNT"
    by (simp add: PIXEL_COUNT_def)
  have bytes: "frame_first_byte_one ! 0 = 1" "frame_first_byte_one ! Suc 0 = 0"
    by (simp_all add: frame_first_byte_one_def PACKET_SIZE_def)
  have "raw_pixel_data (processData_Raw ?s) ! 0 = decode_sample 1 0"
    using processData_Raw_nth [OF len i] by (simp add: bytes)
  then have dec: "uint (raw_pixel_data (processData_Raw ?s) ! 0) = 4094"
    by (simp add: decode_sample_uint ADC_MAX_VALUE_def)
  show ?thesis
    by (simp add: dec bytes uint_bigEndian16 ADC_MAX_VALUE_def)
qed

text \<open>
  C8.  The store into \<open>raw_pixel_data\<close> wraps: with \<open>v\<close> the count assembled low byte
  first, the decoded sample is \<open>(ADC_MAX_VALUE - v) mod 2 ^ 16\<close>; for every
  \<open>v > ADC_MAX_VALUE\<close> (it is at most 65535) that is \<open>69631 - v\<close>, which is above
  \<open>ADC_MAX_VALUE\<close>.  No count is clamped to zero.
\<close>

theorem processData_Raw_wraps:
  assumes "wf_state s" and "i < PIXEL_COUNT"
  shows "256 * uint (rx_buffer s ! (2 * i + 1)) + uint (rx_buffer s ! (2 * i)) \<le> 65535 \<and>
         uint (raw_pixel_data (processData_Raw s) ! i) =
           (ADC_MAX_VALUE - (256 * uint (rx_buffer s ! (2 * i + 1)) + uint (rx_buffer s ! (2 * i))))
             mod 2 ^ 16 \<and>
         (ADC_MAX_VALUE < 256 * uint (rx_buffer s ! (2 * i + 1)) + uint (rx_buffer s ! (2 * i)) \<longrightarrow>
            uint (raw_pixel_data (processData_Raw s) ! i) =
              69631 - (256 * uint (rx_buffer s ! (2 * i + 1)) + uint (rx_buffer s ! (2 * i))) \<and>
            ADC_MAX_VALUE < uint (raw_pixel_data (processData_Raw s) ! i))"
proof -
  let ?v = "256 * uint (rx_buffer s ! (2 * i + 1)) + uint (rx_buffer s ! (2 * i))"
  have len: "length (raw_pixel_data s) = PIXEL_COUNT"
    using assms(1) by (simp add: wf_state_def)
  have bounds: "0 \<le> ?v" "?v < 65536"
    using uint_byte_pair_bounds [of "rx_buffer s ! (2 * i + 1)" "rx_buffer s ! (2 * i)"]
    by simp_all
  have dec: "uint (raw_pixel_data (processData_Raw s) ! i) = (ADC_MAX_VALUE - ?v) mod 65536"
    using processData_Raw_nth [OF len assms(2)]
    by (simp add: mult.commute decode_sample_uint)
  have wrap: "(ADC_MAX_VALUE - ?v) mod 65536 = 69631 - ?v" if "ADC_MAX_VALUE < ?v"
  proof -
    have "(ADC_MAX_VALUE - ?v) mod 65536 = (ADC_MAX_VALUE - ?v + 65536) mod 65536"
      by simp
    also have "\<dots> = ADC_MAX_VALUE - ?v + 65536"
    proof (rule mod_pos_pos_trivial)
      show "0 \<le> ADC_MAX_VALUE - ?v + 65536"
        using bounds by (simp add: ADC_MAX_VALUE_def)
      show "ADC_MAX_VALUE - ?v + 65536 < 65536"
        using that by simp
    qed
    finally show ?thesis by (simp add: ADC_MAX_VALUE_def)
  qed
  have above: "ADC_MAX_VALUE < 69631 - ?v"
    using bounds by (simp add: ADC_MAX_VALUE_def)
  show ?thesis
    using bounds dec wrap above by simp
qed

theorem processData_Raw_wraps_witness:
  "wf_state (initial_state\<lparr>rx_buffer := frame_count_4096\<rparr>) \<and>
   0 < PIXEL_COUNT \<and>
   ADC_MAX_VALUE < 256 * uint (frame_count_4096 ! (2 * 0 + 1)) + uint (frame_count_4096 ! (2 * 0)) \<and>
   uint (raw_pixel_data (processData_Raw (initial_state\<lparr>rx_buffer := frame_count_4096\<rparr>)) ! 0)
     = 65535"
proof -
  let ?s = "initial_state\<lparr>rx_buffer := frame_count_4096\<rparr>"
  have wf: "wf_state ?s"
    by (simp add: wf_state_def initial_state_def frame_count_4096_def)
  have i: "0 < PIXEL_COUNT"
    by (simp add: PIXEL_COUNT_def)
  have bytes: "frame_count_4096 ! 0 = 0" "frame_count_4096 ! Suc 0 = 0x10"
    by (simp_all add: frame_count_4096_def PACKET_SIZE_def)
  show ?thesis
    using wf i processData_Raw_wraps [OF wf i]
    by (simp add: bytes ADC_MAX_VALUE_def)
qed

section \<open>Parameter editing\<close>

lemma edit_SH_PERIOD_ge: "40 \<le> edit_SH_PERIOD step_time sh"
  by (simp add: edit_SH_PERIOD_def Let_def not_less)

lemma edit_ICG_PERIOD_ge: "32000 \<le> edit_ICG_PERIOD step_time icg"
  by (simp add: edit_ICG_PERIOD_def Let_def not_less)

lemma edit_ICG_PERIOD_at_minimum: "edit_ICG_PERIOD (- 100) 32000 = 32000"
  by (simp add: edit_ICG_PERIOD_def)

text \<open>
  C7, at the input where the code departs from it.  In edit mode on the SH item with
  \<open>SH_PERIOD = 40\<close>, one step down adds \<open>-100\<close> in unsigned 32-bit arithmetic: the sum
  is \<open>2 ^ 32 - 60\<close>, the test \<open>SH_PERIOD < 40\<close> is false, and the value is kept.
\<close>

theorem handleSettingsAcqInput_decrement_at_minimum:
  "SH_PERIOD
     (handleSettingsAcqInput (- 1) False
        (initial_state\<lparr>currentState := STATE_SETTINGS_ACQ, settingsEditMode := True,
                        settingsAcqSelection := 0, SH_PERIOD := 40\<rparr>)) = 4294967236"
  by (simp add: handleSettingsAcqInput_def edit_SH_PERIOD_def)

lemma handleSettingsAcqInput_minimums:
  assumes "40 \<le> SH_PERIOD s" and "32000 \<le> ICG_PERIOD s"
  shows "40 \<le> SH_PERIOD (handleSettingsAcqInput r c s)"
    and "32000 \<le> ICG_PERIOD (handleSettingsAcqInput r c s)"
  using assms edit_SH_PERIOD_ge edit_ICG_PERIOD_ge
  by (auto simp: handleSettingsAcqInput_def Let_def changeState_def)

lemma edit_SH_PERIOD_down:
  assumes "140 \<le> uint sh"
  shows "uint (edit_SH_PERIOD (- 100) sh) = uint sh - 100"
proof -
  have "(100 :: u32) \<le> sh"
    using assms by (simp add: word_le_def)
  then have v: "uint (sh - 100) = uint sh - 100"
    by (simp add: uint_minus_simple_alt)
  then have "\<not> sh - 100 < 40"
    using assms by (simp add: word_less_def)
  with v show ?thesis
    by (simp add: edit_SH_PERIOD_def)
qed

lemma edit_SH_PERIOD_steps:
  "k \<le> 49999 \<Longrightarrow> uint ((edit_SH_PERIOD (- 100) ^^ k) 5000000) = 5000000 - 100 * int k"
proof (induction k)
  case 0
  then show ?case by simp
next
  case (Suc k)
  then have ih: "uint ((edit_SH_PERIOD (- 100) ^^ k) 5000000) = 5000000 - 100 * int k"
    by simp
  have "140 \<le> uint ((edit_SH_PERIOD (- 100) ^^ k) 5000000)"
    using Suc.prems by (simp add: ih)
  from edit_SH_PERIOD_down [OF this] ih show ?case
    by simp
qed

lemma SH_PERIOD_steps_to_minimum:
  assumes "49999 \<le> k" and "k \<le> 49999"
  shows "(edit_SH_PERIOD (- 100) ^^ Suc k) 5000000 = 40"
proof -
  have "uint ((edit_SH_PERIOD (- 100) ^^ k) 5000000) = 5000000 - 100 * int k"
    using assms(2) by (rule edit_SH_PERIOD_steps)
  also have "\<dots> = uint (100 :: u32)"
    using assms by simp
  finally have "(edit_SH_PERIOD (- 100) ^^ k) 5000000 = 100"
    by (simp only: word_uint_eq_iff [symmetric])
  then show ?thesis
    by (simp add: edit_SH_PERIOD_def)
qed

text \<open>
  Fifty thousand steps down from the initial \<open>SH_PERIOD\<close> end at the minimum (the last
  of them is clamped from 0), so the settings screen does reach the value at which the
  next step down wraps.
\<close>

lemma SH_PERIOD_reaches_minimum:
  "(edit_SH_PERIOD (- 100) ^^ 50000) 5000000 = 40"
proof -
  have n: "Suc 49999 = 50000"
    by simp
  show ?thesis
    using SH_PERIOD_steps_to_minimum [OF order_refl order_refl]
    by (simp only: n)
qed

section \<open>What each routine leaves alone\<close>

lemma if_state:
  "currentState (if c then a else b) = (if c then currentState a else currentState b)"
  "dataReady (if c then a else b) = (if c then dataReady a else dataReady b)"
  "waitingForSingleScan (if c then a else b) =
     (if c then waitingForSingleScan a else waitingForSingleScan b)"
  "darkSpectrumSaved (if c then a else b) = (if c then darkSpectrumSaved a else darkSpectrumSaved b)"
  "dark_spectrum_data (if c then a else b) =
     (if c then dark_spectrum_data a else dark_spectrum_data b)"
  "raw_pixel_data (if c then a else b) = (if c then raw_pixel_data a else raw_pixel_data b)"
  "pixel_data (if c then a else b) = (if c then pixel_data a else pixel_data b)"
  "rx_buffer (if c then a else b) = (if c then rx_buffer a else rx_buffer b)"
  "tx_buffer (if c then a else b) = (if c then tx_buffer a else tx_buffer b)"
  "out (if c then a else b) = (if c then out a else out b)"
  by simp_all

lemma emit_fields [simp]:
  "currentState (emit es s) = currentState s"
  "redrawScreen (emit es s) = redrawScreen s"
  "SH_PERIOD (emit es s) = SH_PERIOD s"
  "ICG_PERIOD (emit es s) = ICG_PERIOD s"
  "tx_buffer (emit es s) = tx_buffer s"
  "rx_buffer (emit es s) = rx_buffer s"
  "pixel_data (emit es s) = pixel_data s"
  "raw_pixel_data (emit es s) = raw_pixel_data s"
  "dark_spectrum_data (emit es s) = dark_spectrum_data s"
  "darkSpectrumSaved (emit es s) = darkSpectrumSaved s"
  "dataReady (emit es s) = dataReady s"
  "waitingForSingleScan (emit es s) = waitingForSingleScan s"
  "mainMenuSelection (emit es s) = mainMenuSelection s"
  "out (emit es s) = out s @ es"
  by (simp_all add: emit_def)

lemma buildCommand_fields [simp]:
  "currentState (buildCommand s) = currentState s"
  "redrawScreen (buildCommand s) = redrawScreen s"
  "SH_PERIOD (buildCommand s) = SH_PERIOD s"
  "ICG_PERIOD (buildCommand s) = ICG_PERIOD s"
  "rx_buffer (buildCommand s) = rx_buffer s"
  "pixel_data (buildCommand s) = pixel_data s"
  "raw_pixel_data (buildCommand s) = raw_pixel_data s"
  "dark_spectrum_data (buildCommand s) = dark_spectrum_data s"
  "darkSpectrumSaved (buildCommand s) = darkSpectrumSaved s"
  "dataReady (buildCommand s) = dataReady s"
  "waitingForSingleScan (buildCommand s) = waitingForSingleScan s"
  "mainMenuSelection (buildCommand s) = mainMenuSelection s"
  "out (buildCommand s) = out s"
  by (simp_all add: buildCommand_def)

lemma requestFirstScan_fields [simp]:
  "currentState (requestFirstScan s) = currentState s"
  "redrawScreen (requestFirstScan s) = redrawScreen s"
  "tx_buffer (requestFirstScan s) = tx_buffer s"
  "rx_buffer (requestFirstScan s) = rx_buffer s"
  "pixel_data (requestFirstScan s) = pixel_data s"
  "raw_pixel_data (requestFirstScan s) = raw_pixel_data s"
  "dark_spectrum_data (requestFirstScan s) = dark_spectrum_data s"
  "darkSpectrumSaved (requestFirstScan s) = darkSpectrumSaved s"
  "dataReady (requestFirstScan s) = dataReady s"
  "waitingForSingleScan (requestFirstScan s) = waitingForSingleScan s"
  "out (requestFirstScan s) =
     out s @ [SerialPrintln ''Enviando primeiro comando (kick-start)...'',
              SpiWriteBytes (tx_buffer s)]"
  by (simp_all add: requestFirstScan_def)

lemma saveDarkSpectrum_fields [simp]:
  "currentState (saveDarkSpectrum s) = currentState s"
  "tx_buffer (saveDarkSpectrum s) = tx_buffer s"
  "rx_buffer (saveDarkSpectrum s) = rx_buffer s"
  "pixel_data (saveDarkSpectrum s) = pixel_data s"
  "raw_pixel_data (saveDarkSpectrum s) = raw_pixel_data s"
  "dark_spectrum_data (saveDarkSpectrum s) = raw_pixel_data s"
  "darkSpectrumSaved (saveDarkSpectrum s) = True"
  "dataReady (saveDarkSpectrum s) = dataReady s"
  "waitingForSingleScan (saveDarkSpectrum s) = waitingForSingleScan s"
  "out (saveDarkSpectrum s) =
     out s @ [SerialPrintln ''Dark Spectrum Salvo!'', TftMessage ''Dark Spectrum Salvo!'']"
  by (simp_all add: saveDarkSpectrum_def)

lemma changeState_fields [simp]:
  "currentState (changeState st s) = st"
  "redrawScreen (changeState st s) = True"
  "rx_buffer (changeState st s) = rx_buffer s"
  "pixel_data (changeState st s) = pixel_data s"
  "raw_pixel_data (changeState st s) = raw_pixel_data s"
  "dark_spectrum_data (changeState st s) = dark_spectrum_data s"
  "darkSpectrumSaved (changeState st s) = darkSpectrumSaved s"
  "dataReady (changeState st s) = dataReady s"
  by (cases st; simp add: changeState_def)+

lemma changeState_tx_buffer:
  "tx_buffer (changeState st s) =
     (if is_acquisition st then tx_buffer (buildCommand s) else tx_buffer s)"
  by (cases st) (simp_all add: changeState_def is_acquisition_def buildCommand_def)

lemma changeState_waitingForSingleScan:
  "waitingForSingleScan (changeState st s) =
     (if st = STATE_ACQUISITION_SINGLE \<or> st = STATE_ACQUISITION_DARK then True
      else waitingForSingleScan s)"
  by (cases st) (simp_all add: changeState_def)

lemma changeState_out:
  "out (changeState STATE_MAIN_MENU s) = out s"
  "out (changeState STATE_SETTINGS s) = out s"
  "out (changeState STATE_SETTINGS_ACQ s) = out s"
  "out (changeState STATE_SETTINGS_AXIS s) = out s"
  "out (changeState STATE_ACQUISITION_CONT s) =
     out s @ [SerialPrintln ''Entrando no modo de Aquisicao (Continua)...'',
              SerialPrintln ''Enviando primeiro comando (kick-start)...'',
              SpiWriteBytes (tx_buffer (buildCommand s))]"
  "out (changeState STATE_ACQUISITION_SINGLE s) =
     out s @ [SerialPrintln ''Entrando no modo de Aquisicao (Unica)...'',
              SerialPrintln ''Enviando primeiro comando (kick-start)...'',
              SpiWriteBytes (tx_buffer (buildCommand s)),
              TftMessage ''Aguardando 1a aquisicao...'']"
  "out (changeState STATE_ACQUISITION_DARK s) =
     out s @ [SerialPrintln ''Entrando no modo Dark Spectrum...'',
              SerialPrintln ''Enviando primeiro comando (kick-start)...'',
              SpiWriteBytes (tx_buffer (buildCommand s)),
              TftMessage ''Aguardando aquisicao (Dark)...'']"
  by (simp_all add: changeState_def buildCommand_def)

lemma handleMainMenuInput_fields [simp]:
  "dataReady (handleMainMenuInput r c s) = dataReady s"
  "darkSpectrumSaved (handleMainMenuInput r c s) = darkSpectrumSaved s"
  "dark_spectrum_data (handleMainMenuInput r c s) = dark_spectrum_data s"
  "raw_pixel_data (handleMainMenuInput r c s) = raw_pixel_data s"
  "pixel_data (handleMainMenuInput r c s) = pixel_data s"
  "rx_buffer (handleMainMenuInput r c s) = rx_buffer s"
  by (simp_all add: handleMainMenuInput_def Let_def if_state cong: if_cong split del: if_split)

lemma handleSettingsInput_fields [simp]:
  "dataReady (handleSettingsInput r c s) = dataReady s"
  "darkSpectrumSaved (handleSettingsInput r c s) = darkSpectrumSaved s"
  "dark_spectrum_data (handleSettingsInput r c s) = dark_spectrum_data s"
  "raw_pixel_data (handleSettingsInput r c s) = raw_pixel_data s"
  "pixel_data (handleSettingsInput r c s) = pixel_data s"
  "rx_buffer (handleSettingsInput r c s) = rx_buffer s"
  "waitingForSingleScan (handleSettingsInput r c s) = waitingForSingleScan s"
  "tx_buffer (handleSettingsInput r c s) = tx_buffer s"
  "out (handleSettingsInput r c s) = out s"
  by (simp_all add: handleSettingsInput_def Let_def if_state changeState_out
        changeState_tx_buffer changeState_waitingForSingleScan is_acquisition_def
        cong: if_cong split del: if_split)

lemma handleSettingsAcqInput_fields [simp]:
  "dataReady (handleSettingsAcqInput r c s) = dataReady s"
  "darkSpectrumSaved (handleSettingsAcqInput r c s) = darkSpectrumSaved s"
  "dark_spectrum_data (handleSettingsAcqInput r c s) = dark_spectrum_data s"
  "raw_pixel_data (handleSettingsAcqInput r c s) = raw_pixel_data s"
  "pixel_data (handleSettingsAcqInput r c s) = pixel_data s"
  "rx_buffer (handleSettingsAcqInput r c s) = rx_buffer s"
  "waitingForSingleScan (handleSettingsAcqInput r c s) = waitingForSingleScan s"
  "tx_buffer (handleSettingsAcqInput r c s) = tx_buffer s"
  "out (handleSettingsAcqInput r c s) = out s"
  by (simp_all add: handleSettingsAcqInput_def Let_def if_state changeState_out
        changeState_tx_buffer changeState_waitingForSingleScan is_acquisition_def
        cong: if_cong split del: if_split)

lemma handleSettingsAxisInput_fields [simp]:
  "dataReady (handleSettingsAxisInput r c s) = dataReady s"
  "darkSpectrumSaved (handleSettingsAxisInput r c s) = darkSpectrumSaved s"
  "dark_spectrum_data (handleSettingsAxisInput r c s) = dark_spectrum_data s"
  "raw_pixel_data (handleSettingsAxisInput r c s) = raw_pixel_data s"
  "pixel_data (handleSettingsAxisInput r c s) = pixel_data s"
  "rx_buffer (handleSettingsAxisInput r c s) = rx_buffer s"
  "waitingForSingleScan (handleSettingsAxisInput r c s) = waitingForSingleScan s"
  "tx_buffer (handleSettingsAxisInput r c s) = tx_buffer s"
  "out (handleSettingsAxisInput r c s) = out s"
  by (simp_all add: handleSettingsAxisInput_def Let_def if_state changeState_out
        changeState_tx_buffer changeState_waitingForSingleScan is_acquisition_def
        cong: if_cong split del: if_split)

lemma handleAcquisitionInput_fields [simp]:
  "dataReady (handleAcquisitionInput c s) = dataReady s"
  "darkSpectrumSaved (handleAcquisitionInput c s) = darkSpectrumSaved s"
  "dark_spectrum_data (handleAcquisitionInput c s) = dark_spectrum_data s"
  "raw_pixel_data (handleAcquisitionInput c s) = raw_pixel_data s"
  "pixel_data (handleAcquisitionInput c s) = pixel_data s"
  "rx_buffer (handleAcquisitionInput c s) = rx_buffer s"
  "waitingForSingleScan (handleAcquisitionInput c s) = waitingForSingleScan s"
  "tx_buffer (handleAcquisitionInput c s) = tx_buffer s"
  "out (handleAcquisitionInput c s) = out s"
  by (simp_all add: handleAcquisitionInput_def changeState_out changeState_tx_buffer
        changeState_waitingForSingleScan is_acquisition_def)

text \<open>Where each menu handler can leave \<open>currentState\<close>.\<close>

lemma handleSettingsInput_currentState:
  "currentState (handleSettingsInput r c s) = currentState s \<or>
   \<not> is_acquisition (currentState (handleSettingsInput r c s))"
  by (simp add: handleSettingsInput_def Let_def if_state is_acquisition_def
        cong: if_cong split del: if_split) simp

lemma handleSettingsAcqInput_currentState:
  "currentState (handleSettingsAcqInput r c s) = currentState s \<or>
   \<not> is_acquisition (currentState (handleSettingsAcqInput r c s))"
  by (simp add: handleSettingsAcqInput_def Let_def if_state is_acquisition_def
        cong: if_cong split del: if_split) simp

lemma handleSettingsAxisInput_currentState:
  "currentState (handleSettingsAxisInput r c s) = currentState s \<or>
   \<not> is_acquisition (currentState (handleSettingsAxisInput r c s))"
  by (simp add: handleSettingsAxisInput_def Let_def if_state is_acquisition_def
        cong: if_cong split del: if_split) simp

lemma loop_client_fields [simp]:
  "currentState (loop_client inp s) = currentState s"
  "SH_PERIOD (loop_client inp s) = SH_PERIOD s"
  "ICG_PERIOD (loop_client inp s) = ICG_PERIOD s"
  "tx_buffer (loop_client inp s) = tx_buffer s"
  "rx_buffer (loop_client inp s) = rx_buffer s"
  "pixel_data (loop_client inp s) = pixel_data s"
  "raw_pixel_data (loop_client inp s) = raw_pixel_data s"
  "dark_spectrum_data (loop_client inp s) = dark_spectrum_data s"
  "darkSpectrumSaved (loop_client inp s) = darkSpectrumSaved s"
  "dataReady (loop_client inp s) = dataReady s"
  "waitingForSingleScan (loop_client inp s) = waitingForSingleScan s"
  "mainMenuSelection (loop_client inp s) = mainMenuSelection s"
  "out (loop_client inp s) = out s"
  by (simp_all add: loop_client_def)

lemma loop_navigation_fields [simp]:
  "dataReady (loop_navigation inp s) = dataReady s"
  "raw_pixel_data (loop_navigation inp s) = raw_pixel_data s"
  "pixel_data (loop_navigation inp s) = pixel_data s"
  "rx_buffer (loop_navigation inp s) = rx_buffer s"
  by (cases "currentState s"; simp add: loop_navigation_def Let_def)+






text \<open>
  The switch reaches an acquisition state from another state only through the main menu,
  and \<open>changeState\<close> then arms the latch for the single and dark modes.
\<close>

lemma loop_navigation_enters:
  "is_acquisition (currentState (loop_navigation inp s)) \<Longrightarrow>
   currentState (loop_navigation inp s) = currentState s \<or> currentState s = STATE_MAIN_MENU"
  using handleSettingsInput_currentState [of "in_rotation inp" "in_clicked inp" s]
        handleSettingsAcqInput_currentState [of "in_rotation inp" "in_clicked inp" s]
        handleSettingsAxisInput_currentState [of "in_rotation inp" "in_clicked inp" s]
  by (cases "currentState s")
     (auto simp: loop_navigation_def Let_def handleAcquisitionInput_def is_acquisition_def
        split: if_splits)

lemma handleMainMenuInput_latch:
  "currentState s = STATE_MAIN_MENU \<Longrightarrow>
   currentState (handleMainMenuInput r c s) = STATE_ACQUISITION_SINGLE \<or>
   currentState (handleMainMenuInput r c s) = STATE_ACQUISITION_DARK \<Longrightarrow>
   waitingForSingleScan (handleMainMenuInput r c s)"
  by (cases "r = 0"; cases c)
     (auto simp: handleMainMenuInput_def Let_def changeState_waitingForSingleScan
        split: if_splits)

lemma loop_navigation_latch:
  assumes "currentState (loop_navigation inp s) = STATE_ACQUISITION_SINGLE \<or>
           currentState (loop_navigation inp s) = STATE_ACQUISITION_DARK"
    and "is_acquisition (currentState s) \<longrightarrow> waitingForSingleScan s"
  shows "waitingForSingleScan (loop_navigation inp s)"
proof (cases "currentState s = STATE_MAIN_MENU")
  case True
  then show ?thesis
    using assms(1) handleMainMenuInput_latch [of s "in_rotation inp" "in_clicked inp"]
    by (simp add: loop_navigation_def)
next
  case False
  have acq: "is_acquisition (currentState (loop_navigation inp s))"
    using assms(1) by (auto simp: is_acquisition_def)
  with False have same: "currentState (loop_navigation inp s) = currentState s"
    using loop_navigation_enters [OF acq] by simp
  with acq assms(2) have w: "waitingForSingleScan s" by simp
  from same assms(1) w show ?thesis
    by (auto simp: loop_navigation_def Let_def changeState_waitingForSingleScan
          split: if_splits)
qed

section \<open>The scan pipeline\<close>

lemma readDataAndRequestNext_fields [simp]:
  "currentState (readDataAndRequestNext rx s) = currentState s"
  "redrawScreen (readDataAndRequestNext rx s) = redrawScreen s"
  "tx_buffer (readDataAndRequestNext rx s) = tx_buffer s"
  "rx_buffer (readDataAndRequestNext rx s) = rx"
  "pixel_data (readDataAndRequestNext rx s) = pixel_data s"
  "raw_pixel_data (readDataAndRequestNext rx s) = raw_pixel_data s"
  "dark_spectrum_data (readDataAndRequestNext rx s) = dark_spectrum_data s"
  "darkSpectrumSaved (readDataAndRequestNext rx s) = darkSpectrumSaved s"
  "dataReady (readDataAndRequestNext rx s) = dataReady s"
  "waitingForSingleScan (readDataAndRequestNext rx s) = waitingForSingleScan s"
  "out (readDataAndRequestNext rx s) = out s @ [SpiTransferBytes (tx_buffer s)]"
  by (simp_all add: readDataAndRequestNext_def)

lemma processData_Raw_fields [simp]:
  "currentState (processData_Raw s) = currentState s"
  "redrawScreen (processData_Raw s) = redrawScreen s"
  "tx_buffer (processData_Raw s) = tx_buffer s"
  "rx_buffer (processData_Raw s) = rx_buffer s"
  "pixel_data (processData_Raw s) = pixel_data s"
  "dark_spectrum_data (processData_Raw s) = dark_spectrum_data s"
  "darkSpectrumSaved (processData_Raw s) = darkSpectrumSaved s"
  "dataReady (processData_Raw s) = dataReady s"
  "waitingForSingleScan (processData_Raw s) = waitingForSingleScan s"
  "out (processData_Raw s) = out s"
  "length (raw_pixel_data (processData_Raw s)) = length (raw_pixel_data s)"
  by (simp_all add: processData_Raw_def processData_Raw_loop_length)

lemma applyDarkSpectrumCorrection_fields [simp]:
  "currentState (applyDarkSpectrumCorrection s) = currentState s"
  "redrawScreen (applyDarkSpectrumCorrection s) = redrawScreen s"
  "tx_buffer (applyDarkSpectrumCorrection s) = tx_buffer s"
  "rx_buffer (applyDarkSpectrumCorrection s) = rx_buffer s"
  "raw_pixel_data (applyDarkSpectrumCorrection s) = raw_pixel_data s"
  "dark_spectrum_data (applyDarkSpectrumCorrection s) = dark_spectrum_data s"
  "darkSpectrumSaved (applyDarkSpectrumCorrection s) = darkSpectrumSaved s"
  "dataReady (applyDarkSpectrumCorrection s) = dataReady s"
  "waitingForSingleScan (applyDarkSpectrumCorrection s) = waitingForSingleScan s"
  "out (applyDarkSpectrumCorrection s) = out s"
  by (simp_all add: applyDarkSpectrumCorrection_def)


lemma sendDataViaWiFi_fields [simp]:
  "currentState (sendDataViaWiFi c s) = currentState s"
  "redrawScreen (sendDataViaWiFi c s) = redrawScreen s"
  "tx_buffer (sendDataViaWiFi c s) = tx_buffer s"
  "rx_buffer (sendDataViaWiFi c s) = rx_buffer s"
  "pixel_data (sendDataViaWiFi c s) = pixel_data s"
  "raw_pixel_data (sendDataViaWiFi c s) = raw_pixel_data s"
  "dark_spectrum_data (sendDataViaWiFi c s) = dark_spectrum_data s"
  "darkSpectrumSaved (sendDataViaWiFi c s) = darkSpectrumSaved s"
  "dataReady (sendDataViaWiFi c s) = dataReady s"
  "waitingForSingleScan (sendDataViaWiFi c s) = waitingForSingleScan s"
  by (simp_all add: sendDataViaWiFi_def)

lemma sendDataViaWiFi_out:
  "out (sendDataViaWiFi c s) =
     out s @ (if c
              then [SerialPrintln ''Enviando dados via Wi-Fi (AP)...'',
                    ClientWriteBytes PACKET_START_MARKER,
                    ClientWriteWords (pixel_data s),
                    SerialPrintln ''Envio Wi-Fi (AP) completo.'']
              else [SerialPrintln ''Nenhum cliente conectado, envio ignorado.''])"
  by (simp add: sendDataViaWiFi_def)

lemma drawGraph_GFX_fields [simp]:
  "currentState (drawGraph_GFX m s) = currentState s"
  "redrawScreen (drawGraph_GFX m s) = redrawScreen s"
  "tx_buffer (drawGraph_GFX m s) = tx_buffer s"
  "rx_buffer (drawGraph_GFX m s) = rx_buffer s"
  "pixel_data (drawGraph_GFX m s) = pixel_data s"
  "raw_pixel_data (drawGraph_GFX m s) = raw_pixel_data s"
  "dark_spectrum_data (drawGraph_GFX m s) = dark_spectrum_data s"
  "darkSpectrumSaved (drawGraph_GFX m s) = darkSpectrumSaved s"
  "dataReady (drawGraph_GFX m s) = dataReady s"
  "waitingForSingleScan (drawGraph_GFX m s) = waitingForSingleScan s"
  "out (drawGraph_GFX m s) = out s @ [DrawGraph m (pixel_data s)]"
  by (simp_all add: drawGraph_GFX_def)

text \<open>The three acquisition branches of \<open>loop\<close>, each at the iteration that takes a frame.\<close>

lemma loop_acquisition_cont:
  "currentState s = STATE_ACQUISITION_CONT \<Longrightarrow> dataReady s \<Longrightarrow>
   loop_acquisition inp s =
     drawGraph_GFX STATE_ACQUISITION_CONT
       (sendDataViaWiFi (in_client_connected inp)
         (applyDarkSpectrumCorrection
           (processData_Raw (readDataAndRequestNext (in_spi_rx inp) (s\<lparr>dataReady := False\<rparr>)))))"
  by (simp add: loop_acquisition_def)

lemma loop_acquisition_single:
  "currentState s = STATE_ACQUISITION_SINGLE \<Longrightarrow> dataReady s \<Longrightarrow> waitingForSingleScan s \<Longrightarrow>
   loop_acquisition inp s =
     drawGraph_GFX STATE_ACQUISITION_SINGLE
       (sendDataViaWiFi (in_client_connected inp)
         (applyDarkSpectrumCorrection
           (processData_Raw
             (readDataAndRequestNext (in_spi_rx inp)
               (s\<lparr>dataReady := False, waitingForSingleScan := False\<rparr>)))))"
  by (simp add: loop_acquisition_def Let_def)

lemma loop_acquisition_dark:
  "currentState s = STATE_ACQUISITION_DARK \<Longrightarrow> dataReady s \<Longrightarrow> waitingForSingleScan s \<Longrightarrow>
   loop_acquisition inp s =
     drawGraph_GFX STATE_ACQUISITION_DARK
       ((processData_Raw
           (readDataAndRequestNext (in_spi_rx inp)
             (s\<lparr>dataReady := False, waitingForSingleScan := False\<rparr>)))
        \<lparr>pixel_data :=
           raw_pixel_data
             (processData_Raw
               (readDataAndRequestNext (in_spi_rx inp)
                 (s\<lparr>dataReady := False, waitingForSingleScan := False\<rparr>)))\<rparr>)"
  by (simp add: loop_acquisition_def Let_def)

lemma loop_acquisition_fields [simp]:
  "currentState (loop_acquisition inp s) = currentState s"
  "darkSpectrumSaved (loop_acquisition inp s) = darkSpectrumSaved s"
  "dark_spectrum_data (loop_acquisition inp s) = dark_spectrum_data s"
  "tx_buffer (loop_acquisition inp s) = tx_buffer s"
  by (simp_all add: loop_acquisition_def Let_def if_state cong: if_cong split del: if_split)

lemma loop_acquisition_idle:
  "\<not> is_acquisition (currentState s) \<Longrightarrow> loop_acquisition inp s = s"
  by (simp add: loop_acquisition_def is_acquisition_def)

lemma drawCurrentScreen_menu:
  "\<not> is_acquisition (currentState s) \<Longrightarrow>
   drawCurrentScreen s = emit [DrawScreen (currentState s)] s"
  by (cases "currentState s") (simp_all add: drawCurrentScreen_def is_acquisition_def)

lemma loop_redraw_eq:
  "loop_redraw s =
     (if redrawScreen s \<and> \<not> is_acquisition (currentState s)
      then (emit [DrawScreen (currentState s)] s)\<lparr>redrawScreen := False\<rparr> else s)"
  by (auto simp: loop_redraw_def is_acquisition_def drawCurrentScreen_menu)

lemma loop_redraw_fields [simp]:
  "currentState (loop_redraw s) = currentState s"
  "tx_buffer (loop_redraw s) = tx_buffer s"
  "rx_buffer (loop_redraw s) = rx_buffer s"
  "pixel_data (loop_redraw s) = pixel_data s"
  "raw_pixel_data (loop_redraw s) = raw_pixel_data s"
  "dark_spectrum_data (loop_redraw s) = dark_spectrum_data s"
  "darkSpectrumSaved (loop_redraw s) = darkSpectrumSaved s"
  "dataReady (loop_redraw s) = dataReady s"
  "waitingForSingleScan (loop_redraw s) = waitingForSingleScan s"
  by (simp_all add: loop_redraw_eq)

lemma loop_redraw_acquisition:
  "is_acquisition (currentState s) \<Longrightarrow> loop_redraw s = s"
  by (simp add: loop_redraw_eq)

section \<open>Array lengths along a run\<close>


lemma wf_state_flags [simp]:
  "wf_state (s\<lparr>dataReady := d\<rparr>) = wf_state s"
  "wf_state (s\<lparr>waitingForSingleScan := w\<rparr>) = wf_state s"
  "wf_state (s\<lparr>redrawScreen := r\<rparr>) = wf_state s"
  "wf_state (emit es s) = wf_state s"
  "wf_state (drawGraph_GFX m s) = wf_state s"
  "wf_state (sendDataViaWiFi c s) = wf_state s"
  "wf_state (requestFirstScan s) = wf_state s"
  by (simp_all add: wf_state_def)









section \<open>The iteration that takes a frame, seen from \<open>loop\<close>\<close>

lemma loop_scan_cont:
  assumes "currentState (loop inp s) = STATE_ACQUISITION_CONT" and "dataReady s"
  shows "loop inp s =
     drawGraph_GFX STATE_ACQUISITION_CONT
       (sendDataViaWiFi (in_client_connected inp)
         (applyDarkSpectrumCorrection
           (processData_Raw
             (readDataAndRequestNext (in_spi_rx inp)
               ((loop_navigation inp (loop_client inp s))\<lparr>dataReady := False\<rparr>)))))"
proof -
  let ?n = "loop_navigation inp (loop_client inp s)"
  have st: "currentState ?n = STATE_ACQUISITION_CONT"
    using assms(1) by (simp add: loop_def)
  have "dataReady ?n" using assms(2) by simp
  with st show ?thesis
    by (simp add: loop_def loop_acquisition_cont loop_redraw_acquisition is_acquisition_def)
qed

lemma loop_latch:
  assumes "currentState (loop inp s) = STATE_ACQUISITION_SINGLE \<or>
           currentState (loop inp s) = STATE_ACQUISITION_DARK"
    and "is_acquisition (currentState s) \<longrightarrow> waitingForSingleScan s"
  shows "waitingForSingleScan (loop_navigation inp (loop_client inp s))"
  using assms loop_navigation_latch [of inp "loop_client inp s"]
  by (simp add: loop_def)

lemma loop_scan_single:
  assumes "currentState (loop inp s) = STATE_ACQUISITION_SINGLE" and "dataReady s"
    and "is_acquisition (currentState s) \<longrightarrow> waitingForSingleScan s"
  shows "loop inp s =
     drawGraph_GFX STATE_ACQUISITION_SINGLE
       (sendDataViaWiFi (in_client_connected inp)
         (applyDarkSpectrumCorrection
           (processData_Raw
             (readDataAndRequestNext (in_spi_rx inp)
               ((loop_navigation inp (loop_client inp s))
                \<lparr>dataReady := False, waitingForSingleScan := False\<rparr>)))))"
proof -
  let ?n = "loop_navigation inp (loop_client inp s)"
  have st: "currentState ?n = STATE_ACQUISITION_SINGLE"
    using assms(1) by (simp add: loop_def)
  have "dataReady ?n" using assms(2) by simp
  moreover have "waitingForSingleScan ?n"
    using loop_latch [of inp s] assms(1,3) by simp
  ultimately show ?thesis
    using st
    by (simp add: loop_def loop_acquisition_single loop_redraw_acquisition is_acquisition_def)
qed

lemma loop_scan_dark:
  assumes "currentState (loop inp s) = STATE_ACQUISITION_DARK" and "dataReady s"
    and "is_acquisition (currentState s) \<longrightarrow> waitingForSingleScan s"
  shows "loop inp s =
     drawGraph_GFX STATE_ACQUISITION_DARK
       ((processData_Raw
           (readDataAndRequestNext (in_spi_rx inp)
             ((loop_navigation inp (loop_client inp s))
              \<lparr>dataReady := False, waitingForSingleScan := False\<rparr>)))
        \<lparr>pixel_data :=
           raw_pixel_data
             (processData_Raw
               (readDataAndRequestNext (in_spi_rx inp)
                 ((loop_navigation inp (loop_client inp s))
                  \<lparr>dataReady := False, waitingForSingleScan := False\<rparr>)))\<rparr>)"
proof -
  let ?n = "loop_navigation inp (loop_client inp s)"
  have st: "currentState ?n = STATE_ACQUISITION_DARK"
    using assms(1) by (simp add: loop_def)
  have "dataReady ?n" using assms(2) by simp
  moreover have "waitingForSingleScan ?n"
    using loop_latch [of inp s] assms(1,3) by simp
  ultimately show ?thesis
    using st
    by (simp add: loop_def loop_acquisition_dark loop_redraw_acquisition is_acquisition_def)
qed







section \<open>Leaving the single-scan mode\<close>

lemma single_exit_step:
  assumes "currentState s = STATE_ACQUISITION_SINGLE" and "in_rotation inp \<noteq> 0"
  shows "currentState (loop inp s) = STATE_MAIN_MENU"
    and "dataReady (loop inp s) = dataReady s"
    and "waitingForSingleScan (loop inp s) = waitingForSingleScan s"
    and "pixel_data (loop inp s) = pixel_data s"
    and "out (loop inp s) =
           out s @ [SerialPrintln ''Saindo do modo unico (rotacao)...'',
                    DrawScreen STATE_MAIN_MENU]"
proof -
  let ?n = "loop_navigation inp (loop_client inp s)"
  have n: "?n = changeState STATE_MAIN_MENU
                  (emit [SerialPrintln ''Saindo do modo unico (rotacao)...''] (loop_client inp s))"
    using assms by (simp add: loop_navigation_def)
  have idle: "\<not> is_acquisition (currentState ?n)"
    by (simp add: n is_acquisition_def)
  have l: "loop inp s = loop_redraw ?n"
    by (simp add: loop_def loop_acquisition_idle [OF idle])
  show "currentState (loop inp s) = STATE_MAIN_MENU"
    by (simp add: l n)
  show "dataReady (loop inp s) = dataReady s"
    by (simp add: l)
  show "waitingForSingleScan (loop inp s) = waitingForSingleScan s"
    by (simp add: l n changeState_waitingForSingleScan)
  show "pixel_data (loop inp s) = pixel_data s"
    by (simp add: l)
  show "out (loop inp s) =
           out s @ [SerialPrintln ''Saindo do modo unico (rotacao)...'',
                    DrawScreen STATE_MAIN_MENU]"
    by (simp add: l loop_redraw_eq n is_acquisition_def changeState_out)
qed

lemma single_scan_step:
  assumes "currentState s = STATE_ACQUISITION_SINGLE" and "in_rotation inp = 0"
    and "dataReady s" and "waitingForSingleScan s"
  shows "currentState (loop inp s) = STATE_ACQUISITION_SINGLE"
    and "\<not> dataReady (loop inp s)"
    and "\<not> waitingForSingleScan (loop inp s)"
    and "out (loop inp s) =
           out s @ [SpiTransferBytes (tx_buffer s)] @
           (if in_client_connected inp
            then [SerialPrintln ''Enviando dados via Wi-Fi (AP)...'',
                  ClientWriteBytes PACKET_START_MARKER,
                  ClientWriteWords (pixel_data (loop inp s)),
                  SerialPrintln ''Envio Wi-Fi (AP) completo.'']
            else [SerialPrintln ''Nenhum cliente conectado, envio ignorado.'']) @
           [DrawGraph STATE_ACQUISITION_SINGLE (pixel_data (loop inp s))]"
proof -
  have n: "loop_navigation inp (loop_client inp s) = loop_client inp s"
    using assms(1,2) by (simp add: loop_navigation_def)
  show st: "currentState (loop inp s) = STATE_ACQUISITION_SINGLE"
    using assms(1) by (simp add: loop_def n)
  note eq = loop_scan_single [OF st assms(3), unfolded n]
  have latch: "is_acquisition (currentState s) \<longrightarrow> waitingForSingleScan s"
    using assms(4) by simp
  show "\<not> dataReady (loop inp s)"
    by (subst eq [OF latch]) simp
  show "\<not> waitingForSingleScan (loop inp s)"
    by (subst eq [OF latch]) simp
  have pix: "pixel_data (loop inp s) =
      pixel_data (applyDarkSpectrumCorrection
        (processData_Raw
          (readDataAndRequestNext (in_spi_rx inp)
            ((loop_client inp s)\<lparr>dataReady := False, waitingForSingleScan := False\<rparr>))))"
    by (subst eq [OF latch]) simp
  show "out (loop inp s) =
           out s @ [SpiTransferBytes (tx_buffer s)] @
           (if in_client_connected inp
            then [SerialPrintln ''Enviando dados via Wi-Fi (AP)...'',
                  ClientWriteBytes PACKET_START_MARKER,
                  ClientWriteWords (pixel_data (loop inp s)),
                  SerialPrintln ''Envio Wi-Fi (AP) completo.'']
            else [SerialPrintln ''Nenhum cliente conectado, envio ignorado.'']) @
           [DrawGraph STATE_ACQUISITION_SINGLE (pixel_data (loop inp s))]"
    unfolding pix by (subst eq [OF latch]) (simp add: sendDataViaWiFi_out)
qed

text \<open>
  C6, as the code has it.  In the single-scan mode a rotation of the encoder leads to the
  main menu in that same iteration, whether or not the latch is armed: the latch and the
  data-ready flag are left as they were, nothing is read from the bus, and the pending
  frame is neither published nor drawn.  Without a rotation, a ready frame with the latch
  armed is read, published and drawn, the latch is cleared, and the mode is kept.
\<close>

theorem single_scan_exit:
  assumes "currentState s = STATE_ACQUISITION_SINGLE"
  shows "(in_rotation inp \<noteq> 0 \<longrightarrow>
            currentState (loop inp s) = STATE_MAIN_MENU \<and>
            dataReady (loop inp s) = dataReady s \<and>
            waitingForSingleScan (loop inp s) = waitingForSingleScan s \<and>
            pixel_data (loop inp s) = pixel_data s \<and>
            out (loop inp s) =
              out s @ [SerialPrintln ''Saindo do modo unico (rotacao)...'',
                       DrawScreen STATE_MAIN_MENU]) \<and>
         (in_rotation inp = 0 \<and> dataReady s \<and> waitingForSingleScan s \<longrightarrow>
            currentState (loop inp s) = STATE_ACQUISITION_SINGLE \<and>
            \<not> dataReady (loop inp s) \<and>
            \<not> waitingForSingleScan (loop inp s) \<and>
            out (loop inp s) =
              out s @ [SpiTransferBytes (tx_buffer s)] @
              (if in_client_connected inp
               then [SerialPrintln ''Enviando dados via Wi-Fi (AP)...'',
                     ClientWriteBytes PACKET_START_MARKER,
                     ClientWriteWords (pixel_data (loop inp s)),
                     SerialPrintln ''Envio Wi-Fi (AP) completo.'']
               else [SerialPrintln ''Nenhum cliente conectado, envio ignorado.'']) @
              [DrawGraph STATE_ACQUISITION_SINGLE (pixel_data (loop inp s))])"
  using single_exit_step [OF assms, of inp] single_scan_step [OF assms, of inp]
  by blast

section \<open>Steps in the main menu\<close>

lemma menu_rotate_step:
  assumes "currentState s = STATE_MAIN_MENU" and "\<not> in_clicked inp" and "in_rotation inp \<noteq> 0"
  shows "currentState (loop inp s) = STATE_MAIN_MENU"
    and "mainMenuSelection (loop inp s) =
           wrap_selection (mainMenuSelection s) (in_rotation inp) MAIN_MENU_MAX"
    and "dataReady (loop inp s) = dataReady s"
proof -
  let ?n = "loop_navigation inp (loop_client inp s)"
  have n: "?n = (loop_client inp s)
      \<lparr>mainMenuSelection := wrap_selection (mainMenuSelection s) (in_rotation inp) MAIN_MENU_MAX,
       redrawScreen := True\<rparr>"
    using assms by (simp add: loop_navigation_def handleMainMenuInput_def)
  have idle: "\<not> is_acquisition (currentState ?n)"
    using assms(1) by (simp add: n is_acquisition_def)
  have l: "loop inp s = loop_redraw ?n"
    by (simp add: loop_def loop_acquisition_idle [OF idle])
  show "currentState (loop inp s) = STATE_MAIN_MENU"
    using assms(1) by (simp add: l n)
  show "mainMenuSelection (loop inp s) =
          wrap_selection (mainMenuSelection s) (in_rotation inp) MAIN_MENU_MAX"
    by (simp add: l n loop_redraw_eq emit_def)
  show "dataReady (loop inp s) = dataReady s"
    by (simp add: l)
qed

lemma menu_click_navigation:
  assumes "currentState s = STATE_MAIN_MENU" and "in_clicked inp" and "in_rotation inp = 0"
  shows "loop_navigation inp (loop_client inp s) =
           (if mainMenuSelection s = 0
            then changeState STATE_ACQUISITION_CONT (loop_client inp s)
            else if mainMenuSelection s = 1
            then changeState STATE_ACQUISITION_SINGLE (loop_client inp s)
            else if mainMenuSelection s = 2
            then changeState STATE_ACQUISITION_DARK (loop_client inp s)
            else if mainMenuSelection s = 3
            then changeState STATE_SETTINGS (loop_client inp s)
            else loop_client inp s)"
  using assms by (simp add: loop_navigation_def handleMainMenuInput_def)

lemma menu_enter_single_step:
  assumes "currentState s = STATE_MAIN_MENU" and "in_clicked inp" and "in_rotation inp = 0"
    and "mainMenuSelection s = 1" and "\<not> dataReady s"
  shows "currentState (loop inp s) = STATE_ACQUISITION_SINGLE"
    and "waitingForSingleScan (loop inp s)"
    and "\<not> dataReady (loop inp s)"
proof -
  let ?n = "loop_navigation inp (loop_client inp s)"
  have n: "?n = changeState STATE_ACQUISITION_SINGLE (loop_client inp s)"
    using menu_click_navigation [OF assms(1,2,3)] assms(4) by simp
  have acq: "loop_acquisition inp ?n = ?n"
    using assms(5) by (simp add: n loop_acquisition_def changeState_waitingForSingleScan)
  have l: "loop inp s = ?n"
    by (simp add: loop_def acq) (simp add: n loop_redraw_acquisition is_acquisition_def)
  show "currentState (loop inp s) = STATE_ACQUISITION_SINGLE"
    by (simp add: l n)
  show "waitingForSingleScan (loop inp s)"
    by (simp add: l n changeState_waitingForSingleScan)
  show "\<not> dataReady (loop inp s)"
    using assms(5) by (simp add: l n)
qed

lemma single_scan_pending_state:
  "currentState (run single_scan_pending initial_state) = STATE_ACQUISITION_SINGLE"
  "waitingForSingleScan (run single_scan_pending initial_state)"
  "dataReady (run single_scan_pending initial_state)"
proof -
  let ?r = "gesture_input 1 False False" and ?c = "gesture_input 0 True False"
  let ?s1 = "loop ?r initial_state"
  have g: "\<not> in_clicked ?r" "in_rotation ?r \<noteq> 0" "in_clicked ?c" "in_rotation ?c = 0"
    "in_rotation ?r = 1"
    by (simp_all add: gesture_input_def)
  have i: "currentState initial_state = STATE_MAIN_MENU" "mainMenuSelection initial_state = 0"
    "\<not> dataReady initial_state"
    by (simp_all add: initial_state_def)
  have s1: "currentState ?s1 = STATE_MAIN_MENU" "mainMenuSelection ?s1 = 1" "\<not> dataReady ?s1"
    using menu_rotate_step [OF i(1) g(1,2)]
    by (simp_all add: i g(5) wrap_selection_def MAIN_MENU_MAX_def)
  note s2 = menu_enter_single_step [OF s1(1) g(3,4) s1(2,3)]
  show "currentState (run single_scan_pending initial_state) = STATE_ACQUISITION_SINGLE"
    "waitingForSingleScan (run single_scan_pending initial_state)"
    "dataReady (run single_scan_pending initial_state)"
    using s2 by (simp_all add: single_scan_pending_def onDataReady_def)
qed

theorem single_scan_exit_witness:
  "currentState (run single_scan_pending initial_state) = STATE_ACQUISITION_SINGLE \<and>
   in_rotation (gesture_input 1 False False) \<noteq> 0 \<and>
   currentState (loop (gesture_input 1 False False) (run single_scan_pending initial_state))
     = STATE_MAIN_MENU \<and>
   in_rotation (gesture_input 0 False False) = 0 \<and>
   dataReady (run single_scan_pending initial_state) \<and>
   waitingForSingleScan (run single_scan_pending initial_state) \<and>
   currentState (loop (gesture_input 0 False False) (run single_scan_pending initial_state))
     = STATE_ACQUISITION_SINGLE \<and>
   \<not> waitingForSingleScan
       (loop (gesture_input 0 False False) (run single_scan_pending initial_state))"
proof -
  note st = single_scan_pending_state
  have g: "in_rotation (gesture_input 1 False False) \<noteq> 0"
    "in_rotation (gesture_input 0 False False) = 0"
    by (simp_all add: gesture_input_def)
  from single_scan_exit [OF st(1), of "gesture_input 1 False False"] g(1)
  have "currentState (loop (gesture_input 1 False False) (run single_scan_pending initial_state))
          = STATE_MAIN_MENU"
    by blast
  moreover
  from single_scan_exit [OF st(1), of "gesture_input 0 False False"] g(2) st(2,3)
  have "currentState (loop (gesture_input 0 False False) (run single_scan_pending initial_state))
          = STATE_ACQUISITION_SINGLE \<and>
        \<not> waitingForSingleScan
            (loop (gesture_input 0 False False) (run single_scan_pending initial_state))"
    by blast
  ultimately show ?thesis
    using st g by blast
qed

text \<open>
  The claim C6 as stated fails from power-up: enter the single-scan mode, let the frame
  become ready with the latch armed, and turn the encoder.  The state is the main menu
  at once, the latch is still armed, and the iteration has printed one line and drawn the
  menu: the frame in flight was neither read nor drawn.
\<close>

theorem single_scan_exit_while_latched_counterexample:
  "currentState (run single_scan_pending initial_state) = STATE_ACQUISITION_SINGLE \<and>
   waitingForSingleScan (run single_scan_pending initial_state) \<and>
   dataReady (run single_scan_pending initial_state) \<and>
   in_rotation (gesture_input 1 False False) \<noteq> 0 \<and>
   currentState (loop (gesture_input 1 False False) (run single_scan_pending initial_state))
     = STATE_MAIN_MENU \<and>
   waitingForSingleScan
     (loop (gesture_input 1 False False) (run single_scan_pending initial_state)) \<and>
   out (loop (gesture_input 1 False False) (run single_scan_pending initial_state)) =
     out (run single_scan_pending initial_state) @
     [SerialPrintln ''Saindo do modo unico (rotacao)...'', DrawScreen STATE_MAIN_MENU]"
proof -
  note st = single_scan_pending_state
  have g: "in_rotation (gesture_input 1 False False) \<noteq> 0"
    by (simp add: gesture_input_def)
  note ex = single_exit_step [OF st(1) g]
  show ?thesis
    using st g ex(1,5) by (simp add: ex(3))
qed

section \<open>The data-ready flag outside the acquisition states\<close>

lemma loop_dataReady_idle:
  assumes "\<not> is_acquisition (currentState (loop inp s))"
  shows "dataReady (loop inp s) = dataReady s"
proof -
  have "\<not> is_acquisition (currentState (loop_navigation inp (loop_client inp s)))"
    using assms by (simp add: loop_def)
  then show ?thesis
    by (simp add: loop_def loop_acquisition_idle)
qed

lemma run_dataReady_idle:
  "dataReady s \<Longrightarrow> stays_in_menus steps s \<Longrightarrow> dataReady (run steps s)"
proof (induction steps arbitrary: s)
  case Nil
  then show ?case by simp
next
  case (Cons st steps)
  show ?case
  proof (cases st)
    case DataReadyIrq
    with Cons show ?thesis by (simp add: onDataReady_def)
  next
    case (Poll inp)
    with Cons.prems have "\<not> is_acquisition (currentState (loop inp s))"
      and "stays_in_menus steps (loop inp s)"
      by simp_all
    with Cons.prems(1) Cons.IH [of "loop inp s"] Poll show ?thesis
      by (simp add: loop_dataReady_idle)
  qed
qed

lemma loop_scan_out:
  assumes "is_acquisition (currentState (loop inp s))" and "dataReady s"
    and "is_acquisition (currentState s) \<longrightarrow> waitingForSingleScan s"
  shows "\<not> dataReady (loop inp s)"
    and "\<exists>pre mid. out (loop inp s) =
           pre @ [SpiTransferBytes (tx_buffer (loop inp s))] @ mid @
           [DrawGraph (currentState (loop inp s)) (pixel_data (loop inp s))]"
proof -
  consider (cont) "currentState (loop inp s) = STATE_ACQUISITION_CONT"
    | (single) "currentState (loop inp s) = STATE_ACQUISITION_SINGLE"
    | (dark) "currentState (loop inp s) = STATE_ACQUISITION_DARK"
    using assms(1) by (auto simp: is_acquisition_def)
  then have "\<not> dataReady (loop inp s) \<and>
    (\<exists>pre mid. out (loop inp s) =
       pre @ [SpiTransferBytes (tx_buffer (loop inp s))] @ mid @
       [DrawGraph (currentState (loop inp s)) (pixel_data (loop inp s))])"
  proof cases
    case cont
    note eq = loop_scan_cont [OF cont assms(2)]
    have "\<not> dataReady (loop inp s)"
      by (subst eq) simp
    moreover have "out (loop inp s) =
        out (loop_navigation inp (loop_client inp s)) @
        [SpiTransferBytes (tx_buffer (loop inp s))] @
        (if in_client_connected inp
         then [SerialPrintln ''Enviando dados via Wi-Fi (AP)...'',
               ClientWriteBytes PACKET_START_MARKER,
               ClientWriteWords (pixel_data (loop inp s)),
               SerialPrintln ''Envio Wi-Fi (AP) completo.'']
         else [SerialPrintln ''Nenhum cliente conectado, envio ignorado.'']) @
        [DrawGraph STATE_ACQUISITION_CONT (pixel_data (loop inp s))]"
      by (subst (1 2 3 4) eq) (simp add: sendDataViaWiFi_out)
    ultimately show ?thesis
      unfolding cont by blast
  next
    case single
    note eq = loop_scan_single [OF single assms(2,3)]
    have "\<not> dataReady (loop inp s)"
      by (subst eq) simp
    moreover have "out (loop inp s) =
        out (loop_navigation inp (loop_client inp s)) @
        [SpiTransferBytes (tx_buffer (loop inp s))] @
        (if in_client_connected inp
         then [SerialPrintln ''Enviando dados via Wi-Fi (AP)...'',
               ClientWriteBytes PACKET_START_MARKER,
               ClientWriteWords (pixel_data (loop inp s)),
               SerialPrintln ''Envio Wi-Fi (AP) completo.'']
         else [SerialPrintln ''Nenhum cliente conectado, envio ignorado.'']) @
        [DrawGraph STATE_ACQUISITION_SINGLE (pixel_data (loop inp s))]"
      by (subst (1 2 3 4) eq) (simp add: sendDataViaWiFi_out)
    ultimately show ?thesis
      unfolding single by blast
  next
    case dark
    note eq = loop_scan_dark [OF dark assms(2,3)]
    have "\<not> dataReady (loop inp s)"
      by (subst eq) simp
    moreover have "out (loop inp s) =
        out (loop_navigation inp (loop_client inp s)) @
        [SpiTransferBytes (tx_buffer (loop inp s))] @ [] @
        [DrawGraph STATE_ACQUISITION_DARK (pixel_data (loop inp s))]"
      by (subst (1 2 3) eq) simp
    ultimately show ?thesis
      unfolding dark by blast
  qed
  then show "\<not> dataReady (loop inp s)"
    and "\<exists>pre mid. out (loop inp s) =
           pre @ [SpiTransferBytes (tx_buffer (loop inp s))] @ mid @
           [DrawGraph (currentState (loop inp s)) (pixel_data (loop inp s))]"
    by blast+
qed

lemma menu_enter_cont_step:
  assumes "currentState s = STATE_MAIN_MENU" and "in_clicked inp" and "in_rotation inp = 0"
    and "mainMenuSelection s = 0" and "dataReady s"
  shows "currentState (loop inp s) = STATE_ACQUISITION_CONT"
    and "\<not> dataReady (loop inp s)"
    and "tx_buffer (loop inp s) = tx_buffer (buildCommand s)"
    and "out (loop inp s) =
           out s @
           [SerialPrintln ''Entrando no modo de Aquisicao (Continua)...'',
            SerialPrintln ''Enviando primeiro comando (kick-start)...'',
            SpiWriteBytes (tx_buffer (buildCommand s)),
            SpiTransferBytes (tx_buffer (buildCommand s))] @
           (if in_client_connected inp
            then [SerialPrintln ''Enviando dados via Wi-Fi (AP)...'',
                  ClientWriteBytes PACKET_START_MARKER,
                  ClientWriteWords (pixel_data (loop inp s)),
                  SerialPrintln ''Envio Wi-Fi (AP) completo.'']
            else [SerialPrintln ''Nenhum cliente conectado, envio ignorado.'']) @
           [DrawGraph STATE_ACQUISITION_CONT (pixel_data (loop inp s))]"
proof -
  let ?n = "loop_navigation inp (loop_client inp s)"
  have n: "?n = changeState STATE_ACQUISITION_CONT (loop_client inp s)"
    using menu_click_navigation [OF assms(1,2,3)] assms(4) by simp
  show st: "currentState (loop inp s) = STATE_ACQUISITION_CONT"
    by (simp add: loop_def n)
  note eq = loop_scan_cont [OF st assms(5)]
  show "\<not> dataReady (loop inp s)"
    by (subst eq) simp
  have bc: "tx_buffer (buildCommand (loop_client inp s)) = tx_buffer (buildCommand s)"
    by (simp add: buildCommand_def)
  have tx_n: "tx_buffer ?n = tx_buffer (buildCommand s)"
    unfolding n by (simp add: changeState_tx_buffer is_acquisition_def bc)
  show tx: "tx_buffer (loop inp s) = tx_buffer (buildCommand s)"
    by (simp add: loop_def tx_n)
  have out_n: "out ?n =
      out s @ [SerialPrintln ''Entrando no modo de Aquisicao (Continua)...'',
               SerialPrintln ''Enviando primeiro comando (kick-start)...'',
               SpiWriteBytes (tx_buffer (buildCommand s))]"
    unfolding n by (simp add: changeState_out bc)
  have "out (loop inp s) =
      out ?n @ [SpiTransferBytes (tx_buffer ?n)] @
      (if in_client_connected inp
       then [SerialPrintln ''Enviando dados via Wi-Fi (AP)...'',
             ClientWriteBytes PACKET_START_MARKER,
             ClientWriteWords (pixel_data (loop inp s)),
             SerialPrintln ''Envio Wi-Fi (AP) completo.'']
       else [SerialPrintln ''Nenhum cliente conectado, envio ignorado.'']) @
      [DrawGraph STATE_ACQUISITION_CONT (pixel_data (loop inp s))]"
    by (subst (1 2 3) eq) (simp add: sendDataViaWiFi_out)
  then show "out (loop inp s) =
           out s @
           [SerialPrintln ''Entrando no modo de Aquisicao (Continua)...'',
            SerialPrintln ''Enviando primeiro comando (kick-start)...'',
            SpiWriteBytes (tx_buffer (buildCommand s)),
            SpiTransferBytes (tx_buffer (buildCommand s))] @
           (if in_client_connected inp
            then [SerialPrintln ''Enviando dados via Wi-Fi (AP)...'',
                  ClientWriteBytes PACKET_START_MARKER,
                  ClientWriteWords (pixel_data (loop inp s)),
                  SerialPrintln ''Envio Wi-Fi (AP) completo.'']
            else [SerialPrintln ''Nenhum cliente conectado, envio ignorado.'']) @
           [DrawGraph STATE_ACQUISITION_CONT (pixel_data (loop inp s))]"
    by (simp only: out_n tx_n) simp
qed

text \<open>
  C9.  \<open>onDataReady\<close> sets the flag.  A poll iteration that does not end in one of the
  three acquisition states leaves the flag as it was, so the flag survives any run that
  stays in the menu and settings states.  The iteration that then enters an acquisition
  state from a menu finds the flag set: it clears it, makes a full-duplex transfer and
  draws the result as if a frame had just completed; entering the continuous mode it
  sends the kick-start, reads, publishes and draws in that one iteration.
\<close>

theorem stale_dataReady_on_entry:
  "dataReady (onDataReady s) \<and>
   (\<not> is_acquisition (currentState (loop inp s)) \<longrightarrow> dataReady (loop inp s) = dataReady s) \<and>
   (dataReady s \<and> stays_in_menus steps s \<longrightarrow> dataReady (run steps s)) \<and>
   (\<not> is_acquisition (currentState s) \<and> is_acquisition (currentState (loop inp s)) \<and>
    dataReady s \<longrightarrow>
      \<not> dataReady (loop inp s) \<and>
      (\<exists>pre mid. out (loop inp s) =
         pre @ [SpiTransferBytes (tx_buffer (loop inp s))] @ mid @
         [DrawGraph (currentState (loop inp s)) (pixel_data (loop inp s))])) \<and>
   (currentState s = STATE_MAIN_MENU \<and> mainMenuSelection s = 0 \<and>
    in_clicked inp \<and> in_rotation inp = 0 \<and> dataReady s \<longrightarrow>
      currentState (loop inp s) = STATE_ACQUISITION_CONT \<and>
      \<not> dataReady (loop inp s) \<and>
      out (loop inp s) =
        out s @
        [SerialPrintln ''Entrando no modo de Aquisicao (Continua)...'',
         SerialPrintln ''Enviando primeiro comando (kick-start)...'',
         SpiWriteBytes (tx_buffer (buildCommand s)),
         SpiTransferBytes (tx_buffer (buildCommand s))] @
        (if in_client_connected inp
         then [SerialPrintln ''Enviando dados via Wi-Fi (AP)...'',
               ClientWriteBytes PACKET_START_MARKER,
               ClientWriteWords (pixel_data (loop inp s)),
               SerialPrintln ''Envio Wi-Fi (AP) completo.'']
         else [SerialPrintln ''Nenhum cliente conectado, envio ignorado.'']) @
        [DrawGraph STATE_ACQUISITION_CONT (pixel_data (loop inp s))])"
proof (intro conjI impI)
  show "dataReady (onDataReady s)"
    by (simp add: onDataReady_def)
next
  assume "\<not> is_acquisition (currentState (loop inp s))"
  then show "dataReady (loop inp s) = dataReady s"
    by (rule loop_dataReady_idle)
next
  assume "dataReady s \<and> stays_in_menus steps s"
  then show "dataReady (run steps s)"
    by (simp add: run_dataReady_idle)
next
  assume a: "\<not> is_acquisition (currentState s) \<and> is_acquisition (currentState (loop inp s)) \<and>
             dataReady s"
  then have latch: "is_acquisition (currentState s) \<longrightarrow> waitingForSingleScan s"
    by simp
  from a loop_scan_out [OF _ _ latch, of inp]
  show "\<not> dataReady (loop inp s)"
    and "\<exists>pre mid. out (loop inp s) =
           pre @ [SpiTransferBytes (tx_buffer (loop inp s))] @ mid @
           [DrawGraph (currentState (loop inp s)) (pixel_data (loop inp s))]"
    by blast+
next
  assume a: "currentState s = STATE_MAIN_MENU \<and> mainMenuSelection s = 0 \<and>
             in_clicked inp \<and> in_rotation inp = 0 \<and> dataReady s"
  then have h: "currentState s = STATE_MAIN_MENU" "in_clicked inp" "in_rotation inp = 0"
    "mainMenuSelection s = 0" "dataReady s"
    by simp_all
  note e = menu_enter_cont_step [OF h]
  from e(1) show "currentState (loop inp s) = STATE_ACQUISITION_CONT" .
  from e(2) show "\<not> dataReady (loop inp s)" .
  from e(4) show "out (loop inp s) =
        out s @
        [SerialPrintln ''Entrando no modo de Aquisicao (Continua)...'',
         SerialPrintln ''Enviando primeiro comando (kick-start)...'',
         SpiWriteBytes (tx_buffer (buildCommand s)),
         SpiTransferBytes (tx_buffer (buildCommand s))] @
        (if in_client_connected inp
         then [SerialPrintln ''Enviando dados via Wi-Fi (AP)...'',
               ClientWriteBytes PACKET_START_MARKER,
               ClientWriteWords (pixel_data (loop inp s)),
               SerialPrintln ''Envio Wi-Fi (AP) completo.'']
         else [SerialPrintln ''Nenhum cliente conectado, envio ignorado.'']) @
        [DrawGraph STATE_ACQUISITION_CONT (pixel_data (loop inp s))]" .
qed

lemma menu_wander_state:
  "stays_in_menus menu_wander (onDataReady initial_state)"
  "currentState (run menu_wander (onDataReady initial_state)) = STATE_MAIN_MENU"
  "mainMenuSelection (run menu_wander (onDataReady initial_state)) = 0"
proof -
  let ?f = "gesture_input 1 False False" and ?b = "gesture_input (- 1) False False"
  let ?s0 = "onDataReady initial_state"
  let ?s1 = "loop ?f ?s0"
  have g: "\<not> in_clicked ?f" "in_rotation ?f \<noteq> 0" "in_rotation ?f = 1"
    "\<not> in_clicked ?b" "in_rotation ?b \<noteq> 0" "in_rotation ?b = - 1"
    by (simp_all add: gesture_input_def)
  have s0: "currentState ?s0 = STATE_MAIN_MENU" "mainMenuSelection ?s0 = 0"
    by (simp_all add: initial_state_def onDataReady_def)
  have s1: "currentState ?s1 = STATE_MAIN_MENU" "mainMenuSelection ?s1 = 1"
    using menu_rotate_step [OF s0(1) g(1,2)]
    by (simp_all add: s0 g(3) wrap_selection_def MAIN_MENU_MAX_def)
  have s2: "currentState (loop ?b ?s1) = STATE_MAIN_MENU" "mainMenuSelection (loop ?b ?s1) = 0"
    using menu_rotate_step [OF s1(1) g(4,5)]
    by (simp_all add: s1 g(6) wrap_selection_def MAIN_MENU_MAX_def)
  show "stays_in_menus menu_wander (onDataReady initial_state)"
    by (simp add: menu_wander_def s1 s2 is_acquisition_def)
  show "currentState (run menu_wander (onDataReady initial_state)) = STATE_MAIN_MENU"
    by (simp add: menu_wander_def s2)
  show "mainMenuSelection (run menu_wander (onDataReady initial_state)) = 0"
    by (simp add: menu_wander_def s2)
qed

theorem stale_dataReady_on_entry_witness:
  "dataReady (onDataReady initial_state) \<and>
   stays_in_menus menu_wander (onDataReady initial_state) \<and>
   dataReady (run menu_wander (onDataReady initial_state)) \<and>
   \<not> is_acquisition (currentState (run menu_wander (onDataReady initial_state))) \<and>
   currentState (run menu_wander (onDataReady initial_state)) = STATE_MAIN_MENU \<and>
   mainMenuSelection (run menu_wander (onDataReady initial_state)) = 0 \<and>
   in_clicked (gesture_input 0 True False) \<and>
   in_rotation (gesture_input 0 True False) = 0 \<and>
   \<not> is_acquisition (currentState (loop (gesture_input 1 False False) initial_state)) \<and>
   dataReady (loop (gesture_input 1 False False) initial_state) = dataReady initial_state \<and>
   is_acquisition
     (currentState (loop (gesture_input 0 True False)
        (run menu_wander (onDataReady initial_state)))) \<and>
   currentState (loop (gesture_input 0 True False)
     (run menu_wander (onDataReady initial_state))) = STATE_ACQUISITION_CONT \<and>
   \<not> dataReady (loop (gesture_input 0 True False)
        (run menu_wander (onDataReady initial_state))) \<and>
   SpiTransferBytes
     (tx_buffer (loop (gesture_input 0 True False)
        (run menu_wander (onDataReady initial_state))))
     \<in> set (out (loop (gesture_input 0 True False)
          (run menu_wander (onDataReady initial_state))))"
proof -
  let ?t = "run menu_wander (onDataReady initial_state)"
  let ?c = "gesture_input 0 True False"
  let ?f = "gesture_input 1 False False"
  note w = menu_wander_state
  have g: "in_clicked ?c" "in_rotation ?c = 0" "\<not> in_clicked ?f" "in_rotation ?f \<noteq> 0"
    by (simp_all add: gesture_input_def)
  have set: "dataReady (onDataReady initial_state)"
    using stale_dataReady_on_entry [of initial_state ?c "[]"] by blast
  from stale_dataReady_on_entry [of "onDataReady initial_state" ?c menu_wander] set w(1)
  have kept: "dataReady ?t"
    by blast
  have idle: "\<not> is_acquisition (currentState ?t)"
    by (simp add: w(2) is_acquisition_def)
  have i: "currentState initial_state = STATE_MAIN_MENU"
    by (simp add: initial_state_def)
  have idle1: "\<not> is_acquisition (currentState (loop ?f initial_state))"
    using menu_rotate_step(1) [OF i g(3,4)] by (simp add: is_acquisition_def)
  with stale_dataReady_on_entry [of initial_state ?f "[]"]
  have same: "dataReady (loop ?f initial_state) = dataReady initial_state"
    by blast
  from stale_dataReady_on_entry [of ?t ?c "[]"] w(2,3) g(1,2) kept
  have entry: "currentState (loop ?c ?t) = STATE_ACQUISITION_CONT \<and> \<not> dataReady (loop ?c ?t)"
    by blast
  then have acq: "is_acquisition (currentState (loop ?c ?t))"
    by (simp add: is_acquisition_def)
  from stale_dataReady_on_entry [of ?t ?c "[]"] idle acq kept
  have "\<exists>pre mid. out (loop ?c ?t) =
      pre @ [SpiTransferBytes (tx_buffer (loop ?c ?t))] @ mid @
      [DrawGraph (currentState (loop ?c ?t)) (pixel_data (loop ?c ?t))]"
    by blast
  then have transfer: "SpiTransferBytes (tx_buffer (loop ?c ?t)) \<in> set (out (loop ?c ?t))"
    by auto
  show ?thesis
    using set w kept idle g(1,2) idle1 same acq entry transfer by blast
qed

section \<open>Which iterations reach the transport sink\<close>

lemma handleMainMenuInput_out:
  "\<exists>new. out (handleMainMenuInput r c s) = out s @ new \<and>
         list_all (\<lambda>e. \<not> transport_event e) new"
  by (cases "r = 0"; cases c)
     (auto simp: handleMainMenuInput_def Let_def changeState_out)

lemma loop_navigation_out:
  "\<exists>new. out (loop_navigation inp s) = out s @ new \<and>
         list_all (\<lambda>e. \<not> transport_event e) new"
proof (cases "currentState s")
  case STATE_MAIN_MENU
  then show ?thesis
    using handleMainMenuInput_out [of "in_rotation inp" "in_clicked inp" s]
    by (simp add: loop_navigation_def)
next
  case STATE_SETTINGS
  then show ?thesis by (simp add: loop_navigation_def)
next
  case STATE_SETTINGS_ACQ
  then show ?thesis by (simp add: loop_navigation_def)
next
  case STATE_SETTINGS_AXIS
  then show ?thesis by (simp add: loop_navigation_def)
next
  case STATE_ACQUISITION_CONT
  then show ?thesis by (simp add: loop_navigation_def)
next
  case STATE_ACQUISITION_SINGLE
  then show ?thesis by (simp add: loop_navigation_def changeState_out)
next
  case STATE_ACQUISITION_DARK
  then show ?thesis by (simp add: loop_navigation_def Let_def changeState_out)
qed

lemma loop_navigation_from_dark:
  "currentState s = STATE_ACQUISITION_DARK \<Longrightarrow>
   currentState (loop_navigation inp s) = STATE_ACQUISITION_DARK \<or>
   currentState (loop_navigation inp s) = STATE_MAIN_MENU"
  by (simp add: loop_navigation_def Let_def)

lemma loop_acquisition_dark_out:
  assumes "currentState s = STATE_ACQUISITION_DARK"
  shows "\<exists>new. out (loop_acquisition inp s) = out s @ new \<and>
               list_all (\<lambda>e. \<not> transport_event e) new"
proof (cases "dataReady s \<and> waitingForSingleScan s")
  case True
  then show ?thesis
    using assms by (simp add: loop_acquisition_dark)
next
  case False
  then have "out (loop_acquisition inp s) = out s"
    using assms by (auto simp: loop_acquisition_def Let_def)
  then show ?thesis by simp
qed

lemma loop_redraw_out:
  "\<exists>new. out (loop_redraw s) = out s @ new \<and> list_all (\<lambda>e. \<not> transport_event e) new"
  by (simp add: loop_redraw_eq)

lemma dark_iteration_out:
  assumes "currentState s = STATE_ACQUISITION_DARK \<or>
           currentState (loop inp s) = STATE_ACQUISITION_DARK"
  shows "\<exists>new. out (loop inp s) = out s @ new \<and> list_all (\<lambda>e. \<not> transport_event e) new"
proof -
  let ?n = "loop_navigation inp (loop_client inp s)"
  obtain new1 where n1: "out ?n = out s @ new1" "list_all (\<lambda>e. \<not> transport_event e) new1"
    using loop_navigation_out [of inp "loop_client inp s"] by auto
  have post: "currentState (loop inp s) = currentState ?n"
    by (simp add: loop_def)
  have "\<exists>new2. out (loop_acquisition inp ?n) = out ?n @ new2 \<and>
               list_all (\<lambda>e. \<not> transport_event e) new2"
  proof (cases "currentState ?n = STATE_ACQUISITION_DARK")
    case True
    then show ?thesis by (rule loop_acquisition_dark_out)
  next
    case False
    with assms post have "currentState s = STATE_ACQUISITION_DARK"
      by simp
    with False have "currentState ?n = STATE_MAIN_MENU"
      using loop_navigation_from_dark [of "loop_client inp s" inp] by simp
    then have "loop_acquisition inp ?n = ?n"
      by (simp add: loop_acquisition_idle is_acquisition_def)
    then show ?thesis by simp
  qed
  then obtain new2 where n2: "out (loop_acquisition inp ?n) = out ?n @ new2"
      "list_all (\<lambda>e. \<not> transport_event e) new2"
    by auto
  obtain new3 where n3: "out (loop inp s) = out (loop_acquisition inp ?n) @ new3"
      "list_all (\<lambda>e. \<not> transport_event e) new3"
    using loop_redraw_out [of "loop_acquisition inp ?n"] by (auto simp: loop_def)
  have "out (loop inp s) = out s @ (new1 @ new2 @ new3)"
    by (simp add: n1 n2 n3)
  moreover have "list_all (\<lambda>e. \<not> transport_event e) (new1 @ new2 @ new3)"
    using n1 n2 n3 by simp
  ultimately show ?thesis by blast
qed

lemma dark_scan_step_out:
  assumes "currentState s = STATE_ACQUISITION_DARK"
    and "in_rotation inp = 0" and "\<not> in_clicked inp" and "\<not> in_longPress inp"
    and "dataReady s" and "waitingForSingleScan s"
  shows "currentState (loop inp s) = STATE_ACQUISITION_DARK"
    and "out (loop inp s) =
           out s @ [SpiTransferBytes (tx_buffer s),
                    DrawGraph STATE_ACQUISITION_DARK (pixel_data (loop inp s))]"
proof -
  have n: "loop_navigation inp (loop_client inp s) = loop_client inp s"
    using assms(1-4) by (simp add: loop_navigation_def)
  show st: "currentState (loop inp s) = STATE_ACQUISITION_DARK"
    using assms(1) by (simp add: loop_def n)
  have latch: "is_acquisition (currentState s) \<longrightarrow> waitingForSingleScan s"
    using assms(6) by simp
  note eq = loop_scan_dark [OF st assms(5) latch, unfolded n]
  show "out (loop inp s) =
           out s @ [SpiTransferBytes (tx_buffer s),
                    DrawGraph STATE_ACQUISITION_DARK (pixel_data (loop inp s))]"
    by (subst (1 2) eq) simp
qed

lemma published_scan_out:
  assumes "currentState (loop inp s) = STATE_ACQUISITION_CONT \<or>
           currentState (loop inp s) = STATE_ACQUISITION_SINGLE"
    and "dataReady s"
    and "currentState s = STATE_ACQUISITION_SINGLE \<longrightarrow> waitingForSingleScan s"
  shows "out (loop inp s) =
           out (loop_navigation inp (loop_client inp s)) @
           [SpiTransferBytes (tx_buffer (loop inp s))] @
           (if in_client_connected inp
            then [SerialPrintln ''Enviando dados via Wi-Fi (AP)...'',
                  ClientWriteBytes PACKET_START_MARKER,
                  ClientWriteWords (pixel_data (loop inp s)),
                  SerialPrintln ''Envio Wi-Fi (AP) completo.'']
            else [SerialPrintln ''Nenhum cliente conectado, envio ignorado.'']) @
           [DrawGraph (currentState (loop inp s)) (pixel_data (loop inp s))]"
  using assms(1)
proof
  assume cont: "currentState (loop inp s) = STATE_ACQUISITION_CONT"
  note eq = loop_scan_cont [OF cont assms(2)]
  show ?thesis
    unfolding cont by (subst (1 2 3 4) eq) (simp add: sendDataViaWiFi_out)
next
  assume single: "currentState (loop inp s) = STATE_ACQUISITION_SINGLE"
  have latch: "is_acquisition (currentState s) \<longrightarrow> waitingForSingleScan s"
  proof
    assume acq: "is_acquisition (currentState s)"
    have "is_acquisition (currentState (loop_navigation inp (loop_client inp s)))"
      using single by (simp add: loop_def is_acquisition_def)
    from loop_navigation_enters [OF this] acq single assms(3)
    show "waitingForSingleScan s"
      by (auto simp: loop_def is_acquisition_def)
  qed
  note eq = loop_scan_single [OF single assms(2) latch]
  show ?thesis
    unfolding single by (subst (1 2 3 4) eq) (simp add: sendDataViaWiFi_out)
qed

text \<open>
  C10.  An iteration that starts or ends in the dark-capture state produces no event of
  \<open>sendDataViaWiFi\<close>, neither a write to the client nor one of its console lines; the
  iteration that takes the frame there makes the transfer and draws, nothing else.  An
  iteration that ends in the continuous or the single-scan state and takes a frame calls
  \<open>sendDataViaWiFi\<close> between the transfer and the drawing.  With a client connected the
  call writes the start marker and then the corrected spectrum; with no client it writes
  nothing to the client and prints one console line.  Nothing else the iteration emits is
  an event of \<open>sendDataViaWiFi\<close>.
\<close>

theorem transport_by_mode:
  "(currentState s = STATE_ACQUISITION_DARK \<or>
    currentState (loop inp s) = STATE_ACQUISITION_DARK \<longrightarrow>
      (\<exists>new. out (loop inp s) = out s @ new \<and>
             list_all (\<lambda>e. \<not> transport_event e) new)) \<and>
   (currentState s = STATE_ACQUISITION_DARK \<and>
    in_rotation inp = 0 \<and> \<not> in_clicked inp \<and> \<not> in_longPress inp \<and>
    dataReady s \<and> waitingForSingleScan s \<longrightarrow>
      currentState (loop inp s) = STATE_ACQUISITION_DARK \<and>
      out (loop inp s) =
        out s @ [SpiTransferBytes (tx_buffer s),
                 DrawGraph STATE_ACQUISITION_DARK (pixel_data (loop inp s))]) \<and>
   ((currentState (loop inp s) = STATE_ACQUISITION_CONT \<or>
     currentState (loop inp s) = STATE_ACQUISITION_SINGLE) \<and>
    dataReady s \<and>
    (currentState s = STATE_ACQUISITION_SINGLE \<longrightarrow> waitingForSingleScan s) \<longrightarrow>
      (\<exists>new. list_all (\<lambda>e. \<not> transport_event e) new \<and>
         out (loop inp s) =
         out s @ new @ [SpiTransferBytes (tx_buffer (loop inp s))] @
         (if in_client_connected inp
          then [SerialPrintln ''Enviando dados via Wi-Fi (AP)...'',
                ClientWriteBytes PACKET_START_MARKER,
                ClientWriteWords (pixel_data (loop inp s)),
                SerialPrintln ''Envio Wi-Fi (AP) completo.'']
          else [SerialPrintln ''Nenhum cliente conectado, envio ignorado.'']) @
         [DrawGraph (currentState (loop inp s)) (pixel_data (loop inp s))]))"
proof (intro conjI impI)
  assume "currentState s = STATE_ACQUISITION_DARK \<or>
          currentState (loop inp s) = STATE_ACQUISITION_DARK"
  then show "\<exists>new. out (loop inp s) = out s @ new \<and>
                   list_all (\<lambda>e. \<not> transport_event e) new"
    by (rule dark_iteration_out)
next
  assume a: "currentState s = STATE_ACQUISITION_DARK \<and>
             in_rotation inp = 0 \<and> \<not> in_clicked inp \<and> \<not> in_longPress inp \<and>
             dataReady s \<and> waitingForSingleScan s"
  then have h: "currentState s = STATE_ACQUISITION_DARK" "in_rotation inp = 0"
    "\<not> in_clicked inp" "\<not> in_longPress inp" "dataReady s" "waitingForSingleScan s"
    by simp_all
  note d = dark_scan_step_out [OF h]
  from d(1) show "currentState (loop inp s) = STATE_ACQUISITION_DARK" .
  from d(2) show "out (loop inp s) =
        out s @ [SpiTransferBytes (tx_buffer s),
                 DrawGraph STATE_ACQUISITION_DARK (pixel_data (loop inp s))]" .
next
  assume a: "(currentState (loop inp s) = STATE_ACQUISITION_CONT \<or>
              currentState (loop inp s) = STATE_ACQUISITION_SINGLE) \<and>
             dataReady s \<and>
             (currentState s = STATE_ACQUISITION_SINGLE \<longrightarrow> waitingForSingleScan s)"
  then have h: "currentState (loop inp s) = STATE_ACQUISITION_CONT \<or>
                currentState (loop inp s) = STATE_ACQUISITION_SINGLE"
    "dataReady s" "currentState s = STATE_ACQUISITION_SINGLE \<longrightarrow> waitingForSingleScan s"
    by simp_all
  obtain new where n: "out (loop_navigation inp (loop_client inp s)) = out s @ new"
      "list_all (\<lambda>e. \<not> transport_event e) new"
    using loop_navigation_out [of inp "loop_client inp s"] by auto
  from published_scan_out [OF h]
  have "out (loop inp s) =
         out s @ new @ [SpiTransferBytes (tx_buffer (loop inp s))] @
         (if in_client_connected inp
          then [SerialPrintln ''Enviando dados via Wi-Fi (AP)...'',
                ClientWriteBytes PACKET_START_MARKER,
                ClientWriteWords (pixel_data (loop inp s)),
                SerialPrintln ''Envio Wi-Fi (AP) completo.'']
          else [SerialPrintln ''Nenhum cliente conectado, envio ignorado.'']) @
         [DrawGraph (currentState (loop inp s)) (pixel_data (loop inp s))]"
    by (simp only: n(1) append_assoc)
  with n(2)
  show "\<exists>new. list_all (\<lambda>e. \<not> transport_event e) new \<and>
         out (loop inp s) =
         out s @ new @ [SpiTransferBytes (tx_buffer (loop inp s))] @
         (if in_client_connected inp
          then [SerialPrintln ''Enviando dados via Wi-Fi (AP)...'',
                ClientWriteBytes PACKET_START_MARKER,
                ClientWriteWords (pixel_data (loop inp s)),
                SerialPrintln ''Envio Wi-Fi (AP) completo.'']
          else [SerialPrintln ''Nenhum cliente conectado, envio ignorado.'']) @
         [DrawGraph (currentState (loop inp s)) (pixel_data (loop inp s))]"
    by blast
qed

lemma no_client_input_fields [simp]:
  "in_rotation no_client_input = 0"
  "\<not> in_clicked no_client_input"
  "\<not> in_longPress no_client_input"
  "\<not> in_client_connected no_client_input"
  by (simp_all add: no_client_input_def gesture_input_def)

lemma cont_state_with_dark_ready:
  "currentState (onDataReady cont_state_with_dark) = STATE_ACQUISITION_CONT"
  "dataReady (onDataReady cont_state_with_dark)"
  "out (onDataReady cont_state_with_dark) = []"
  "\<not> in_clicked inp \<Longrightarrow>
     currentState (loop inp (onDataReady cont_state_with_dark)) = STATE_ACQUISITION_CONT"
  by (simp_all add: cont_state_with_dark_def onDataReady_def initial_state_def loop_def
        loop_navigation_def handleAcquisitionInput_def)

text \<open>
  The dark-capture mode with a client connected: transfer and drawing only.  From
  power-up into the single-scan mode, and in the continuous mode, with a client connected:
  the start marker is written.  The same two iterations with no client: the console line
  of the skipped transmission is printed, and in the continuous mode, whose trace starts
  empty, the start marker is not written.
\<close>

theorem transport_by_mode_witness:
  "currentState dark_state_waiting = STATE_ACQUISITION_DARK \<and>
   in_rotation (gesture_input 0 False False) = 0 \<and>
   \<not> in_clicked (gesture_input 0 False False) \<and>
   \<not> in_longPress (gesture_input 0 False False) \<and>
   dataReady dark_state_waiting \<and> waitingForSingleScan dark_state_waiting \<and>
   out (loop (gesture_input 0 False False) dark_state_waiting) =
     [SpiTransferBytes (tx_buffer dark_state_waiting),
      DrawGraph STATE_ACQUISITION_DARK
        (pixel_data (loop (gesture_input 0 False False) dark_state_waiting))] \<and>
   list_all (\<lambda>e. \<not> transport_event e)
     (out (loop (gesture_input 0 False False) dark_state_waiting)) \<and>
   currentState (run single_scan_pending initial_state) = STATE_ACQUISITION_SINGLE \<and>
   currentState (loop (gesture_input 0 False False) (run single_scan_pending initial_state))
     = STATE_ACQUISITION_SINGLE \<and>
   dataReady (run single_scan_pending initial_state) \<and>
   waitingForSingleScan (run single_scan_pending initial_state) \<and>
   in_client_connected (gesture_input 0 False False) \<and>
   ClientWriteBytes PACKET_START_MARKER
     \<in> set (out (loop (gesture_input 0 False False) (run single_scan_pending initial_state))) \<and>
   currentState (loop (gesture_input 0 False False) (onDataReady cont_state_with_dark))
     = STATE_ACQUISITION_CONT \<and>
   dataReady (onDataReady cont_state_with_dark) \<and>
   ClientWriteBytes PACKET_START_MARKER
     \<in> set (out (loop (gesture_input 0 False False) (onDataReady cont_state_with_dark))) \<and>
   \<not> in_client_connected no_client_input \<and>
   currentState (loop no_client_input (run single_scan_pending initial_state))
     = STATE_ACQUISITION_SINGLE \<and>
   SerialPrintln ''Nenhum cliente conectado, envio ignorado.''
     \<in> set (out (loop no_client_input (run single_scan_pending initial_state))) \<and>
   currentState (loop no_client_input (onDataReady cont_state_with_dark))
     = STATE_ACQUISITION_CONT \<and>
   SerialPrintln ''Nenhum cliente conectado, envio ignorado.''
     \<in> set (out (loop no_client_input (onDataReady cont_state_with_dark))) \<and>
   ClientWriteBytes PACKET_START_MARKER
     \<notin> set (out (loop no_client_input (onDataReady cont_state_with_dark)))"
proof -
  let ?i = "gesture_input 0 False False"
  let ?n = "no_client_input"
  let ?p = "run single_scan_pending initial_state"
  let ?c = "onDataReady cont_state_with_dark"
  have g: "in_rotation ?i = 0" "\<not> in_clicked ?i" "\<not> in_longPress ?i" "in_client_connected ?i"
    by (simp_all add: gesture_input_def)
  have ng: "in_rotation ?n = 0" "\<not> in_clicked ?n" "\<not> in_client_connected ?n"
    by simp_all
  have d: "currentState dark_state_waiting = STATE_ACQUISITION_DARK"
    "dataReady dark_state_waiting" "waitingForSingleScan dark_state_waiting"
    "out dark_state_waiting = []"
    by (simp_all add: dark_state_waiting_def initial_state_def)
  note t = transport_by_mode [of dark_state_waiting ?i]
  from t d(1,2,3) g(1,2,3)
  have scan: "out (loop ?i dark_state_waiting) =
      out dark_state_waiting @
      [SpiTransferBytes (tx_buffer dark_state_waiting),
       DrawGraph STATE_ACQUISITION_DARK (pixel_data (loop ?i dark_state_waiting))]"
    by blast
  from t d(1)
  have "\<exists>new. out (loop ?i dark_state_waiting) = out dark_state_waiting @ new \<and>
              list_all (\<lambda>e. \<not> transport_event e) new"
    by blast
  then have quiet: "list_all (\<lambda>e. \<not> transport_event e) (out (loop ?i dark_state_waiting))"
    by (auto simp: d(4))
  note p = single_scan_pending_state
  have stay: "currentState (loop ?i ?p) = STATE_ACQUISITION_SINGLE"
    using single_scan_step(1) [OF p(1) g(1) p(3) p(2)] .
  from transport_by_mode [of ?p ?i] stay p(2,3)
  have "\<exists>new. list_all (\<lambda>e. \<not> transport_event e) new \<and> out (loop ?i ?p) =
         out ?p @ new @ [SpiTransferBytes (tx_buffer (loop ?i ?p))] @
         (if in_client_connected ?i
          then [SerialPrintln ''Enviando dados via Wi-Fi (AP)...'',
                ClientWriteBytes PACKET_START_MARKER,
                ClientWriteWords (pixel_data (loop ?i ?p)),
                SerialPrintln ''Envio Wi-Fi (AP) completo.'']
          else [SerialPrintln ''Nenhum cliente conectado, envio ignorado.'']) @
         [DrawGraph (currentState (loop ?i ?p)) (pixel_data (loop ?i ?p))]"
    by blast
  then obtain new where "out (loop ?i ?p) =
         out ?p @ new @ [SpiTransferBytes (tx_buffer (loop ?i ?p))] @
         [SerialPrintln ''Enviando dados via Wi-Fi (AP)...'',
          ClientWriteBytes PACKET_START_MARKER,
          ClientWriteWords (pixel_data (loop ?i ?p)),
          SerialPrintln ''Envio Wi-Fi (AP) completo.''] @
         [DrawGraph (currentState (loop ?i ?p)) (pixel_data (loop ?i ?p))]"
    using g(4) by auto
  then have sent: "ClientWriteBytes PACKET_START_MARKER \<in> set (out (loop ?i ?p))"
    by simp
  note c = cont_state_with_dark_ready(1,2,3)
  have cont: "currentState (loop ?i ?c) = STATE_ACQUISITION_CONT"
    using g(2) by (rule cont_state_with_dark_ready(4))
  from transport_by_mode [of ?c ?i] cont c
  have "\<exists>new. list_all (\<lambda>e. \<not> transport_event e) new \<and> out (loop ?i ?c) =
         out ?c @ new @ [SpiTransferBytes (tx_buffer (loop ?i ?c))] @
         (if in_client_connected ?i
          then [SerialPrintln ''Enviando dados via Wi-Fi (AP)...'',
                ClientWriteBytes PACKET_START_MARKER,
                ClientWriteWords (pixel_data (loop ?i ?c)),
                SerialPrintln ''Envio Wi-Fi (AP) completo.'']
          else [SerialPrintln ''Nenhum cliente conectado, envio ignorado.'']) @
         [DrawGraph (currentState (loop ?i ?c)) (pixel_data (loop ?i ?c))]"
    by simp
  then obtain new' where "out (loop ?i ?c) =
         out ?c @ new' @ [SpiTransferBytes (tx_buffer (loop ?i ?c))] @
         [SerialPrintln ''Enviando dados via Wi-Fi (AP)...'',
          ClientWriteBytes PACKET_START_MARKER,
          ClientWriteWords (pixel_data (loop ?i ?c)),
          SerialPrintln ''Envio Wi-Fi (AP) completo.''] @
         [DrawGraph (currentState (loop ?i ?c)) (pixel_data (loop ?i ?c))]"
    using g(4) by auto
  then have sent': "ClientWriteBytes PACKET_START_MARKER \<in> set (out (loop ?i ?c))"
    by simp
  have nstay: "currentState (loop ?n ?p) = STATE_ACQUISITION_SINGLE"
    using single_scan_step(1) [OF p(1) ng(1) p(3) p(2)] .
  from transport_by_mode [of ?p ?n] nstay p(2,3)
  have "\<exists>new. list_all (\<lambda>e. \<not> transport_event e) new \<and> out (loop ?n ?p) =
         out ?p @ new @ [SpiTransferBytes (tx_buffer (loop ?n ?p))] @
         (if in_client_connected ?n
          then [SerialPrintln ''Enviando dados via Wi-Fi (AP)...'',
                ClientWriteBytes PACKET_START_MARKER,
                ClientWriteWords (pixel_data (loop ?n ?p)),
                SerialPrintln ''Envio Wi-Fi (AP) completo.'']
          else [SerialPrintln ''Nenhum cliente conectado, envio ignorado.'']) @
         [DrawGraph (currentState (loop ?n ?p)) (pixel_data (loop ?n ?p))]"
    by blast
  then obtain new2 where "out (loop ?n ?p) =
         out ?p @ new2 @ [SpiTransferBytes (tx_buffer (loop ?n ?p))] @
         [SerialPrintln ''Nenhum cliente conectado, envio ignorado.''] @
         [DrawGraph (currentState (loop ?n ?p)) (pixel_data (loop ?n ?p))]"
    using ng(3) by auto
  then have skipped: "SerialPrintln ''Nenhum cliente conectado, envio ignorado.''
      \<in> set (out (loop ?n ?p))"
    by simp
  have ncont: "currentState (loop ?n ?c) = STATE_ACQUISITION_CONT"
    using ng(2) by (rule cont_state_with_dark_ready(4))
  from transport_by_mode [of ?c ?n] ncont c
  have "\<exists>new. list_all (\<lambda>e. \<not> transport_event e) new \<and> out (loop ?n ?c) =
         out ?c @ new @ [SpiTransferBytes (tx_buffer (loop ?n ?c))] @
         (if in_client_connected ?n
          then [SerialPrintln ''Enviando dados via Wi-Fi (AP)...'',
                ClientWriteBytes PACKET_START_MARKER,
                ClientWriteWords (pixel_data (loop ?n ?c)),
                SerialPrintln ''Envio Wi-Fi (AP) completo.'']
          else [SerialPrintln ''Nenhum cliente conectado, envio ignorado.'']) @
         [DrawGraph (currentState (loop ?n ?c)) (pixel_data (loop ?n ?c))]"
    by simp
  then obtain new3 where n3: "list_all (\<lambda>e. \<not> transport_event e) new3"
      "out (loop ?n ?c) =
         out ?c @ new3 @ [SpiTransferBytes (tx_buffer (loop ?n ?c))] @
         [SerialPrintln ''Nenhum cliente conectado, envio ignorado.''] @
         [DrawGraph (currentState (loop ?n ?c)) (pixel_data (loop ?n ?c))]"
    using ng(3) by auto
  from n3(2) have skipped': "SerialPrintln ''Nenhum cliente conectado, envio ignorado.''
      \<in> set (out (loop ?n ?c))"
    by simp
  have "ClientWriteBytes PACKET_START_MARKER \<notin> set new3"
    using n3(1) by (auto simp: list_all_iff)
  then have unsent: "ClientWriteBytes PACKET_START_MARKER \<notin> set (out (loop ?n ?c))"
    by (simp add: n3(2) c(3))
  show ?thesis
    using d(1,2,3) g scan quiet p stay sent cont c(2) sent' ng(3) nstay skipped ncont skipped'
      unsent
    by (simp add: d(4))
qed

text \<open>
  From power-up into the single-scan mode with the frame ready, and in the continuous mode
  with the frame ready, no client connected: the iteration takes the frame, prints that
  the transmission is skipped and draws.  Neither the start marker nor the spectrum is
  written, although the scan is completed and drawn.
\<close>

theorem transport_without_client_counterexample:
  "currentState (run single_scan_pending initial_state) = STATE_ACQUISITION_SINGLE \<and>
   dataReady (run single_scan_pending initial_state) \<and>
   waitingForSingleScan (run single_scan_pending initial_state) \<and>
   \<not> in_client_connected no_client_input \<and>
   currentState (loop no_client_input (run single_scan_pending initial_state))
     = STATE_ACQUISITION_SINGLE \<and>
   out (loop no_client_input (run single_scan_pending initial_state)) =
     out (run single_scan_pending initial_state) @
     [SpiTransferBytes (tx_buffer (run single_scan_pending initial_state)),
      SerialPrintln ''Nenhum cliente conectado, envio ignorado.'',
      DrawGraph STATE_ACQUISITION_SINGLE
        (pixel_data (loop no_client_input (run single_scan_pending initial_state)))] \<and>
   currentState (onDataReady cont_state_with_dark) = STATE_ACQUISITION_CONT \<and>
   dataReady (onDataReady cont_state_with_dark) \<and>
   currentState (loop no_client_input (onDataReady cont_state_with_dark))
     = STATE_ACQUISITION_CONT \<and>
   out (loop no_client_input (onDataReady cont_state_with_dark)) =
     [SpiTransferBytes (tx_buffer (onDataReady cont_state_with_dark)),
      SerialPrintln ''Nenhum cliente conectado, envio ignorado.'',
      DrawGraph STATE_ACQUISITION_CONT
        (pixel_data (loop no_client_input (onDataReady cont_state_with_dark)))] \<and>
   ClientWriteBytes PACKET_START_MARKER
     \<notin> set (out (loop no_client_input (onDataReady cont_state_with_dark))) \<and>
   ClientWriteWords (pixel_data (loop no_client_input (onDataReady cont_state_with_dark)))
     \<notin> set (out (loop no_client_input (onDataReady cont_state_with_dark)))"
proof -
  let ?n = "no_client_input"
  let ?p = "run single_scan_pending initial_state"
  let ?c = "onDataReady cont_state_with_dark"
  have ng: "in_rotation ?n = 0" "\<not> in_clicked ?n" "\<not> in_client_connected ?n"
    by simp_all
  note p = single_scan_pending_state
  note single = single_scan_step [OF p(1) ng(1) p(3) p(2)]
  have single_out: "out (loop ?n ?p) =
     out ?p @
     [SpiTransferBytes (tx_buffer ?p),
      SerialPrintln ''Nenhum cliente conectado, envio ignorado.'',
      DrawGraph STATE_ACQUISITION_SINGLE (pixel_data (loop ?n ?p))]"
    using single(4) ng(3) by simp
  note c = cont_state_with_dark_ready(1,2,3)
  have ncont: "currentState (loop ?n ?c) = STATE_ACQUISITION_CONT"
    using ng(2) by (rule cont_state_with_dark_ready(4))
  have nav: "loop_navigation ?n (loop_client ?n ?c) = loop_client ?n ?c"
    using ng(2) by (simp add: loop_navigation_def c(1) handleAcquisitionInput_def)
  have tx: "tx_buffer (loop ?n ?c) = tx_buffer ?c"
    by (simp add: loop_def nav)
  have "out (loop ?n ?c) =
     out (loop_navigation ?n (loop_client ?n ?c)) @
     [SpiTransferBytes (tx_buffer (loop ?n ?c))] @
     [SerialPrintln ''Nenhum cliente conectado, envio ignorado.''] @
     [DrawGraph (currentState (loop ?n ?c)) (pixel_data (loop ?n ?c))]"
    using published_scan_out [of ?n ?c] ncont c(2) c(1) ng(3) by simp
  then have cont_out: "out (loop ?n ?c) =
     [SpiTransferBytes (tx_buffer ?c),
      SerialPrintln ''Nenhum cliente conectado, envio ignorado.'',
      DrawGraph STATE_ACQUISITION_CONT (pixel_data (loop ?n ?c))]"
    by (simp add: nav c(3) tx ncont)
  have unsent: "ClientWriteBytes PACKET_START_MARKER \<notin> set (out (loop ?n ?c))"
    "ClientWriteWords (pixel_data (loop ?n ?c)) \<notin> set (out (loop ?n ?c))"
    by (subst cont_out, simp)+
  show ?thesis
    using p(1,3,2) ng(3) single(1) single_out c(1,2) ncont cont_out unsent
    by (intro conjI)
qed

section \<open>The dark-capture scenario from power-up\<close>















section \<open>Rounding to nearest, ties to even\<close>

lemma nat_less_int_succ:
  assumes "n < 2 ^ k"
  shows "int n + 1 \<le> 2 ^ k"
proof -
  from assms have "Suc n \<le> 2 ^ k" by simp
  then have "int (Suc n) \<le> int (2 ^ k)" by (simp only: of_nat_le_iff)
  then show ?thesis by simp
qed

lemma bit_length_bounds:
  "0 < n \<Longrightarrow> 2 ^ (bit_length n - 1) \<le> n \<and> n < 2 ^ bit_length n"
proof (induction n rule: bit_length.induct)
  case (1 n)
  show ?case
  proof (cases "n div 2 = 0")
    case True
    with 1(2) have "n = 1" by (cases n) auto
    moreover have "bit_length (Suc 0) = Suc 0"
      by (simp add: bit_length.simps [of "Suc 0"] bit_length.simps [of 0])
    ultimately show ?thesis
      by simp
  next
    case False
    then have pos: "0 < n div 2" by simp
    from 1(1) [OF _ pos] 1(2)
    have ih: "2 ^ (bit_length (n div 2) - 1) \<le> n div 2" "n div 2 < 2 ^ bit_length (n div 2)"
      by simp_all
    have bl: "bit_length n = Suc (bit_length (n div 2))"
      using 1(2) by (subst bit_length.simps) simp
    have blpos: "0 < bit_length (n div 2)"
      using pos by (subst bit_length.simps) simp
    have "2 ^ (bit_length n - 1) = 2 * 2 ^ (bit_length (n div 2) - 1)"
      using blpos by (simp add: bl flip: power_Suc)
    also have "\<dots> \<le> 2 * (n div 2)" using ih(1) by simp
    also have "\<dots> \<le> n" by simp
    finally have lo: "2 ^ (bit_length n - 1) \<le> n" .
    have "n < 2 * (n div 2) + 2" by presburger
    also have "\<dots> \<le> 2 * 2 ^ bit_length (n div 2)" using ih(2) by simp
    finally have "n < 2 ^ bit_length n" by (simp add: bl)
    with lo show ?thesis by simp
  qed
qed

lemma bit_length_pos: "0 < n \<Longrightarrow> 0 < bit_length n"
  by (subst bit_length.simps) simp

lemma binade_bounds:
  assumes "0 < x"
  shows "2 powi binade x \<le> x" and "x < 2 powi (binade x + 1)"
proof -
  have "2 powi binade x \<le> x \<and> x < 2 powi (binade x + 1)"
  proof (cases "1 \<le> x")
    case True
    let ?n = "nat \<lfloor>x\<rfloor>"
    have fl: "1 \<le> \<lfloor>x\<rfloor>" using True by simp
    then have n: "0 < ?n" by simp
    note b = bit_length_bounds [OF n]
    have e: "binade x = int (bit_length ?n - 1)"
      using True bit_length_pos [OF n] by (simp add: binade_def of_nat_diff)
    have e1: "binade x + 1 = int (bit_length ?n)"
      using True bit_length_pos [OF n] by (simp add: binade_def)
    have "(of_nat (2 ^ (bit_length ?n - 1)) :: rat) \<le> of_nat ?n"
      using b by (simp only: of_nat_le_iff)
    then have "(2::rat) ^ (bit_length ?n - 1) \<le> of_nat ?n"
      by simp
    also have "\<dots> = of_int \<lfloor>x\<rfloor>" using fl by simp
    also have "\<dots> \<le> x" by simp
    finally have lo: "2 powi binade x \<le> x" by (simp add: e)
    have "int ?n + 1 \<le> 2 ^ bit_length ?n"
      using b by (simp add: nat_less_int_succ)
    then have "\<lfloor>x\<rfloor> + 1 \<le> 2 ^ bit_length ?n" using fl by simp
    then have "(of_int (\<lfloor>x\<rfloor> + 1) :: rat) \<le> of_int (2 ^ bit_length ?n)"
      by (simp only: of_int_le_iff)
    moreover have "x < of_int (\<lfloor>x\<rfloor> + 1)" by linarith
    ultimately have "x < 2 ^ bit_length ?n" by simp
    then have "x < 2 powi (binade x + 1)" by (simp add: e1)
    with lo show ?thesis by simp
  next
    case False
    then have x1: "x < 1" by simp
    let ?c = "\<lceil>1 / x\<rceil>"
    let ?m = "nat (?c - 1)"
    have inv: "1 < 1 / x" using assms x1 by simp
    then have c2: "2 \<le> ?c" by linarith
    then have m: "0 < ?m" by simp
    note b = bit_length_bounds [OF m]
    let ?j = "bit_length ?m"
    have jpos: "0 < ?j" by (rule bit_length_pos [OF m])
    have e: "binade x = - int ?j"
      using False by (simp only: binade_def if_False)
    have "0 \<le> ?c - 1" using c2 by linarith
    then have mi: "int ?m = ?c - 1" by (rule nat_0_le)
    have "int ?m + 1 \<le> 2 ^ ?j"
      using b by (simp add: nat_less_int_succ)
    then have cj: "?c \<le> 2 ^ ?j" using mi by simp
    have "1 / x \<le> of_int ?c" by (rule le_of_int_ceiling)
    also have "(of_int ?c :: rat) \<le> of_int (2 ^ ?j)" using cj by (simp only: of_int_le_iff)
    also have "(of_int (2 ^ ?j) :: rat) = 2 ^ ?j" by simp
    finally have up: "1 / x \<le> 2 ^ ?j" .
    have lo: "2 powi binade x \<le> x"
    proof -
      have "1 \<le> 2 ^ ?j * x" using up assms by (simp add: field_simps)
      then have "1 / 2 ^ ?j \<le> x" by (simp add: field_simps)
      then show ?thesis by (simp add: e power_int_minus_divide)
    qed
    have "int (2 ^ (?j - 1)) \<le> int ?m" using b by (simp only: of_nat_le_iff)
    then have cj': "2 ^ (?j - 1) \<le> ?c - 1" using mi by simp
    have "(2::rat) ^ (?j - 1) = of_int (2 ^ (?j - 1))" by simp
    also have "\<dots> \<le> of_int (?c - 1)" using cj' by (simp only: of_int_le_iff)
    also have "\<dots> < 1 / x" by linarith
    finally have "(2::rat) ^ (?j - 1) < 1 / x" .
    then have "2 ^ (?j - 1) * x < 1" using assms by (simp add: field_simps)
    then have "x < 1 / 2 ^ (?j - 1)" by (simp add: field_simps)
    moreover have "binade x + 1 = - int (?j - 1)" using jpos by (simp add: e of_nat_diff)
    ultimately have "x < 2 powi (binade x + 1)"
      by (simp only: power_int_minus_divide power_int_of_nat)
    with lo show ?thesis by simp
  qed
  then show "2 powi binade x \<le> x" and "x < 2 powi (binade x + 1)" by simp_all
qed


lemma pow2_le: "m \<le> n \<Longrightarrow> (2::rat) powi m \<le> 2 powi n"
  by (rule power_int_increasing) simp_all

lemma binade_less:
  assumes "0 < x" and "x < 2 powi k"
  shows "binade x < k"
proof (rule ccontr)
  assume "\<not> binade x < k"
  then have "(2::rat) powi k \<le> 2 powi binade x" by (intro pow2_le) simp
  also have "\<dots> \<le> x" by (rule binade_bounds(1) [OF assms(1)])
  finally show False using assms(2) by simp
qed

lemma binade_ge:
  assumes "0 < x" and "2 powi k \<le> x"
  shows "k \<le> binade x"
proof (rule ccontr)
  assume "\<not> k \<le> binade x"
  then have "(2::rat) powi (binade x + 1) \<le> 2 powi k" by (intro pow2_le) simp
  with binade_bounds(2) [OF assms(1)] assms(2) show False by simp
qed

text \<open>\<open>binade x\<close> is the only exponent with these bounds.\<close>

lemma binade_unique:
  assumes "0 < x" and "2 powi e \<le> x" and "x < 2 powi (e + 1)"
  shows "binade x = e"
  using binade_less [OF assms(1,3)] binade_ge [OF assms(1,2)] by simp

lemma binade_mono:
  assumes "0 < x" and "x \<le> y"
  shows "binade x \<le> binade y"
proof -
  have y: "0 < y" using assms by simp
  have "2 powi binade x \<le> y"
    using binade_bounds(1) [OF assms(1)] assms(2) by simp
  then show ?thesis by (rule binade_ge [OF y])
qed

lemma round_half_even_cases:
  "round_half_even z = \<lfloor>z\<rfloor> \<and> z - of_int \<lfloor>z\<rfloor> \<le> 1 / 2 \<or>
   round_half_even z = \<lfloor>z\<rfloor> + 1 \<and> 1 / 2 \<le> z - of_int \<lfloor>z\<rfloor>"
  by (auto simp: round_half_even_def Let_def)

lemma round_half_even_error: "\<bar>of_int (round_half_even z) - z\<bar> \<le> 1 / 2"
proof -
  have "of_int \<lfloor>z\<rfloor> \<le> z" "z < of_int \<lfloor>z\<rfloor> + 1" by linarith+
  with round_half_even_cases [of z] show ?thesis by auto
qed

lemma round_half_even_of_int [simp]: "round_half_even (of_int n) = n"
  by (simp add: round_half_even_def)

lemma round_half_even_mono:
  assumes "z \<le> w"
  shows "round_half_even z \<le> round_half_even w"
proof (cases "\<lfloor>z\<rfloor> = \<lfloor>w\<rfloor>")
  case True
  with assms show ?thesis
    by (auto simp: round_half_even_def Let_def)
next
  case False
  with assms have "\<lfloor>z\<rfloor> < \<lfloor>w\<rfloor>" by (simp add: floor_mono le_neq_trans)
  moreover have "round_half_even z \<le> \<lfloor>z\<rfloor> + 1" "\<lfloor>w\<rfloor> \<le> round_half_even w"
    using round_half_even_cases [of z] round_half_even_cases [of w] by auto
  ultimately show ?thesis by simp
qed

lemma round_to_precision_pos:
  "0 < x \<Longrightarrow> round_to_precision p x =
     of_int (round_half_even (x / 2 powi (binade x - int p + 1))) * 2 powi (binade x - int p + 1)"
  by (simp add: round_to_precision_def Let_def)

lemma round_to_precision_0 [simp]: "round_to_precision p 0 = 0"
  by (simp add: round_to_precision_def)

lemma pow2_add: "(2::rat) powi (m + n) = 2 powi m * 2 powi n"
  by (simp add: power_int_add)

lemma pow2_scale_hi: "(2::rat) ^ p * 2 powi (e - int p + 1) = 2 powi (e + 1)"
proof -
  have "e + 1 = int p + (e - int p + 1)" by simp
  then have "(2::rat) powi (e + 1) = 2 powi (int p + (e - int p + 1))" by (rule arg_cong)
  also have "\<dots> = 2 powi int p * 2 powi (e - int p + 1)" by (rule pow2_add)
  also have "(2::rat) powi int p = 2 ^ p" by (rule power_int_of_nat)
  finally show ?thesis by (rule sym)
qed

lemma pow2_scale_lo:
  assumes "0 < p"
  shows "(2::rat) ^ (p - 1) * 2 powi (e - int p + 1) = 2 powi e"
proof -
  have "e = int (p - 1) + (e - int p + 1)" using assms by (simp add: of_nat_diff)
  then have "(2::rat) powi e = 2 powi (int (p - 1) + (e - int p + 1))" by (rule arg_cong)
  also have "\<dots> = 2 powi int (p - 1) * 2 powi (e - int p + 1)" by (rule pow2_add)
  also have "(2::rat) powi int (p - 1) = 2 ^ (p - 1)" by (rule power_int_of_nat)
  finally show ?thesis by (rule sym)
qed

lemma round_half_even_pow2 [simp]: "round_half_even (2 ^ n) = 2 ^ n"
  using round_half_even_of_int [of "2 ^ n"] by simp

lemma scaled_bounds:
  assumes "0 < x" and "0 < p"
  shows "2 ^ (p - 1) \<le> x / 2 powi (binade x - int p + 1)"
    and "x / 2 powi (binade x - int p + 1) \<le> 2 ^ p"
proof -
  let ?u = "(2::rat) powi (binade x - int p + 1)"
  have u: "0 < ?u" by simp
  have "2 ^ (p - 1) * ?u \<le> x"
    using binade_bounds(1) [OF assms(1)] by (simp only: pow2_scale_lo [OF assms(2)])
  then show "2 ^ (p - 1) \<le> x / ?u" using u by (simp only: pos_le_divide_eq)
  have "x \<le> 2 ^ p * ?u"
    using binade_bounds(2) [OF assms(1)] by (simp only: pow2_scale_hi)
  then show "x / ?u \<le> 2 ^ p" using u by (simp only: pos_divide_le_eq)
qed

lemma round_to_precision_bounds:
  assumes "0 < x" and "0 < p"
  shows "2 powi binade x \<le> round_to_precision p x"
    and "round_to_precision p x \<le> 2 powi (binade x + 1)"
proof -
  let ?u = "(2::rat) powi (binade x - int p + 1)"
  let ?m = "round_half_even (x / ?u)"
  have u: "0 \<le> ?u" by simp
  note sb = scaled_bounds [OF assms]
  have "2 ^ (p - 1) \<le> ?m"
    using round_half_even_mono [OF sb(1)] by (simp only: round_half_even_pow2)
  then have "(of_int (2 ^ (p - 1)) :: rat) \<le> of_int ?m" by (simp only: of_int_le_iff)
  then have "(2::rat) ^ (p - 1) \<le> of_int ?m" by simp
  then have "2 ^ (p - 1) * ?u \<le> of_int ?m * ?u"
    using u by (rule mult_right_mono)
  then show "2 powi binade x \<le> round_to_precision p x"
    by (simp only: round_to_precision_pos [OF assms(1)] pow2_scale_lo [OF assms(2)])
  have "?m \<le> 2 ^ p"
    using round_half_even_mono [OF sb(2)] by (simp only: round_half_even_pow2)
  then have "(of_int ?m :: rat) \<le> of_int (2 ^ p)" by (simp only: of_int_le_iff)
  then have "(of_int ?m :: rat) \<le> 2 ^ p" by simp
  then have "of_int ?m * ?u \<le> 2 ^ p * ?u"
    using u by (rule mult_right_mono)
  then show "round_to_precision p x \<le> 2 powi (binade x + 1)"
    by (simp only: round_to_precision_pos [OF assms(1)] pow2_scale_hi)
qed

lemma round_to_precision_nonneg:
  assumes "0 \<le> x" and "0 < p"
  shows "0 \<le> round_to_precision p x"
proof (cases "x = 0")
  case True
  then show ?thesis by simp
next
  case False
  with assms have x: "0 < x" by simp
  have "(0::rat) \<le> 2 powi binade x" by simp
  also note round_to_precision_bounds(1) [OF x assms(2)]
  finally show ?thesis .
qed

lemma round_to_precision_mono:
  assumes "0 \<le> x" and "x \<le> y" and "0 < p"
  shows "round_to_precision p x \<le> round_to_precision p y"
proof (cases "x = 0")
  case True
  with assms round_to_precision_nonneg [of y p] show ?thesis by simp
next
  case False
  with assms have x: "0 < x" and y: "0 < y" by simp_all
  show ?thesis
  proof (cases "binade x = binade y")
    case True
    let ?u = "(2::rat) powi (binade y - int p + 1)"
    have u: "0 < ?u" by simp
    have "x / ?u \<le> y / ?u" using assms(2) by (rule divide_right_mono) simp
    then have "round_half_even (x / ?u) \<le> round_half_even (y / ?u)"
      by (rule round_half_even_mono)
    then have "(of_int (round_half_even (x / ?u)) :: rat) \<le> of_int (round_half_even (y / ?u))"
      by (simp only: of_int_le_iff)
    then have "of_int (round_half_even (x / ?u)) * ?u \<le> of_int (round_half_even (y / ?u)) * ?u"
      by (rule mult_right_mono) simp
    then show ?thesis
      by (simp only: round_to_precision_pos [OF x] round_to_precision_pos [OF y] True)
  next
    case False
    with binade_mono [OF x assms(2)] have "binade x + 1 \<le> binade y" by simp
    then have "(2::rat) powi (binade x + 1) \<le> 2 powi binade y" by (rule pow2_le)
    with round_to_precision_bounds(2) [OF x assms(3)] round_to_precision_bounds(1) [OF y assms(3)]
    show ?thesis by simp
  qed
qed

lemma round_to_precision_le_pow2:
  assumes "0 \<le> x" and "x < 2 powi k" and "0 < p"
  shows "round_to_precision p x \<le> 2 powi k"
proof (cases "x = 0")
  case True
  then show ?thesis by simp
next
  case False
  with assms have x: "0 < x" by simp
  have "binade x + 1 \<le> k" using binade_less [OF x assms(2)] by simp
  then have "(2::rat) powi (binade x + 1) \<le> 2 powi k" by (rule pow2_le)
  with round_to_precision_bounds(2) [OF x assms(3)] show ?thesis by simp
qed

lemma round_to_precision_error:
  assumes "0 \<le> x" and "x < 2 powi k"
  shows "\<bar>round_to_precision p x - x\<bar> \<le> 2 powi (k - 1 - int p)"
proof (cases "x = 0")
  case True
  then show ?thesis by simp
next
  case False
  with assms have x: "0 < x" by simp
  let ?u = "(2::rat) powi (binade x - int p + 1)"
  let ?m = "round_half_even (x / ?u)"
  have u: "0 < ?u" by simp
  have "round_to_precision p x - x = (of_int ?m - x / ?u) * ?u"
    using u by (simp add: round_to_precision_pos [OF x] left_diff_distrib)
  then have "\<bar>round_to_precision p x - x\<bar> = \<bar>of_int ?m - x / ?u\<bar> * ?u"
    using u by (simp add: abs_mult)
  also have "\<dots> \<le> 1 / 2 * ?u"
    by (rule mult_right_mono [OF round_half_even_error]) simp
  also have "1 / 2 * ?u = 2 powi (binade x - int p)"
  proof -
    have "?u = 2 powi (binade x - int p) * 2 powi 1"
      by (rule pow2_add)
    then show ?thesis by simp
  qed
  also have "\<dots> \<le> 2 powi (k - 1 - int p)"
    using binade_less [OF x assms(2)] by (intro pow2_le) simp
  finally show ?thesis .
qed

section \<open>The wavenumber conversion\<close>

lemma floor_divide_numeral_rat:
  "\<lfloor>(numeral a / numeral b :: rat)\<rfloor> = numeral a div numeral b"
  using floor_divide_of_int_eq [of "numeral a" "numeral b", where ?'a = rat] by simp

lemma ceiling_divide_numeral_rat:
  "\<lceil>(numeral a / numeral b :: rat)\<rceil> = - (- numeral a div numeral b)"
  using floor_divide_of_int_eq [of "- numeral a" "numeral b", where ?'a = rat]
  by (simp add: ceiling_def)

lemmas float_eval = to_double_def to_float_def round_to_precision_def binade_def
  bit_length.simps round_half_even_def Let_def floor_divide_numeral_rat
  ceiling_divide_numeral_rat

lemma to_double_mono: "0 \<le> x \<Longrightarrow> x \<le> y \<Longrightarrow> to_double x \<le> to_double y"
  unfolding to_double_def by (rule round_to_precision_mono) simp_all

lemma to_float_mono: "0 \<le> x \<Longrightarrow> x \<le> y \<Longrightarrow> to_float x \<le> to_float y"
  unfolding to_float_def by (rule round_to_precision_mono) simp_all

lemma to_double_nonneg: "0 \<le> x \<Longrightarrow> 0 \<le> to_double x"
  unfolding to_double_def by (rule round_to_precision_nonneg) simp_all

lemma to_double_error:
  "0 \<le> x \<Longrightarrow> x < 2 powi k \<Longrightarrow> \<bar>to_double x - x\<bar> \<le> 2 powi (k - 1 - int 53)"
  unfolding to_double_def by (rule round_to_precision_error)

lemma to_float_error:
  "0 \<le> x \<Longrightarrow> x < 2 powi k \<Longrightarrow> \<bar>to_float x - x\<bar> \<le> 2 powi (k - 1 - int 24)"
  unfolding to_float_def by (rule round_to_precision_error)

lemma to_double_le_pow2:
  "0 \<le> x \<Longrightarrow> x < 2 powi k \<Longrightarrow> to_double x \<le> 2 powi k"
  unfolding to_double_def by (rule round_to_precision_le_pow2) simp_all

lemma to_double_inverse_EXC_LAMBDA:
  "to_double (1 / EXC_LAMBDA) = 135446605334451 / 2 ^ 56"
  by (simp add: EXC_LAMBDA_def float_eval)

lemma to_double_inverse_le:
  assumes "EXC_LAMBDA < l"
  shows "0 \<le> to_double (1 / l)" and "to_double (1 / l) \<le> to_double (1 / EXC_LAMBDA)"
proof -
  have l: "0 < l" "0 < EXC_LAMBDA" using assms by (simp_all add: EXC_LAMBDA_def)
  then have "0 \<le> 1 / l" by simp
  then show "0 \<le> to_double (1 / l)" by (rule to_double_nonneg)
  have "1 / l \<le> 1 / EXC_LAMBDA" using assms l by (simp add: frac_le)
  with \<open>0 \<le> 1 / l\<close> show "to_double (1 / l) \<le> to_double (1 / EXC_LAMBDA)"
    by (rule to_double_mono)
qed

lemma wavelengthToWavenumber_mono:
  assumes "EXC_LAMBDA < a" and "a \<le> b"
  shows "wavelengthToWavenumber a \<le> wavelengthToWavenumber b"
proof -
  let ?c = "to_double (1 / EXC_LAMBDA)"
  have b: "EXC_LAMBDA < b" using assms by simp
  have a0: "0 < a" using assms(1) by (simp add: EXC_LAMBDA_def)
  have ba: "1 / b \<le> 1 / a" using assms(2) a0 by (simp add: frac_le)
  have "0 \<le> 1 / b" using a0 assms(2) by simp
  then have d: "to_double (1 / b) \<le> to_double (1 / a)" using ba by (rule to_double_mono)
  have t0: "0 \<le> ?c - to_double (1 / a)"
    using to_double_inverse_le(2) [OF assms(1)] by simp
  have t: "?c - to_double (1 / a) \<le> ?c - to_double (1 / b)" using d by simp
  have s: "to_double (?c - to_double (1 / a)) \<le> to_double (?c - to_double (1 / b))"
    using t0 t by (rule to_double_mono)
  have s0: "0 \<le> to_double (?c - to_double (1 / a))" using t0 by (rule to_double_nonneg)
  have q0: "0 \<le> to_double (?c - to_double (1 / a)) * 10000000" using s0 by simp
  have q: "to_double (?c - to_double (1 / a)) * 10000000
        \<le> to_double (?c - to_double (1 / b)) * 10000000" using s by simp
  have r: "to_double (to_double (?c - to_double (1 / a)) * 10000000)
        \<le> to_double (to_double (?c - to_double (1 / b)) * 10000000)"
    using q0 q by (rule to_double_mono)
  have r0: "0 \<le> to_double (to_double (?c - to_double (1 / a)) * 10000000)"
    using q0 by (rule to_double_nonneg)
  have "to_float (to_double (to_double (?c - to_double (1 / a)) * 10000000))
        \<le> to_float (to_double (to_double (?c - to_double (1 / b)) * 10000000))"
    using r0 r by (rule to_float_mono)
  then show ?thesis
    using assms(1) b by (simp add: wavelengthToWavenumber_def)
qed

lemma wavelengthToWavenumber_error:
  assumes "EXC_LAMBDA < l"
  shows "\<bar>wavelengthToWavenumber l - (1 / EXC_LAMBDA - 1 / l) * 10000000\<bar> \<le> 1 / 1000"
proof -
  let ?c = "to_double (1 / EXC_LAMBDA)" and ?d = "to_double (1 / l)"
  let ?s = "to_double (?c - ?d)"
  let ?q = "?s * 10000000"
  let ?r = "to_double ?q"
  have l: "0 < l" using assms by (simp add: EXC_LAMBDA_def)
  have c': "0 \<le> 1 / EXC_LAMBDA" "1 / EXC_LAMBDA < 2 powi (- 9)"
    by (simp_all add: EXC_LAMBDA_def)
  have d': "0 \<le> 1 / l" using l by simp
  have "1 / l \<le> 1 / EXC_LAMBDA" using assms l by (simp add: frac_le EXC_LAMBDA_def)
  with c'(2) have d'': "1 / l < 2 powi (- 9)" by simp
  have ec: "\<bar>?c - 1 / EXC_LAMBDA\<bar> \<le> 2 powi (- 9 - 1 - int 53)"
    by (rule to_double_error [OF c'])
  have ed: "\<bar>?d - 1 / l\<bar> \<le> 2 powi (- 9 - 1 - int 53)"
    by (rule to_double_error [OF d' d''])
  note dl = to_double_inverse_le [OF assms]
  have t0: "0 \<le> ?c - ?d" using dl(2) by simp
  have "?c - ?d \<le> ?c" using dl(1) by simp
  also have "?c < 2 powi (- 9)" by (simp add: to_double_inverse_EXC_LAMBDA)
  finally have t1: "?c - ?d < 2 powi (- 9)" .
  have es: "\<bar>?s - (?c - ?d)\<bar> \<le> 2 powi (- 9 - 1 - int 53)"
    by (rule to_double_error [OF t0 t1])
  have s0: "0 \<le> ?s" using t0 by (rule to_double_nonneg)
  have s1: "?s \<le> 2 powi (- 9)"
    by (rule to_double_le_pow2 [OF t0 t1])
  have q0: "0 \<le> ?q" using s0 by simp
  have q1: "?q \<le> 19531 + 1 / 4" using s1 by simp
  then have q2: "?q < 2 powi 15" by simp
  have er: "\<bar>?r - ?q\<bar> \<le> 2 powi (15 - 1 - int 53)"
    by (rule to_double_error [OF q0 q2])
  have r0: "0 \<le> ?r" using q0 by (rule to_double_nonneg)
  have "?r \<le> ?q + 2 powi (15 - 1 - int 53)" using er by linarith
  also have "\<dots> \<le> 19531 + 1 / 4 + 2 powi (15 - 1 - int 53)" using q1 by simp
  also have "\<dots> < 2 powi 15" by simp
  finally have r1: "?r < 2 powi 15" .
  have ef: "\<bar>to_float ?r - ?r\<bar> \<le> 2 powi (15 - 1 - int 24)"
    by (rule to_float_error [OF r0 r1])
  have "\<bar>?s - (1 / EXC_LAMBDA - 1 / l)\<bar> \<le> 3 * 2 powi (- 9 - 1 - int 53)"
    using ec ed es by linarith
  then have "\<bar>?s - (1 / EXC_LAMBDA - 1 / l)\<bar> * 10000000 \<le> 3 * 2 powi (- 9 - 1 - int 53) * 10000000"
    by (rule mult_right_mono) simp
  moreover have "\<bar>?s - (1 / EXC_LAMBDA - 1 / l)\<bar> * 10000000
      = \<bar>?q - (1 / EXC_LAMBDA - 1 / l) * 10000000\<bar>"
  proof -
    have "\<bar>x\<bar> * 10000000 = \<bar>x * 10000000\<bar>" for x :: rat
      by (simp add: abs_mult)
    then show ?thesis
      by (simp only: left_diff_distrib)
  qed
  ultimately have eq: "\<bar>?q - (1 / EXC_LAMBDA - 1 / l) * 10000000\<bar>
      \<le> 3 * 2 powi (- 9 - 1 - int 53) * 10000000" by simp
  have "\<bar>to_float ?r - (1 / EXC_LAMBDA - 1 / l) * 10000000\<bar>
      \<le> 2 powi (15 - 1 - int 24) + 2 powi (15 - 1 - int 53)
        + 3 * 2 powi (- 9 - 1 - int 53) * 10000000"
    using ef er eq by linarith
  also have "\<dots> \<le> 1 / 1000" by simp
  finally show ?thesis
    using assms by (simp add: wavelengthToWavenumber_def)
qed

text \<open>
  The conversion at three arguments that are \<open>float\<close> values: 1000, 1000000 and the next
  \<open>float\<close> above 1000000, stage by stage.
\<close>

lemma wavelengthToWavenumber_1000:
  "wavelengthToWavenumber 1000 = 1126015 / 128"
proof -
  have g: "\<not> (1000::rat) \<le> EXC_LAMBDA"
    by (simp add: EXC_LAMBDA_def)
  have d: "to_double (1 / 1000) = 1152921504606847 / 2 ^ 60"
    by (simp add: float_eval)
  have s: "to_double (135446605334451 / 2 ^ 56 - 1152921504606847 / 2 ^ 60)
      = 1014224180744369 / 2 ^ 60"
    by (simp add: float_eval)
  have q: "to_double (1014224180744369 / 2 ^ 60 * 10000000) = 4836197761270375 / 2 ^ 39"
    by (simp add: float_eval)
  have r: "to_float (4836197761270375 / 2 ^ 39) = 1126015 / 128"
    by (simp add: float_eval)
  show ?thesis
    unfolding wavelengthToWavenumber_def
    by (simp only: g if_False to_double_inverse_EXC_LAMBDA d s q r)
qed

lemma wavelengthToWavenumber_1000000:
  "wavelengthToWavenumber 1000000 = 2404735 / 128"
proof -
  have g: "\<not> (1000000::rat) \<le> EXC_LAMBDA"
    by (simp add: EXC_LAMBDA_def)
  have d: "to_double (1 / 1000000) = 4722366482869645 / 2 ^ 72"
    by (simp add: float_eval)
  have s: "to_double (135446605334451 / 2 ^ 56 - 4722366482869645 / 2 ^ 72)
      = 8663971055386437 / 2 ^ 62"
    by (simp add: float_eval)
  have q: "to_double (8663971055386437 / 2 ^ 62 * 10000000) = 1291032292751437 / 2 ^ 36"
    by (simp add: float_eval)
  have r: "to_float (1291032292751437 / 2 ^ 36) = 2404735 / 128"
    by (simp add: float_eval)
  show ?thesis
    unfolding wavelengthToWavenumber_def
    by (simp only: g if_False to_double_inverse_EXC_LAMBDA d s q r)
qed

lemma wavelengthToWavenumber_next_float:
  "wavelengthToWavenumber (1000000 + 1 / 16) = 2404735 / 128"
proof -
  have g: "\<not> (1000000 + 1 / 16 :: rat) \<le> EXC_LAMBDA"
    by (simp add: EXC_LAMBDA_def)
  have d: "to_double (1 / (1000000 + 1 / 16)) = 2361183093860879 / 2 ^ 71"
    by (simp add: float_eval)
  have s: "to_double (135446605334451 / 2 ^ 56 - 2361183093860879 / 2 ^ 71)
      = 8663971055674667 / 2 ^ 62"
    by (simp add: float_eval)
  have q: "to_double (8663971055674667 / 2 ^ 62 * 10000000) = 2582064585588773 / 2 ^ 37"
    by (simp add: float_eval)
  have r: "to_float (2582064585588773 / 2 ^ 37) = 2404735 / 128"
    by (simp add: float_eval)
  show ?thesis
    unfolding wavelengthToWavenumber_def
    by (simp only: g if_False to_double_inverse_EXC_LAMBDA d s q r)
qed

text \<open>
  C4.  \<open>wavelengthToWavenumber\<close> returns 0 for every argument up to the excitation
  wavelength.  Above it, the result is the expression
  \<open>(1 / EXC_LAMBDA - 1 / lambda_nm) * 10000000\<close> with each of its four operations rounded to
  \<open>double\<close> and the product rounded to \<open>float\<close>; it is within 0.001 of the exact value of the
  expression, and it never decreases when the argument grows.
\<close>

theorem wavelengthToWavenumber_rounded:
  "(lambda_nm \<le> EXC_LAMBDA \<longrightarrow> wavelengthToWavenumber lambda_nm = 0) \<and>
   (EXC_LAMBDA < lambda_nm \<longrightarrow>
      wavelengthToWavenumber lambda_nm =
        to_float (to_double (to_double (to_double (1 / EXC_LAMBDA) - to_double (1 / lambda_nm))
                             * 10000000)) \<and>
      \<bar>wavelengthToWavenumber lambda_nm - (1 / EXC_LAMBDA - 1 / lambda_nm) * 10000000\<bar>
        \<le> 1 / 1000 \<and>
      (lambda_nm \<le> mu \<longrightarrow> wavelengthToWavenumber lambda_nm \<le> wavelengthToWavenumber mu))"
proof (intro conjI impI)
  assume "lambda_nm \<le> EXC_LAMBDA"
  then show "wavelengthToWavenumber lambda_nm = 0"
    by (simp add: wavelengthToWavenumber_def)
next
  assume "EXC_LAMBDA < lambda_nm"
  then show "wavelengthToWavenumber lambda_nm =
      to_float (to_double (to_double (to_double (1 / EXC_LAMBDA) - to_double (1 / lambda_nm))
                           * 10000000))"
    by (simp add: wavelengthToWavenumber_def)
next
  assume "EXC_LAMBDA < lambda_nm"
  then show "\<bar>wavelengthToWavenumber lambda_nm - (1 / EXC_LAMBDA - 1 / lambda_nm) * 10000000\<bar>
      \<le> 1 / 1000"
    by (rule wavelengthToWavenumber_error)
next
  assume "EXC_LAMBDA < lambda_nm" and "lambda_nm \<le> mu"
  then show "wavelengthToWavenumber lambda_nm \<le> wavelengthToWavenumber mu"
    by (rule wavelengthToWavenumber_mono)
qed

text \<open>
  At 532 the result is 0; at 1000 it is within 0.001 of the exact value and not above the
  result at 1000000.
\<close>

theorem wavelengthToWavenumber_rounded_witness:
  "(532::rat) \<le> EXC_LAMBDA \<and> wavelengthToWavenumber 532 = 0 \<and>
   EXC_LAMBDA < 1000 \<and> (1000::rat) \<le> 1000000 \<and>
   \<bar>wavelengthToWavenumber 1000 - (1 / EXC_LAMBDA - 1 / 1000) * 10000000\<bar> \<le> 1 / 1000 \<and>
   wavelengthToWavenumber 1000 \<le> wavelengthToWavenumber 1000000"
proof -
  have h: "(532::rat) \<le> EXC_LAMBDA" "EXC_LAMBDA < 1000" "(1000::rat) \<le> 1000000"
    by (simp_all add: EXC_LAMBDA_def)
  from wavelengthToWavenumber_rounded [of 532 0] h(1)
  have zero: "wavelengthToWavenumber 532 = 0"
    by blast
  from wavelengthToWavenumber_rounded [of 1000 1000000] h(2,3)
  have near: "\<bar>wavelengthToWavenumber 1000 - (1 / EXC_LAMBDA - 1 / 1000) * 10000000\<bar>
      \<le> 1 / 1000"
    and le: "wavelengthToWavenumber 1000 \<le> wavelengthToWavenumber 1000000"
    by blast+
  show ?thesis
    using h zero near le by (intro conjI)
qed

text \<open>
  1000000 and 1000000 + 1/16 are neighbouring \<open>float\<close> values above the excitation
  wavelength, and the conversion returns 18786.9921875 for both: it is not strictly
  increasing.  At 1000 it returns 8796.9921875, while the exact value of the expression is
  1170000/133.
\<close>

theorem wavelengthToWavenumber_not_strict_counterexample:
  "EXC_LAMBDA < 1000000 \<and> (1000000::rat) < 1000000 + 1 / 16 \<and>
   to_float 1000000 = 1000000 \<and> to_float (1000000 + 1 / 16) = 1000000 + 1 / 16 \<and>
   wavelengthToWavenumber 1000000 = wavelengthToWavenumber (1000000 + 1 / 16) \<and>
   EXC_LAMBDA < 1000 \<and> to_float 1000 = 1000 \<and>
   wavelengthToWavenumber 1000 = 1126015 / 128 \<and>
   wavelengthToWavenumber 1000 \<noteq> (1 / EXC_LAMBDA - 1 / 1000) * 10000000"
proof -
  have above: "EXC_LAMBDA < 1000000" "(1000000::rat) < 1000000 + 1 / 16" "EXC_LAMBDA < 1000"
    by (simp_all add: EXC_LAMBDA_def)
  have floats: "to_float 1000000 = 1000000"
    "to_float (1000000 + 1 / 16) = 1000000 + 1 / 16" "to_float 1000 = 1000"
    by (simp_all add: float_eval)
  have same: "wavelengthToWavenumber 1000000 = wavelengthToWavenumber (1000000 + 1 / 16)"
    by (simp only: wavelengthToWavenumber_1000000 wavelengthToWavenumber_next_float)
  have inexact: "wavelengthToWavenumber 1000 \<noteq> (1 / EXC_LAMBDA - 1 / 1000) * 10000000"
    by (simp add: wavelengthToWavenumber_1000 EXC_LAMBDA_def)
  show ?thesis
    using above floats same wavelengthToWavenumber_1000 inexact by (intro conjI)
qed

end
